(* ===== verification/LS_Prelude.thy ===== *)
theory LS_Prelude
  imports Complex_Main "HOL-Library.Word"
begin

text \<open>
  Shared vocabulary of the development: Go's errors and call outcomes, \<open>int64\<close>, and the
  generic lemmas on lists that several components use. Nothing here models a file of the
  repository; it fixes how Go constructs are written in every other theory.
\<close>

section \<open>Errors and outcomes\<close>

text \<open>
  Go's \<open>error\<close> values, by the way the program makes them: \<open>status.Error\<close> of gRPC,
  \<open>fmt.Errorf\<close> with plain operands, \<open>fmt.Errorf\<close> that prints another error with
  \<open>%v\<close> (kept as a wrapper around that error), \<open>fmt.Errorf\<close> that prints a duration
  (kept in nanoseconds), \<open>status.Errorf\<close> that prints a string with \<open>%q\<close> before an error (the
  string is kept unquoted), \<open>errors.NewNotFound\<close> of the API machinery,
  an error of package \<open>os\<close>, and an opaque error of a service or a package outside the
  repository. Error texts are data of the program (they are returned to callers), so they are
  kept as strings.
\<close>

datatype grpc_code = InvalidArgument | NotFound | Internal | Unimplemented

datatype errno = ENOENT | ENOTDIR | EINVAL | EACCES | ENOTEMPTY | EBUSY | EISDIR

datatype gerror =
    StatusError grpc_code string
  | FmtError string
  | FmtErrorV string gerror
  | FmtErrorDur string int string
  | StatusErrorV grpc_code string gerror
  | StatusErrorQ grpc_code string string string gerror
  | NotFoundError string string
  | OsError errno
  | ExtError string

text \<open>
  What a call does: it returns a value, returns a non-nil error, or panics (a nil pointer
  dereference). A panic is never hidden in an unspecified HOL value.
\<close>

datatype 'a outcome = Ret 'a | Err gerror | Panic

fun is_Ret :: "'a outcome \<Rightarrow> bool" where
  "is_Ret (Ret _) = True"
| "is_Ret _ = False"

lemma is_Ret_iff: "is_Ret r \<longleftrightarrow> (\<exists>x. r = Ret x)"
  by (cases r) auto

fun of_error :: "gerror option \<Rightarrow> unit outcome" where
  "of_error None = Ret ()"
| "of_error (Some e) = Err e"

section \<open>Machine integers\<close>

text \<open>Go's \<open>int64\<close>: 64-bit words, read with \<open>sint\<close>.\<close>

type_synonym int64 = "64 word"

lemma sint_int64_bounds: "- (2 ^ 63) \<le> sint (x :: int64) \<and> sint x < 2 ^ 63"
  using sint_ge [of x] sint_less [of x] by simp

section \<open>Collections of proof rules\<close>

named_theorems laws "documented laws of what is outside the repository, on a concrete instance"

section \<open>Lists\<close>

lemma filter_neq_id [simp]: "y \<notin> f ` set xs \<Longrightarrow> filter (\<lambda>x. f x \<noteq> y) xs = xs"
  by (induction xs) auto

lemma distinct_map_filter_keep:
  "distinct (map f xs) \<Longrightarrow> distinct (map f (filter P xs))"
  by (induction xs) auto

lemma filter_key_single:
  assumes "distinct (map f xs)" and "v \<in> set xs"
  shows "filter (\<lambda>x. f x = f v) xs = [v]"
  using assms
proof (induction xs)
  case Nil
  then show ?case by simp
next
  case (Cons x xs)
  show ?case
  proof (cases "v = x")
    case True
    with Cons.prems have "\<forall>y \<in> set xs. f y \<noteq> f v" by (auto simp: image_iff)
    with True show ?thesis by simp
  next
    case False
    with Cons.prems have "f x \<noteq> f v" and "v \<in> set xs" by auto
    with Cons show ?thesis by simp
  qed
qed

lemma sum_list_filter_remove:
  fixes g :: "'a \<Rightarrow> 'b :: ab_group_add"
  shows "sum_list (map g (filter (\<lambda>x. \<not> P x) xs))
       = sum_list (map g xs) - sum_list (map g (filter P xs))"
  by (induction xs) (auto simp: algebra_simps)

lemma find_Some_filter: "find P xs = Some x \<longleftrightarrow> (\<exists>ys. filter P xs = x # ys)"
  by (induction xs) auto

lemma find_None_filter: "find P xs = None \<longleftrightarrow> filter P xs = []"
  by (induction xs) auto

lemma find_SomeD: "find P xs = Some x \<Longrightarrow> x \<in> set xs \<and> P x"
  by (induction xs) (auto split: if_splits)

text \<open>\<open>if err != nil { return err }; return nil\<close>, and an error test before a further check.\<close>

lemma case_error_id [simp]: "(case e of None \<Rightarrow> None | Some err \<Rightarrow> Some err) = e"
  by (cases e) auto

lemma case_error_None:
  "(case e of None \<Rightarrow> f | Some err \<Rightarrow> Some err) = None \<longleftrightarrow> e = None \<and> f = None"
  by (cases e) auto

lemma find_key_None: "k \<notin> f ` set xs \<Longrightarrow> find (\<lambda>x. f x = k) xs = None"
  by (induction xs) auto

end
