(* ===== verification/Go_Path.thy ===== *)
theory Go_Path
  imports LS_Prelude
begin

text \<open>
  The part of Go's package \<open>path/filepath\<close> (Unix) that the program uses: \<open>filepath.Join\<close>
  and the lexical normalisation \<open>filepath.Clean\<close> inside it. A path is a string; splitting
  it at slashes gives its elements, and cleaning is a stack machine over the elements that
  follows the four documented rules of \<open>Clean\<close>. The theory ends with what the driver relies
  on: where \<open>Join base id\<close> lies relative to \<open>base\<close>.
\<close>

section \<open>Splitting and joining at slashes\<close>

fun split_slash :: "string \<Rightarrow> string list" where
  "split_slash [] = [[]]"
| "split_slash (c # cs) =
     (if c = CHR ''/'' then [] # split_slash cs
      else (case split_slash cs of
              [] \<Rightarrow> [[c]]
            | w # ws \<Rightarrow> (c # w) # ws))"

fun join_slash :: "string list \<Rightarrow> string" where
  "join_slash [] = []"
| "join_slash [w] = w"
| "join_slash (w # ws) = w @ ''/'' @ join_slash ws"

lemma split_slash_nonempty [simp]: "split_slash s \<noteq> []"
  by (induction s) (auto split: list.splits)

lemma split_slash_noslash: "CHR ''/'' \<notin> set s \<Longrightarrow> split_slash s = [s]"
  by (induction s) auto

lemma split_slash_append:
  "CHR ''/'' \<notin> set w \<Longrightarrow> split_slash (w @ CHR ''/'' # s) = w # split_slash s"
  by (induction w) auto

lemma split_slash_elems: "w \<in> set (split_slash s) \<Longrightarrow> CHR ''/'' \<notin> set w"
  by (induction s arbitrary: w) (auto split: list.splits if_splits)

lemma split_slash_append_any:
  "split_slash (s @ CHR ''/'' # t) = split_slash s @ split_slash t"
proof (induction s)
  case Nil
  then show ?case by simp
next
  case (Cons c s)
  then show ?case by (cases "split_slash s") auto
qed

lemma join_slash_Cons: "ws \<noteq> [] \<Longrightarrow> join_slash (w # ws) = w @ ''/'' @ join_slash ws"
  by (cases ws) auto

lemma split_join_slash:
  "ws \<noteq> [] \<Longrightarrow> \<forall>w \<in> set ws. CHR ''/'' \<notin> set w \<Longrightarrow> split_slash (join_slash ws) = ws"
proof (induction ws)
  case Nil
  then show ?case by simp
next
  case (Cons w ws)
  then show ?case
    by (cases ws) (auto simp: split_slash_noslash split_slash_append)
qed

section \<open>filepath.Clean\<close>

text \<open>
  One element against the elements already kept (innermost first): an empty element or
  \<open>.\<close> is dropped, \<open>..\<close> removes the element before it unless there is none to remove,
  where a rooted path drops it and a relative path keeps it.
\<close>

definition clean_elem :: "bool \<Rightarrow> string \<Rightarrow> string list \<Rightarrow> string list" where
  "clean_elem rooted w st =
     (if w = [] \<or> w = ''.'' then st
      else if w = ''..'' then
        (case st of
           [] \<Rightarrow> (if rooted then [] else [w])
         | v # below \<Rightarrow> if v = ''..'' then w # st else below)
      else w # st)"

definition rooted :: "string \<Rightarrow> bool" where
  "rooted p = (case p of [] \<Rightarrow> False | c # _ \<Rightarrow> c = CHR ''/'')"

definition clean_elems :: "string \<Rightarrow> string list" where
  "clean_elems p = rev (fold (clean_elem (rooted p)) (split_slash p) [])"

definition Clean :: "string \<Rightarrow> string" where
  "Clean p =
     (let es = clean_elems p in
      if rooted p then ''/'' @ join_slash es
      else if es = [] then ''.'' else join_slash es)"

text \<open>\<open>filepath.Join\<close> of two elements: leading empty elements are skipped, the rest is joined
  with a slash and cleaned.\<close>

definition Join :: "string \<Rightarrow> string \<Rightarrow> string" where
  "Join a b =
     (if a \<noteq> [] then Clean (a @ ''/'' @ b)
      else if b \<noteq> [] then Clean b else [])"

section \<open>Where a cleaned path lies\<close>

text \<open>A file name that is one proper path element.\<close>

definition plain_name :: "string \<Rightarrow> bool" where
  "plain_name w \<longleftrightarrow> w \<noteq> [] \<and> w \<noteq> ''.'' \<and> w \<noteq> ''..'' \<and> CHR ''/'' \<notin> set w"

lemma clean_elem_plain: "plain_name w \<Longrightarrow> clean_elem r w st = w # st"
  by (simp add: clean_elem_def plain_name_def)

lemma plain_name_split: "plain_name w \<Longrightarrow> split_slash w = [w]"
  by (simp add: plain_name_def split_slash_noslash)

lemma rooted_append: "a \<noteq> [] \<Longrightarrow> rooted (a @ b) = rooted a"
  by (cases a) (simp_all add: rooted_def)

lemma clean_elems_snoc:
  "a \<noteq> [] \<Longrightarrow> plain_name w \<Longrightarrow> clean_elems (a @ ''/'' @ w) = clean_elems a @ [w]"
  by (simp add: clean_elems_def rooted_append split_slash_append_any plain_name_split
      clean_elem_plain)

text \<open>The elements a cleaned path is made of.\<close>

definition kept_elem :: "string \<Rightarrow> bool" where
  "kept_elem x \<longleftrightarrow> x \<noteq> [] \<and> x \<noteq> ''.'' \<and> CHR ''/'' \<notin> set x"

lemma clean_elem_kept:
  "list_all kept_elem st \<Longrightarrow> CHR ''/'' \<notin> set w \<Longrightarrow> list_all kept_elem (clean_elem r w st)"
  by (auto simp: clean_elem_def kept_elem_def split: list.splits)

lemma fold_clean_kept:
  "list_all kept_elem st \<Longrightarrow> list_all (\<lambda>w. CHR ''/'' \<notin> set w) ws \<Longrightarrow>
   list_all kept_elem (fold (clean_elem r) ws st)"
  by (induction ws arbitrary: st) (auto simp: clean_elem_kept)

lemma clean_elems_kept: "list_all kept_elem (clean_elems p)"
proof -
  have "list_all (\<lambda>w. CHR ''/'' \<notin> set w) (split_slash p)"
    by (auto simp: list_all_iff dest: split_slash_elems)
  then have "list_all kept_elem (fold (clean_elem (rooted p)) (split_slash p) [])"
    by (intro fold_clean_kept) auto
  then show ?thesis by (simp add: clean_elems_def)
qed

lemma clean_elems_noslash: "w \<in> set (clean_elems p) \<Longrightarrow> CHR ''/'' \<notin> set w"
  using clean_elems_kept [of p] by (auto simp: list_all_iff kept_elem_def)

lemma Clean_nonempty: "Clean p \<noteq> []"
  using clean_elems_kept [of p]
  by (cases "clean_elems p"; cases "tl (clean_elems p)")
    (auto simp: Clean_def Let_def kept_elem_def)

lemma Join_nonempty: "a \<noteq> [] \<or> b \<noteq> [] \<Longrightarrow> Join a b \<noteq> []"
  by (auto simp: Join_def Clean_nonempty)

lemma Join_plain:
  "base \<noteq> [] \<Longrightarrow> plain_name w \<Longrightarrow>
   Join base w = (if rooted base then ''/'' @ join_slash (clean_elems base @ [w])
                  else join_slash (clean_elems base @ [w]))"
  using clean_elems_snoc [of base w] rooted_append [of base "''/'' @ w"]
  by (simp add: Join_def Clean_def)

lemma join_slash_inj:
  assumes "xs \<noteq> []" "ys \<noteq> []"
    and "\<forall>w \<in> set xs. CHR ''/'' \<notin> set w" "\<forall>w \<in> set ys. CHR ''/'' \<notin> set w"
    and "join_slash xs = join_slash ys"
  shows "xs = ys"
  using assms split_join_slash by metis

lemma Join_plain_inj:
  assumes "base \<noteq> []" "plain_name v" "plain_name w" "Join base v = Join base w"
  shows "v = w"
proof -
  have s: "\<forall>x \<in> set (clean_elems base @ [u]). CHR ''/'' \<notin> set x" if "plain_name u" for u
    using that by (auto simp: plain_name_def dest: clean_elems_noslash)
  from assms have "join_slash (clean_elems base @ [v]) = join_slash (clean_elems base @ [w])"
    by (simp add: Join_plain split: if_splits)
  then have "clean_elems base @ [v] = clean_elems base @ [w]"
    by (rule join_slash_inj [rotated 4]) (use s assms in auto)
  then show ?thesis by simp
qed

end
