(* ===== verification/Go_Os.thy ===== *)
theory Go_Os
  imports Go_Path "HOL-Library.Sublist"
begin

unbundle bit_operations_syntax

text \<open>
  The part of Go's package \<open>os\<close> the program uses, on an explicit file tree. A tree is an
  association list from absolute positions (lists of path elements) to nodes; the root is
  always a directory. What the environment refuses (permissions, a full disk) is the field
  \<open>fs_deny\<close>, an oracle per operation and position, so that every error path of the callers is
  reachable. Symbolic links are not modelled: \<open>..\<close> in a path is resolved lexically.
\<close>

section \<open>The file tree\<close>

type_synonym position = "string list"
type_synonym file_mode = "32 word"

datatype fnode = Dir file_mode | File string

datatype os_op = OpStat | OpMkdir | OpChmod | OpRemove | OpOpen | OpRead | OpWrite

record fs =
  fs_cwd :: position
  fs_umask :: file_mode
  fs_nodes :: "(position \<times> fnode) list"
  fs_deny :: "os_op \<Rightarrow> position \<Rightarrow> gerror option"

definition ModePerm :: file_mode where
  "ModePerm = 0x1FF"

definition fs_find :: "fs \<Rightarrow> position \<Rightarrow> fnode option" where
  "fs_find f q = (if q = [] then Some (Dir ModePerm) else map_of (fs_nodes f) q)"

definition fs_put :: "position \<Rightarrow> fnode \<Rightarrow> fs \<Rightarrow> fs" where
  "fs_put q n f = f\<lparr>fs_nodes := (q, n) # filter (\<lambda>e. fst e \<noteq> q) (fs_nodes f)\<rparr>"

text \<open>Where a path string leads: from the root, or from the working directory.\<close>

definition resolve :: "position \<Rightarrow> string \<Rightarrow> position" where
  "resolve cwd p =
     rev (fold (clean_elem True) (split_slash p) (if rooted p then [] else rev cwd))"

definition pos_of :: "fs \<Rightarrow> string \<Rightarrow> position" where
  "pos_of f p = resolve (fs_cwd f) p"

definition is_file :: "fnode option \<Rightarrow> bool" where
  "is_file n = (case n of Some (File _) \<Rightarrow> True | _ \<Rightarrow> False)"

text \<open>The error of a path that has no node: \<open>ENOTDIR\<close> below a file, \<open>ENOENT\<close> otherwise.\<close>

definition missing :: "fs \<Rightarrow> position \<Rightarrow> gerror" where
  "missing f q =
     (if list_ex (\<lambda>k. is_file (fs_find f (take k q))) [1..<length q]
      then OsError ENOTDIR else OsError ENOENT)"

definition IsNotExist :: "gerror \<Rightarrow> bool" where
  "IsNotExist e = (e = OsError ENOENT)"

section \<open>Operations\<close>

definition os_Stat :: "string \<Rightarrow> fs \<Rightarrow> gerror + fnode" where
  "os_Stat p f =
     (if p = [] then Inl (OsError ENOENT)
      else case fs_deny f OpStat (pos_of f p) of
        Some e \<Rightarrow> Inl e
      | None \<Rightarrow> (case fs_find f (pos_of f p) of
                  None \<Rightarrow> Inl (missing f (pos_of f p))
                | Some n \<Rightarrow> Inr n))"

text \<open>\<open>os.MkdirAll\<close> goes down the path and creates what is missing; a failure leaves the
  directories created so far.\<close>

fun mkdir_chain :: "file_mode \<Rightarrow> position \<Rightarrow> position \<Rightarrow> fs \<Rightarrow> gerror option \<times> fs" where
  "mkdir_chain perm dir [] f = (None, f)"
| "mkdir_chain perm dir (c # cs) f =
     (let q = dir @ [c] in
      case fs_find f q of
        Some (Dir _) \<Rightarrow> mkdir_chain perm q cs f
      | Some (File _) \<Rightarrow> (Some (OsError ENOTDIR), f)
      | None \<Rightarrow>
          (case fs_deny f OpMkdir q of
             Some e \<Rightarrow> (Some e, f)
           | None \<Rightarrow> mkdir_chain perm q cs (fs_put q (Dir (perm AND NOT (fs_umask f))) f)))"

definition os_MkdirAll :: "string \<Rightarrow> file_mode \<Rightarrow> fs \<Rightarrow> gerror option \<times> fs" where
  "os_MkdirAll p perm f =
     (if p = [] then (Some (OsError ENOENT), f) else mkdir_chain perm [] (pos_of f p) f)"

definition os_Chmod :: "string \<Rightarrow> file_mode \<Rightarrow> fs \<Rightarrow> gerror option \<times> fs" where
  "os_Chmod p mode f =
     (if p = [] then (Some (OsError ENOENT), f)
      else case fs_deny f OpChmod (pos_of f p) of
        Some e \<Rightarrow> (Some e, f)
      | None \<Rightarrow> (case fs_find f (pos_of f p) of
                  None \<Rightarrow> (Some (missing f (pos_of f p)), f)
                | Some (File s) \<Rightarrow> (None, f)
                | Some (Dir _) \<Rightarrow> (None, fs_put (pos_of f p) (Dir mode) f)))"

text \<open>
  \<open>os.RemoveAll\<close> removes the node and everything below it, continues past what it cannot
  remove, keeps the directories above such a node, and reports an error then. A path that
  does not exist is no error (nor is a node someone else removes meanwhile); the empty path is
  none either; a path ending in \<open>.\<close> is, and one that leads through a file.
\<close>

definition ends_with_dot :: "string \<Rightarrow> bool" where
  "ends_with_dot p = (p = ''.'' \<or> (2 \<le> length p \<and> drop (length p - 2) p = ''/.''))"

definition refuses :: "fs \<Rightarrow> position \<Rightarrow> gerror option" where
  "refuses f q =
     (case fs_deny f OpRemove q of
        None \<Rightarrow> None
      | Some e \<Rightarrow> if IsNotExist e then None else Some e)"

definition removable :: "fs \<Rightarrow> position \<Rightarrow> position \<Rightarrow> bool" where
  "removable f q r =
     (prefix q r \<and>
      \<not> list_ex (\<lambda>e. prefix r (fst e) \<and> refuses f (fst e) \<noteq> None) (fs_nodes f))"

definition remove_error :: "fs \<Rightarrow> position \<Rightarrow> gerror option" where
  "remove_error f q =
     (case find (\<lambda>e. prefix q (fst e) \<and> refuses f (fst e) \<noteq> None) (fs_nodes f) of
        None \<Rightarrow> None
      | Some e \<Rightarrow> refuses f (fst e))"

text \<open>A path that leads through a file.\<close>

definition below_file :: "fs \<Rightarrow> position \<Rightarrow> bool" where
  "below_file f q \<longleftrightarrow> fs_find f q = None \<and> \<not> IsNotExist (missing f q)"

definition os_RemoveAll :: "string \<Rightarrow> fs \<Rightarrow> gerror option \<times> fs" where
  "os_RemoveAll p f =
     (if p = [] then (None, f)
      else if ends_with_dot p then (Some (OsError EINVAL), f)
      else if below_file f (pos_of f p) then (Some (missing f (pos_of f p)), f)
      else (remove_error f (pos_of f p),
            f\<lparr>fs_nodes := filter (\<lambda>e. \<not> removable f (pos_of f p) (fst e)) (fs_nodes f)\<rparr>))"

text \<open>\<open>os.Remove\<close> removes a file or an empty directory.\<close>

definition os_Remove :: "string \<Rightarrow> fs \<Rightarrow> gerror option \<times> fs" where
  "os_Remove p f =
     (let q = pos_of f p in
      if p = [] then (Some (OsError ENOENT), f)
      else if q = [] then (Some (OsError EBUSY), f)
      else case fs_deny f OpRemove q of
        Some e \<Rightarrow> (Some e, f)
      | None \<Rightarrow>
          (if fs_find f q = None then (Some (missing f q), f)
           else if list_ex (\<lambda>e. prefix q (fst e) \<and> fst e \<noteq> q) (fs_nodes f)
           then (Some (OsError ENOTEMPTY), f)
           else (None, f\<lparr>fs_nodes := filter (\<lambda>e. fst e \<noteq> q) (fs_nodes f)\<rparr>)))"

section \<open>Resolution\<close>

text \<open>Lexical cleaning does not change where a path leads.\<close>

lemma clean_elem_pop: "v \<noteq> ''..'' \<Longrightarrow> clean_elem r ''..'' (v # st) = st"
  by (simp add: clean_elem_def)

lemma clean_elem_push: "w \<noteq> [] \<Longrightarrow> w \<noteq> ''.'' \<Longrightarrow> w \<noteq> ''..'' \<Longrightarrow> clean_elem r w st = w # st"
  by (simp add: clean_elem_def)

lemma resolve_step:
  assumes "list_all kept_elem st" and "r \<Longrightarrow> base = []"
  shows "fold (clean_elem True) (rev (clean_elem r w st)) base
       = clean_elem True w (fold (clean_elem True) (rev st) base)"
proof (cases "w = [] \<or> w = ''.''")
  case True
  then show ?thesis by (auto simp: clean_elem_def)
next
  case w: False
  show ?thesis
  proof (cases "w = ''..''")
    case False
    with w show ?thesis by (simp add: clean_elem_push)
  next
    case dd: True
    show ?thesis
    proof (cases st)
      case Nil
      with dd assms(2) show ?thesis by (auto simp: clean_elem_def)
    next
      case (Cons v below)
      show ?thesis
      proof (cases "v = ''..''")
        case True
        with dd Cons show ?thesis by (simp add: clean_elem_def)
      next
        case False
        with assms(1) Cons have "clean_elem True v st' = v # st'" for st'
          by (simp add: clean_elem_push kept_elem_def)
        with False dd Cons show ?thesis by (simp add: clean_elem_pop)
      qed
    qed
  qed
qed

lemma resolve_fold:
  assumes "list_all kept_elem st" and "list_all (\<lambda>w. CHR ''/'' \<notin> set w) ws"
    and "r \<Longrightarrow> base = []"
  shows "fold (clean_elem True) (rev (fold (clean_elem r) ws st)) base
       = fold (clean_elem True) ws (fold (clean_elem True) (rev st) base)"
  using assms(1,2)
proof (induction ws arbitrary: st)
  case Nil
  then show ?case by simp
next
  case (Cons w ws)
  then have "list_all kept_elem (clean_elem r w st)"
    by (intro clean_elem_kept) auto
  with Cons show ?case
    using resolve_step [of st r base w] assms(3) by simp
qed

lemma fold_clean_elems:
  "(rooted p \<Longrightarrow> base = []) \<Longrightarrow>
   fold (clean_elem True) (clean_elems p) base = fold (clean_elem True) (split_slash p) base"
  using resolve_fold [of "[]" "split_slash p" "rooted p" base]
  by (auto simp: clean_elems_def list_all_iff dest: split_slash_elems)

lemma clean_elems_hd: "clean_elems p = w # ws \<Longrightarrow> \<not> rooted (join_slash (w # ws))"
  using clean_elems_kept [of p] by (cases w; cases ws) (auto simp: rooted_def kept_elem_def)

lemma split_clean_elems:
  "clean_elems p \<noteq> [] \<Longrightarrow> split_slash (join_slash (clean_elems p)) = clean_elems p"
  using split_join_slash clean_elems_noslash by blast

lemma resolve_Clean: "resolve cwd (Clean p) = resolve cwd p"
proof (cases "rooted p")
  case True
  have "rooted (Clean p)" using True by (simp add: Clean_def rooted_def)
  moreover have "fold (clean_elem True) (split_slash (Clean p)) []
               = fold (clean_elem True) (clean_elems p) []"
    using True by (cases "clean_elems p = []")
      (simp_all add: Clean_def split_clean_elems clean_elem_def)
  ultimately show ?thesis
    using True fold_clean_elems [of p "[]"] by (simp add: resolve_def)
next
  case False
  show ?thesis
  proof (cases "clean_elems p")
    case Nil
    with False have "Clean p = ''.''" by (simp add: Clean_def)
    with Nil False fold_clean_elems [of p "rev cwd"] show ?thesis
      by (simp add: resolve_def rooted_def clean_elem_def)
  next
    case (Cons w ws)
    with False have "Clean p = join_slash (clean_elems p)" by (simp add: Clean_def)
    with Cons False clean_elems_hd [OF Cons] split_clean_elems [of p]
      fold_clean_elems [of p "rev cwd"]
    show ?thesis by (simp add: resolve_def)
  qed
qed

lemma resolve_Nil [simp]: "resolve cwd [] = cwd"
  by (simp add: resolve_def rooted_def clean_elem_def)

lemma resolve_below:
  assumes "plain_name w" shows "resolve cwd (Join base w) = resolve cwd base @ [w]"
proof (cases "base = []")
  case True
  have "\<not> rooted w" using assms by (cases w) (auto simp: plain_name_def rooted_def)
  then have "resolve cwd w = cwd @ [w]"
    using assms by (simp add: resolve_def plain_name_split clean_elem_plain)
  with True assms show ?thesis by (simp add: Join_def resolve_Clean plain_name_def)
next
  case False
  then show ?thesis
    using assms by (simp add: Join_def resolve_Clean)
      (simp add: resolve_def rooted_append split_slash_append_any plain_name_split clean_elem_plain)
qed

text \<open>The working directory itself contains no \<open>..\<close>; a name \<open>..\<close> then leads to the parent.\<close>

definition not_parent :: "string \<Rightarrow> bool" where
  "not_parent w \<longleftrightarrow> w \<noteq> ''..''"

lemma clean_elem_no_parent:
  "list_all not_parent st \<Longrightarrow> list_all not_parent (clean_elem True w st)"
  by (cases "w = ''..''"; cases st) (auto simp: clean_elem_def not_parent_def)

lemma fold_clean_no_parent:
  "list_all not_parent st \<Longrightarrow> list_all not_parent (fold (clean_elem True) ws st)"
  by (induction ws arbitrary: st) (auto simp: clean_elem_no_parent)

lemma clean_parent: "list_all not_parent st \<Longrightarrow> clean_elem True ''..'' st = tl st"
  by (cases st) (auto simp: clean_elem_def not_parent_def)

lemma resolve_no_parent: "list_all not_parent cwd \<Longrightarrow> list_all not_parent (resolve cwd p)"
  by (simp add: resolve_def fold_clean_no_parent)

lemma split_dotdot: "split_slash ''..'' = [''..'']"
  by simp

lemma resolve_parent:
  assumes "base \<noteq> []" and "list_all not_parent cwd"
  shows "resolve cwd (Join base ''..'') = butlast (resolve cwd base)"
proof -
  define st where "st = fold (clean_elem True) (split_slash base) (if rooted base then [] else rev cwd)"
  have "list_all not_parent st"
    unfolding st_def using assms(2) by (intro fold_clean_no_parent) auto
  then have tl: "clean_elem True ''..'' st = tl st"
    by (rule clean_parent)
  have "resolve cwd (base @ ''/'' @ ''..'') = rev (clean_elem True ''..'' st)"
    using assms(1) unfolding resolve_def rooted_append [OF assms(1)] st_def
    by (simp only: append_Cons append_Nil split_slash_append_any fold_append o_apply split_dotdot
        fold_simps id_apply)
  with tl have "resolve cwd (base @ ''/'' @ ''..'') = rev (tl st)" by simp
  moreover have "rev (tl st) = butlast (resolve cwd base)"
    by (cases st) (simp_all add: resolve_def st_def [symmetric])
  ultimately show ?thesis
    using assms(1) by (simp only: Join_def resolve_Clean if_True if_False not_False_eq_True simp_thms)
qed

section \<open>What the operations do to the tree\<close>

lemma map_of_filter_key: "map_of (filter (\<lambda>e. P (fst e)) xs) k = (if P k then map_of xs k else None)"
  by (induction xs) auto

lemma fs_find_put: "fs_find (fs_put q n f) r = (if r = q \<and> q \<noteq> [] then Some n else fs_find f r)"
  by (auto simp: fs_find_def fs_put_def map_of_filter_key [where P = "\<lambda>k. k \<noteq> q"])

lemma fs_put_frame [simp]:
  "fs_cwd (fs_put q n f) = fs_cwd f" "fs_umask (fs_put q n f) = fs_umask f"
  "fs_deny (fs_put q n f) = fs_deny f"
  by (simp_all add: fs_put_def)

definition is_dir :: "fnode option \<Rightarrow> bool" where
  "is_dir n = (case n of Some (Dir _) \<Rightarrow> True | _ \<Rightarrow> False)"

lemma is_dir_simps [simp]: "is_dir (Some (Dir m))" "\<not> is_dir (Some (File s))" "\<not> is_dir None"
  by (simp_all add: is_dir_def)

text \<open>The environment part of a tree, which no operation of the program changes.\<close>

definition same_env :: "fs \<Rightarrow> fs \<Rightarrow> bool" where
  "same_env f g \<longleftrightarrow> fs_cwd g = fs_cwd f \<and> fs_umask g = fs_umask f \<and> fs_deny g = fs_deny f"

lemma same_env_refl [simp]: "same_env f f"
  by (simp add: same_env_def)

lemma same_env_trans: "same_env f g \<Longrightarrow> same_env g h \<Longrightarrow> same_env f h"
  by (simp add: same_env_def)

lemma same_env_put [simp]: "same_env f (fs_put q n f)"
  by (simp add: same_env_def)

lemma same_env_pos: "same_env f g \<Longrightarrow> pos_of g p = pos_of f p"
  by (simp add: same_env_def pos_of_def)

subsection \<open>MkdirAll\<close>

lemma mkdir_chain_env: "mkdir_chain perm d cs f = (r, g) \<Longrightarrow> same_env f g"
proof (induction perm d cs f arbitrary: r g rule: mkdir_chain.induct)
  case (1 perm d f)
  then show ?case by simp
next
  case (2 perm d c cs f)
  then show ?case
    by (auto simp: Let_def split: option.splits fnode.splits intro: same_env_trans [OF same_env_put])
qed

text \<open>Existing nodes stay; nothing appears but directories above or at the target.\<close>

lemma mkdir_chain_keeps:
  "mkdir_chain perm d cs f = (r, g) \<Longrightarrow> fs_find f q = Some n \<Longrightarrow> fs_find g q = Some n"
proof (induction perm d cs f arbitrary: r g rule: mkdir_chain.induct)
  case (1 perm d f)
  then show ?case by simp
next
  case (2 perm d c cs f)
  show ?case
  proof (cases "fs_find f (d @ [c])")
    case None
    with "2.prems"(2) have "q \<noteq> d @ [c]" by auto
    with None "2" show ?thesis by (auto simp: Let_def fs_find_put split: option.splits)
  next
    case (Some m)
    with "2" show ?thesis by (auto simp: Let_def split: fnode.splits)
  qed
qed

lemma mkdir_chain_new:
  "mkdir_chain perm d cs f = (r, g) \<Longrightarrow> fs_find f q = None \<Longrightarrow> fs_find g q \<noteq> None \<Longrightarrow>
   is_dir (fs_find g q) \<and> prefix q (d @ cs) \<and> length d < length q"
proof (induction perm d cs f arbitrary: r g rule: mkdir_chain.induct)
  case (1 perm d f)
  then show ?case by simp
next
  case (2 perm d c cs f)
  show ?case
  proof (cases "fs_find f (d @ [c])")
    case (Some m)
    with "2" show ?thesis by (fastforce simp: Let_def split: fnode.splits)
  next
    case new: None
    let ?f = "fs_put (d @ [c]) (Dir (perm AND NOT (fs_umask f))) f"
    show ?thesis
    proof (cases "fs_deny f OpMkdir (d @ [c])")
      case (Some e)
      with new "2.prems" show ?thesis by (simp add: Let_def)
    next
      case None
      with new "2.prems"(1) have run: "mkdir_chain perm (d @ [c]) cs ?f = (r, g)"
        by (simp add: Let_def)
      show ?thesis
      proof (cases "q = d @ [c]")
        case True
        then have "fs_find g q = Some (Dir (perm AND NOT (fs_umask f)))"
          using mkdir_chain_keeps [OF run] by (simp add: fs_find_put)
        with True show ?thesis by simp
      next
        case False
        with "2.prems" have "fs_find ?f q = None" by (simp add: fs_find_put)
        with "2.IH"(1) [OF refl new None run] "2.prems"(3) show ?thesis by simp
      qed
    qed
  qed
qed

lemma mkdir_chain_ok:
  "mkdir_chain perm d cs f = (None, g) \<Longrightarrow> cs \<noteq> [] \<Longrightarrow> is_dir (fs_find g (d @ cs))"
proof (induction perm d cs f arbitrary: g rule: mkdir_chain.induct)
  case (1 perm d f)
  then show ?case by simp
next
  case (2 perm d c cs f)
  show ?case
  proof (cases cs)
    case Nil
    with "2.prems" show ?thesis
      by (auto simp: Let_def fs_find_put split: option.splits fnode.splits)
  next
    case (Cons c' cs')
    with "2" show ?thesis by (auto simp: Let_def split: option.splits fnode.splits)
  qed
qed

lemma os_MkdirAll_ok:
  "os_MkdirAll p perm f = (None, g) \<Longrightarrow> is_dir (fs_find g (pos_of f p))"
  using mkdir_chain_ok [of perm "[]" "pos_of f p" f g]
  by (cases "pos_of f p") (auto simp: os_MkdirAll_def fs_find_def split: if_splits)

lemma os_MkdirAll_frame:
  assumes "os_MkdirAll p perm f = (r, g)"
  shows "same_env f g" and "fs_find f q = Some n \<Longrightarrow> fs_find g q = Some n"
    and "\<not> prefix q (pos_of f p) \<Longrightarrow> fs_find g q = fs_find f q"
proof -
  have c: "g = f \<or> mkdir_chain perm [] (pos_of f p) f = (r, g)"
    using assms by (auto simp: os_MkdirAll_def split: if_splits)
  then show "same_env f g" and "fs_find f q = Some n \<Longrightarrow> fs_find g q = Some n"
    using mkdir_chain_env mkdir_chain_keeps by auto
  show "fs_find g q = fs_find f q" if "\<not> prefix q (pos_of f p)"
    using c that mkdir_chain_keeps [of perm "[]" "pos_of f p" f r g q]
      mkdir_chain_new [of perm "[]" "pos_of f p" f r g q]
    by (cases "fs_find f q"; cases "fs_find g q") auto
qed

subsection \<open>Chmod\<close>

lemma os_Chmod_ok:
  "os_Chmod p m f = (None, g) \<Longrightarrow> is_dir (fs_find f (pos_of f p)) \<Longrightarrow> pos_of f p \<noteq> [] \<Longrightarrow>
   fs_find g (pos_of f p) = Some (Dir m)"
  by (auto simp: os_Chmod_def fs_find_put split: option.splits fnode.splits if_splits)

lemma os_Chmod_frame:
  assumes "os_Chmod p m f = (r, g)"
  shows "same_env f g" and "is_dir (fs_find g q) = is_dir (fs_find f q)"
    and "q \<noteq> pos_of f p \<Longrightarrow> fs_find g q = fs_find f q"
    and "fs_find g q = None \<longleftrightarrow> fs_find f q = None"
  using assms by (auto simp: os_Chmod_def fs_find_put split: option.splits fnode.splits if_splits)

subsection \<open>RemoveAll\<close>

lemma os_RemoveAll_find:
  "os_RemoveAll p f = (r, g) \<Longrightarrow>
   fs_find g q = (if p \<noteq> [] \<and> \<not> ends_with_dot p \<and> \<not> below_file f (pos_of f p) \<and>
                     removable f (pos_of f p) q \<and> q \<noteq> [] then None
                  else fs_find f q)"
  by (cases "below_file f (pos_of f p)"; auto simp: os_RemoveAll_def fs_find_def split: if_splits
      simp: map_of_filter_key [where P = "\<lambda>k. \<not> removable f (pos_of f p) k"])

lemma remove_error_None:
  "remove_error f q = None \<Longrightarrow> e \<in> set (fs_nodes f) \<Longrightarrow> prefix q (fst e) \<Longrightarrow>
   refuses f (fst e) = None"
  by (cases e) (fastforce simp: remove_error_def find_None_iff split: option.splits dest: find_SomeD)

lemma remove_error_exists: "remove_error f q = Some e \<Longrightarrow> \<not> IsNotExist e"
  by (auto simp: remove_error_def refuses_def split: option.splits if_splits)

lemma removable_ok: "remove_error f q = None \<Longrightarrow> prefix q r \<Longrightarrow> removable f q r"
  unfolding removable_def list_ex_iff
  by (meson remove_error_None prefix_order.order_trans)

text \<open>A successful removal leaves nothing at or below the target.\<close>

lemma os_RemoveAll_ok:
  "os_RemoveAll p f = (None, g) \<Longrightarrow> p \<noteq> [] \<Longrightarrow> prefix (pos_of f p) q \<Longrightarrow> q \<noteq> [] \<Longrightarrow>
   fs_find g q = None"
  using os_RemoveAll_find [of p f None g q]
  by (auto simp: os_RemoveAll_def [of p f] removable_ok split: if_splits)

lemma os_RemoveAll_frame:
  assumes "os_RemoveAll p f = (r, g)"
  shows "same_env f g" and "\<not> prefix (pos_of f p) q \<Longrightarrow> fs_find g q = fs_find f q"
    and "fs_find f q = None \<Longrightarrow> fs_find g q = None"
proof -
  show "same_env f g"
    using assms by (auto simp: os_RemoveAll_def same_env_def split: if_splits)
  show "\<not> prefix (pos_of f p) q \<Longrightarrow> fs_find g q = fs_find f q"
    and "fs_find f q = None \<Longrightarrow> fs_find g q = None"
    using os_RemoveAll_find [OF assms] by (auto simp: removable_def)
qed

end
