(* ===== verification/Go_Float.thy ===== *)
theory Go_Float
  imports LS_Prelude "HOL-Library.Log_Nat"
begin

text \<open>
  Go's \<open>float64\<close>: IEEE 754 binary64 with rounding to nearest, ties to even. A finite value is
  the rational it denotes; the sign of zero is not kept. Multiplication and division round the
  exact result once; the conversion to \<open>int64\<close> truncates, and its result is
  implementation-dependent (\<open>None\<close>) where the truncated value does not fit.
\<close>

datatype float64 = Fin rat | PosInf | NegInf | NaN

section \<open>Rounding\<close>

text \<open>\<open>\<lfloor>log 2 x\<rfloor>\<close> of a positive rational, from the bit lengths of its fraction.\<close>

definition ilog2 :: "rat \<Rightarrow> int" where
  "ilog2 x =
     (case quotient_of x of
        (a, b) \<Rightarrow>
          (let d = int (floorlog 2 (nat a)) - int (floorlog 2 (nat b))
           in if 2 powi d \<le> x then d else d - 1))"

definition round_even :: "rat \<Rightarrow> int" where
  "round_even y =
     (let f = \<lfloor>y\<rfloor>; r = y - of_int f in
      if r < 1 / 2 then f
      else if 1 / 2 < r then f + 1
      else if even f then f else f + 1)"

text \<open>The exponent of the last place: 52 binary digits below the leading one, or the
  subnormal exponent.\<close>

definition ulp_exp :: "rat \<Rightarrow> int" where
  "ulp_exp m = max (ilog2 m - 52) (- 1074)"

definition round_pos :: "rat \<Rightarrow> rat" where
  "round_pos m = of_int (round_even (m / 2 powi ulp_exp m)) * 2 powi ulp_exp m"

definition f64_round :: "rat \<Rightarrow> float64" where
  "f64_round x =
     (if x = 0 then Fin 0
      else if 0 < x then
        (if 2 ^ 1024 \<le> round_pos x then PosInf else Fin (round_pos x))
      else (if 2 ^ 1024 \<le> round_pos (- x) then NegInf else Fin (- round_pos (- x))))"

section \<open>Operations\<close>

fun f64_mul :: "float64 \<Rightarrow> float64 \<Rightarrow> float64" where
  "f64_mul NaN _ = NaN"
| "f64_mul _ NaN = NaN"
| "f64_mul (Fin x) (Fin y) = f64_round (x * y)"
| "f64_mul (Fin x) PosInf = (if x = 0 then NaN else if 0 < x then PosInf else NegInf)"
| "f64_mul (Fin x) NegInf = (if x = 0 then NaN else if 0 < x then NegInf else PosInf)"
| "f64_mul PosInf (Fin y) = (if y = 0 then NaN else if 0 < y then PosInf else NegInf)"
| "f64_mul NegInf (Fin y) = (if y = 0 then NaN else if 0 < y then NegInf else PosInf)"
| "f64_mul PosInf PosInf = PosInf"
| "f64_mul PosInf NegInf = NegInf"
| "f64_mul NegInf PosInf = NegInf"
| "f64_mul NegInf NegInf = PosInf"

fun f64_div :: "float64 \<Rightarrow> float64 \<Rightarrow> float64" where
  "f64_div NaN _ = NaN"
| "f64_div _ NaN = NaN"
| "f64_div (Fin x) (Fin y) =
     (if y = 0 then (if x = 0 then NaN else if 0 < x then PosInf else NegInf)
      else f64_round (x / y))"
| "f64_div (Fin x) PosInf = Fin 0"
| "f64_div (Fin x) NegInf = Fin 0"
| "f64_div PosInf (Fin y) = (if 0 \<le> y then PosInf else NegInf)"
| "f64_div NegInf (Fin y) = (if 0 \<le> y then NegInf else PosInf)"
| "f64_div _ _ = NaN"

definition truncate_rat :: "rat \<Rightarrow> int" where
  "truncate_rat x = (if 0 \<le> x then \<lfloor>x\<rfloor> else \<lceil>x\<rceil>)"

fun f64_to_int64 :: "float64 \<Rightarrow> int64 option" where
  "f64_to_int64 (Fin x) =
     (let t = truncate_rat x in
      if - (2 ^ 63) \<le> t \<and> t < 2 ^ 63 then Some (word_of_int t) else None)"
| "f64_to_int64 _ = None"

section \<open>Error bound\<close>

lemma powi2_pos [simp]: "0 < (2 :: rat) powi k"
  by (simp add: zero_less_power_int)

lemma ilog2_le:
  assumes "0 < x" shows "2 powi ilog2 x \<le> x"
proof -
  obtain a b where q: "quotient_of x = (a, b)" by fastforce
  then have b: "0 < b" and x: "x = of_int a / of_int b"
    using quotient_of_denom_pos quotient_of_div by blast+
  with assms have a: "0 < a" by (simp add: zero_less_divide_iff)
  let ?la = "floorlog 2 (nat a)" and ?lb = "floorlog 2 (nat b)"
  have la: "2 ^ (?la - 1) \<le> nat a" and "0 < ?la"
    using floorlog_bounds [of "nat a" 2] a by (auto simp: floorlog_def)
  have lb: "nat b < 2 ^ ?lb"
    using floorlog_bounds [of "nat b" 2] b by simp
  have "(2 :: rat) powi (int ?la - 1) = 2 ^ (?la - 1)"
    using \<open>0 < ?la\<close> by (simp add: power_int_def nat_diff_distrib)
  also have "\<dots> \<le> of_int a"
    using la a by (metis int_nat_eq le_less of_int_le_iff of_int_numeral of_int_of_nat_eq of_int_power of_nat_le_iff of_nat_numeral of_nat_power)
  finally have A: "(2 :: rat) powi (int ?la - 1) \<le> of_int a" .
  have "int (nat b) < int (2 ^ ?lb)" using lb by (rule iffD2 [OF of_nat_less_iff])
  then have "b < 2 ^ ?lb" using b by simp
  then have "(of_int b :: rat) < of_int (2 ^ ?lb)" by (rule iffD2 [OF of_int_less_iff])
  then have B: "(of_int b :: rat) \<le> 2 powi int ?lb" by (simp add: power_int_def)
  have "(2 :: rat) powi (int ?la - int ?lb - 1) = 2 powi (int ?la - 1) / 2 powi int ?lb"
  proof -
    have "int ?la - int ?lb - 1 = (int ?la - 1) - int ?lb" by simp
    then show ?thesis by (simp only: power_int_diff [where x = "2 :: rat", simplified])
  qed
  also have "\<dots> \<le> of_int a / of_int b"
    using A B b a by (intro frac_le) simp_all
  finally have "(2 :: rat) powi (int ?la - int ?lb - 1) \<le> x" by (simp add: x)
  with q show ?thesis by (simp add: ilog2_def Let_def)
qed

lemma round_even_bound: "of_int (round_even y) \<le> y + 1 / 2" "y - 1 / 2 \<le> of_int (round_even y)"
proof -
  have "of_int \<lfloor>y\<rfloor> \<le> y" "y < of_int \<lfloor>y\<rfloor> + 1" by linarith+
  then show "of_int (round_even y) \<le> y + 1 / 2" "y - 1 / 2 \<le> of_int (round_even y)"
    unfolding round_even_def Let_def by (simp_all split: if_split, linarith+)
qed

lemma round_even_nonneg: "0 \<le> y \<Longrightarrow> 0 \<le> round_even y"
  by (auto simp: round_even_def Let_def)

text \<open>The distance to the exact value is at most half a unit in the last place.\<close>

lemma round_pos_bound:
  assumes "0 < m"
  shows "round_pos m \<le> m + m / 2 ^ 53 + 1 / 2 ^ 1075" and "0 \<le> round_pos m"
proof -
  let ?u = "(2 :: rat) powi ulp_exp m"
  have "?u \<le> 2 powi (ilog2 m - 52) + 2 powi (- 1074)"
    by (cases "ilog2 m - 52 \<le> - 1074") (simp_all add: ulp_exp_def max_def)
  also have "2 powi (ilog2 m - 52) = 2 powi ilog2 m / (2 :: rat) ^ 52"
    by (simp add: power_int_diff)
  also have "(2 :: rat) powi (- 1074) = 1 / 2 ^ 1074"
    by (simp add: power_int_def field_simps)
  finally have u: "?u \<le> m / 2 ^ 52 + 1 / 2 ^ 1074"
    using ilog2_le [OF assms] by (meson add_right_mono divide_right_mono order_trans zero_le_numeral zero_le_power)
  have "round_pos m \<le> (m / ?u + 1 / 2) * ?u"
    unfolding round_pos_def by (intro mult_right_mono round_even_bound less_imp_le powi2_pos)
  also have "\<dots> = m + ?u / 2" by (simp add: field_simps)
  finally show "round_pos m \<le> m + m / 2 ^ 53 + 1 / 2 ^ 1075"
    using u by simp
  show "0 \<le> round_pos m"
    unfolding round_pos_def using assms by (intro mult_nonneg_nonneg) (auto intro: round_even_nonneg less_imp_le)
qed

end
