(* ===== verification/LS_Types.thy ===== *)
theory LS_Types
  imports Go_Os Go_Float
begin

text \<open>
  The API types of \<^verbatim>\<open>pkg/apis/localstorage/v1/types.go\<close> as records. Phases and modes are
  strings in Go, with named constants, and stay strings (an object may hold any string, the
  empty one included). A pointer field is an \<open>option\<close>; the type of the quantities is a
  parameter \<open>'q\<close>, because \<open>resource.Quantity\<close> is code outside the repository.
\<close>

section \<open>Quantities\<close>

text \<open>
  The operations of \<open>resource.Quantity\<close> the program calls: \<open>NewQuantity(b, BinarySI)\<close>,
  \<open>Add\<close>, \<open>Sub\<close>, \<open>Cmp\<close>, \<open>ParseQuantity\<close> and \<open>AsApproximateFloat64\<close>. They are arguments of every definition that
  uses them. What the package documents about them is \<open>quantity_laws\<close>: a quantity stands for
  a number, and the operations are exact on it.
\<close>

record 'q quantity_ops =
  q_New :: "int64 \<Rightarrow> 'q"
  q_Add :: "'q \<Rightarrow> 'q \<Rightarrow> 'q"
  q_Sub :: "'q \<Rightarrow> 'q \<Rightarrow> 'q"
  q_Cmp :: "'q \<Rightarrow> 'q \<Rightarrow> int"
  q_Parse :: "string \<Rightarrow> gerror + 'q"
  q_AsFloat :: "'q \<Rightarrow> float64"

definition quantity_laws :: "'q quantity_ops \<Rightarrow> ('q \<Rightarrow> rat) \<Rightarrow> bool" where
  "quantity_laws Q val \<longleftrightarrow>
     (\<forall>b. val (q_New Q b) = of_int (sint b)) \<and>
     (\<forall>a b. val (q_Add Q a b) = val a + val b) \<and>
     (\<forall>a b. val (q_Sub Q a b) = val a - val b) \<and>
     (\<forall>a b. (0 < q_Cmp Q a b \<longleftrightarrow> val b < val a) \<and> (q_Cmp Q a b = 0 \<longleftrightarrow> val a = val b))"

lemma quantity_laws_simps:
  assumes "quantity_laws Q val"
  shows "val (q_New Q b) = of_int (sint b)"
    and "val (q_Add Q x y) = val x + val y"
    and "val (q_Sub Q x y) = val x - val y"
    and "0 < q_Cmp Q x y \<longleftrightarrow> val y < val x"
    and "q_Cmp Q x y = 0 \<longleftrightarrow> val x = val y"
  using assms by (simp_all add: quantity_laws_def)

section \<open>The objects\<close>

type_synonym LocalStoragePhase = string
type_synonym LocalStorageMode = string

definition LocalStoragePending :: LocalStoragePhase where
  "LocalStoragePending = ''Pending''"
definition LocalStorageInitiating :: LocalStoragePhase where
  "LocalStorageInitiating = ''Initiating''"
definition LocalStorageTerminating :: LocalStoragePhase where
  "LocalStorageTerminating = ''Terminating''"
definition LocalStorageExtending :: LocalStoragePhase where
  "LocalStorageExtending = ''Extending''"
definition LocalStorageMaintaining :: LocalStoragePhase where
  "LocalStorageMaintaining = ''Maintaining''"
definition LocalStorageReady :: LocalStoragePhase where
  "LocalStorageReady = ''Ready''"
definition LocalStorageUnknown :: LocalStoragePhase where
  "LocalStorageUnknown = ''Unknown''"

definition LocalStoragePath :: LocalStorageMode where
  "LocalStoragePath = ''path''"
definition LocalStorageLvm :: LocalStorageMode where
  "LocalStorageLvm = ''lvm''"

lemmas phase_defs = LocalStoragePending_def LocalStorageInitiating_def
  LocalStorageTerminating_def LocalStorageExtending_def LocalStorageMaintaining_def
  LocalStorageReady_def LocalStorageUnknown_def

record PathSpec =
  ps_VolumeDir :: string

record DiskSpec =
  ds_Name :: string
  ds_Identifier :: string

text \<open>\<open>Disks\<close> keeps the difference between a nil and an empty slice, which
  \<open>reflect.DeepEqual\<close> sees.\<close>

record LvmSpec =
  lv_VolumeGroup :: string
  lv_Disks :: "DiskSpec list option"

record LocalStorageSpec =
  sp_Node :: string
  sp_Path :: "PathSpec option"
  sp_Lvm :: "LvmSpec option"

record Volume =
  v_VolName :: string
  v_VolID :: string
  v_VolPath :: string
  v_VolSize :: int64
  v_NodeID :: string
  v_Attached :: bool

text \<open>The zero value of the struct.\<close>

definition zero_Volume :: Volume where
  "zero_Volume = \<lparr>v_VolName = [], v_VolID = [], v_VolPath = [], v_VolSize = 0,
                  v_NodeID = [], v_Attached = False\<rparr>"

record 'q LocalStorageStatus =
  st_Phase :: LocalStoragePhase
  st_Allocatable :: "'q option"
  st_Capacity :: "'q option"
  st_Volumes :: "Volume list"
  st_Mode :: LocalStorageMode
  st_Conditions :: string

text \<open>
  Of the Kubernetes metadata (\<open>metav1.TypeMeta\<close>, \<open>metav1.ObjectMeta\<close>) the model keeps the
  fields the program reads or writes and the resource version the API server checks. A
  timestamp is the number of nanoseconds since Go's zero time.
\<close>

record ObjectMeta =
  om_Name :: string
  om_ResourceVersion :: string
  om_Annotations :: "string \<rightharpoonup> string"
  om_Finalizers :: "string list"
  om_DeletionTimestamp :: "int option"

record 'q LocalStorage =
  ls_Kind :: string
  ls_APIVersion :: string
  ls_Meta :: ObjectMeta
  ls_Spec :: LocalStorageSpec
  ls_Status :: "'q LocalStorageStatus"

abbreviation ls_Name :: "'q LocalStorage \<Rightarrow> string" where
  "ls_Name l \<equiv> om_Name (ls_Meta l)"
abbreviation ls_Node :: "'q LocalStorage \<Rightarrow> string" where
  "ls_Node l \<equiv> sp_Node (ls_Spec l)"
abbreviation ls_Phase :: "'q LocalStorage \<Rightarrow> LocalStoragePhase" where
  "ls_Phase l \<equiv> st_Phase (ls_Status l)"
abbreviation ls_Volumes :: "'q LocalStorage \<Rightarrow> Volume list" where
  "ls_Volumes l \<equiv> st_Volumes (ls_Status l)"
abbreviation ls_Version :: "'q LocalStorage \<Rightarrow> string" where
  "ls_Version l \<equiv> om_ResourceVersion (ls_Meta l)"

text \<open>Assigning one field of the status or of the metadata, as \<open>ls.Status.X = v\<close> does.\<close>

definition set_Phase :: "LocalStoragePhase \<Rightarrow> 'q LocalStorage \<Rightarrow> 'q LocalStorage" where
  "set_Phase p l = l\<lparr>ls_Status := (ls_Status l)\<lparr>st_Phase := p\<rparr>\<rparr>"
definition set_Allocatable :: "'q option \<Rightarrow> 'q LocalStorage \<Rightarrow> 'q LocalStorage" where
  "set_Allocatable q l = l\<lparr>ls_Status := (ls_Status l)\<lparr>st_Allocatable := q\<rparr>\<rparr>"
definition set_Capacity :: "'q option \<Rightarrow> 'q LocalStorage \<Rightarrow> 'q LocalStorage" where
  "set_Capacity q l = l\<lparr>ls_Status := (ls_Status l)\<lparr>st_Capacity := q\<rparr>\<rparr>"
definition set_Volumes :: "Volume list \<Rightarrow> 'q LocalStorage \<Rightarrow> 'q LocalStorage" where
  "set_Volumes vs l = l\<lparr>ls_Status := (ls_Status l)\<lparr>st_Volumes := vs\<rparr>\<rparr>"
definition set_Finalizers :: "string list \<Rightarrow> 'q LocalStorage \<Rightarrow> 'q LocalStorage" where
  "set_Finalizers fs l = l\<lparr>ls_Meta := (ls_Meta l)\<lparr>om_Finalizers := fs\<rparr>\<rparr>"

lemmas field_defs = set_Phase_def set_Allocatable_def set_Capacity_def set_Volumes_def
  set_Finalizers_def

text \<open>\<open>metav1.Time.IsZero\<close>, also on a nil pointer.\<close>

definition IsZero :: "int option \<Rightarrow> bool" where
  "IsZero t = (case t of None \<Rightarrow> True | Some n \<Rightarrow> n = 0)"

definition being_deleted :: "'q LocalStorage \<Rightarrow> bool" where
  "being_deleted l \<longleftrightarrow> \<not> IsZero (om_DeletionTimestamp (ls_Meta l))"

lemma set_fields [simp]:
  "ls_Spec (set_Phase p l) = ls_Spec l" "ls_Meta (set_Phase p l) = ls_Meta l"
  "ls_Phase (set_Phase p l) = p" "ls_Volumes (set_Phase p l) = ls_Volumes l"
  "st_Allocatable (ls_Status (set_Phase p l)) = st_Allocatable (ls_Status l)"
  "st_Capacity (ls_Status (set_Phase p l)) = st_Capacity (ls_Status l)"
  "ls_Spec (set_Allocatable a l) = ls_Spec l" "ls_Meta (set_Allocatable a l) = ls_Meta l"
  "ls_Phase (set_Allocatable a l) = ls_Phase l" "ls_Volumes (set_Allocatable a l) = ls_Volumes l"
  "st_Allocatable (ls_Status (set_Allocatable a l)) = a"
  "st_Capacity (ls_Status (set_Allocatable a l)) = st_Capacity (ls_Status l)"
  "ls_Spec (set_Capacity a l) = ls_Spec l" "ls_Meta (set_Capacity a l) = ls_Meta l"
  "ls_Phase (set_Capacity a l) = ls_Phase l" "ls_Volumes (set_Capacity a l) = ls_Volumes l"
  "st_Allocatable (ls_Status (set_Capacity a l)) = st_Allocatable (ls_Status l)"
  "st_Capacity (ls_Status (set_Capacity a l)) = a"
  "ls_Spec (set_Volumes vs l) = ls_Spec l" "ls_Meta (set_Volumes vs l) = ls_Meta l"
  "ls_Phase (set_Volumes vs l) = ls_Phase l" "ls_Volumes (set_Volumes vs l) = vs"
  "st_Allocatable (ls_Status (set_Volumes vs l)) = st_Allocatable (ls_Status l)"
  "st_Capacity (ls_Status (set_Volumes vs l)) = st_Capacity (ls_Status l)"
  "ls_Spec (set_Finalizers fs l) = ls_Spec l" "ls_Status (set_Finalizers fs l) = ls_Status l"
  "om_Finalizers (ls_Meta (set_Finalizers fs l)) = fs"
  "om_Name (ls_Meta (set_Finalizers fs l)) = om_Name (ls_Meta l)"
  "om_ResourceVersion (ls_Meta (set_Finalizers fs l)) = om_ResourceVersion (ls_Meta l)"
  "om_DeletionTimestamp (ls_Meta (set_Finalizers fs l)) = om_DeletionTimestamp (ls_Meta l)"
  by (simp_all add: field_defs)

lemma set_fields_type [simp]:
  "ls_Kind (set_Phase p l) = ls_Kind l" "ls_APIVersion (set_Phase p l) = ls_APIVersion l"
  "ls_Kind (set_Volumes vs l) = ls_Kind l" "ls_APIVersion (set_Volumes vs l) = ls_APIVersion l"
  "ls_Kind (set_Finalizers fs l) = ls_Kind l" "ls_APIVersion (set_Finalizers fs l) = ls_APIVersion l"
  by (simp_all add: field_defs)

lemma set_same [simp]:
  "set_Phase (ls_Phase l) l = l" "set_Volumes (ls_Volumes l) l = l"
  "set_Finalizers (om_Finalizers (ls_Meta l)) l = l"
  by (simp_all add: field_defs)

end
