(* ===== verification/LS_Util.thy ===== *)
theory LS_Util
  imports LS_Types
begin

text \<open>
  The helpers of \<^verbatim>\<open>pkg/util\<close>: phase tests, the list of volumes of a localstorage, its
  finalizers, and \<open>BytesToQuantity\<close>. The loops that delete while they iterate are written with
  the index of the source. The collection of finalizers and the collection of volumes offer
  the same contract (\<open>keyed_collection\<close>), and both are instances of it.
\<close>

section \<open>pkg/util/controller\_utils.go: phases\<close>

definition CheckLocalStoragePhase :: "LocalStoragePhase \<Rightarrow> LocalStoragePhase \<Rightarrow> bool" where
  "CheckLocalStoragePhase p1 p2 = (p1 = p2)"

definition LocalStorageIsPending :: "'q LocalStorage \<Rightarrow> bool" where
  "LocalStorageIsPending ls = CheckLocalStoragePhase (ls_Phase ls) LocalStoragePending"

definition LocalStorageIsInitiating :: "'q LocalStorage \<Rightarrow> bool" where
  "LocalStorageIsInitiating ls = CheckLocalStoragePhase (ls_Phase ls) LocalStorageInitiating"

definition LocalStorageIsReady :: "'q LocalStorage \<Rightarrow> bool" where
  "LocalStorageIsReady ls = CheckLocalStoragePhase (ls_Phase ls) LocalStorageReady"

definition LocalStorageIsTerminating :: "'q LocalStorage \<Rightarrow> bool" where
  "LocalStorageIsTerminating ls = CheckLocalStoragePhase (ls_Phase ls) LocalStorageTerminating"

definition SetLocalStoragePhase :: "'q LocalStorage \<Rightarrow> LocalStoragePhase \<Rightarrow> 'q LocalStorage" where
  "SetLocalStoragePhase ls phase = set_Phase phase ls"

definition AssignedLocalstorage :: "'q LocalStorage \<Rightarrow> string \<Rightarrow> bool" where
  "AssignedLocalstorage ls nodeId =
     (if ls_Node ls \<noteq> nodeId then False
      else LocalStorageIsInitiating ls \<or> LocalStorageIsPending ls)"

lemmas phase_tests = CheckLocalStoragePhase_def LocalStorageIsPending_def
  LocalStorageIsInitiating_def LocalStorageIsReady_def LocalStorageIsTerminating_def

section \<open>pkg/util/controller\_utils.go: volumes\<close>

definition GetVolumes :: "'q LocalStorage \<Rightarrow> Volume list" where
  "GetVolumes ls = ls_Volumes ls"

definition SetVolume :: "'q LocalStorage \<Rightarrow> Volume list \<Rightarrow> 'q LocalStorage" where
  "SetVolume ls volumes = set_Volumes volumes ls"

fun ContainsVolume_loop :: "string \<Rightarrow> Volume list \<Rightarrow> bool" where
  "ContainsVolume_loop volID [] = False"
| "ContainsVolume_loop volID (v # vs) =
     (if v_VolID v = volID then True else ContainsVolume_loop volID vs)"

definition ContainsVolume :: "'q LocalStorage \<Rightarrow> string \<Rightarrow> bool" where
  "ContainsVolume ls volID = ContainsVolume_loop volID (GetVolumes ls)"

definition AddVolume :: "'q LocalStorage \<Rightarrow> Volume \<Rightarrow> 'q LocalStorage" where
  "AddVolume ls volume =
     (if ContainsVolume ls (v_VolID volume) then ls
      else SetVolume ls (GetVolumes ls @ [volume]))"

text \<open>
  The loop of \<open>RemoveVolume\<close>: after deleting at \<open>i\<close> the index still advances, so the element
  that moved to \<open>i\<close> is not looked at.
\<close>

function RemoveVolume_loop :: "string \<Rightarrow> Volume list \<Rightarrow> nat \<Rightarrow> Volume \<Rightarrow> Volume list \<times> Volume" where
  "RemoveVolume_loop volID volumes i vol =
     (if i < length volumes then
        (if v_VolID (volumes ! i) = volID
         then RemoveVolume_loop volID (take i volumes @ drop (Suc i) volumes) (Suc i) (volumes ! i)
         else RemoveVolume_loop volID volumes (Suc i) vol)
      else (volumes, vol))"
  by pat_completeness auto
termination
  by (relation "measure (\<lambda>(volID, volumes, i, vol). length volumes - i)") auto

declare RemoveVolume_loop.simps [simp del]

definition RemoveVolume :: "'q LocalStorage \<Rightarrow> string \<Rightarrow> 'q LocalStorage \<times> Volume" where
  "RemoveVolume ls volID =
     (let r = RemoveVolume_loop volID (GetVolumes ls) 0 zero_Volume
      in (SetVolume ls (fst r), snd r))"

section \<open>pkg/util/finalizer.go\<close>

definition LsProtectionFinalizer :: string where
  "LsProtectionFinalizer = ''caoyingjunz.io/ls-protection''"

abbreviation GetFinalizers :: "'q LocalStorage \<Rightarrow> string list" where
  "GetFinalizers o' \<equiv> om_Finalizers (ls_Meta o')"

fun ContainsFinalizer_loop :: "string \<Rightarrow> string list \<Rightarrow> bool" where
  "ContainsFinalizer_loop finalizer [] = False"
| "ContainsFinalizer_loop finalizer (e # es) =
     (if e = finalizer then True else ContainsFinalizer_loop finalizer es)"

definition ContainsFinalizer :: "'q LocalStorage \<Rightarrow> string \<Rightarrow> bool" where
  "ContainsFinalizer o' finalizer = ContainsFinalizer_loop finalizer (GetFinalizers o')"

definition AddFinalizer :: "'q LocalStorage \<Rightarrow> string \<Rightarrow> bool \<times> 'q LocalStorage" where
  "AddFinalizer o' finalizer =
     (if ContainsFinalizer_loop finalizer (GetFinalizers o') then (False, o')
      else (True, set_Finalizers (GetFinalizers o' @ [finalizer]) o'))"

text \<open>The loop of \<open>RemoveFinalizer\<close> steps back after a deletion (\<open>i--\<close>, then \<open>i++\<close>).\<close>

function RemoveFinalizer_loop :: "string \<Rightarrow> string list \<Rightarrow> nat \<Rightarrow> bool \<Rightarrow> string list \<times> bool" where
  "RemoveFinalizer_loop finalizer f i updated =
     (if i < length f then
        (if f ! i = finalizer
         then RemoveFinalizer_loop finalizer (take i f @ drop (Suc i) f) i True
         else RemoveFinalizer_loop finalizer f (Suc i) updated)
      else (f, updated))"
  by pat_completeness auto
termination
  by (relation "measure (\<lambda>(finalizer, f, i, updated). length f - i)") auto

declare RemoveFinalizer_loop.simps [simp del]

definition RemoveFinalizer :: "'q LocalStorage \<Rightarrow> string \<Rightarrow> bool \<times> 'q LocalStorage" where
  "RemoveFinalizer o' finalizer =
     (let r = RemoveFinalizer_loop finalizer (GetFinalizers o') 0 False
      in (snd r, set_Finalizers (fst r) o'))"

section \<open>pkg/util/util.go\<close>

definition BytesToQuantity :: "'q quantity_ops \<Rightarrow> int64 \<Rightarrow> 'q" where
  "BytesToQuantity Q bytes = q_New Q bytes"

section \<open>Collections with keys: the shared contract\<close>

text \<open>
  A collection inside an object, with members that have keys: a membership test, an insertion
  that does nothing when the key is there, and a removal by key. \<open>wf\<close> is what the removal needs
  of the object.
\<close>

locale keyed_collection =
  fixes wf :: "'o \<Rightarrow> bool"
    and keys :: "'o \<Rightarrow> 'k list"
    and key_of :: "'x \<Rightarrow> 'k"
    and has :: "'o \<Rightarrow> 'k \<Rightarrow> bool"
    and ins :: "'o \<Rightarrow> 'x \<Rightarrow> 'o"
    and del :: "'o \<Rightarrow> 'k \<Rightarrow> 'o"
  assumes has_keys: "has m k \<longleftrightarrow> k \<in> set (keys m)"
    and ins_present: "has m (key_of x) \<Longrightarrow> ins m x = m"
    and ins_absent: "\<not> has m (key_of x) \<Longrightarrow> keys (ins m x) = keys m @ [key_of x]"
    and del_keys: "wf m \<Longrightarrow> keys (del m k) = filter (\<lambda>j. j \<noteq> k) (keys m)"
    and wf_ins: "wf m \<Longrightarrow> wf (ins m x)"
    and wf_del: "wf m \<Longrightarrow> wf (del m k)"
begin

lemma has_ins: "has (ins m x) k \<longleftrightarrow> k = key_of x \<or> has m k"
  by (cases "has m (key_of x)") (auto simp: ins_present ins_absent has_keys)

lemma has_del: "wf m \<Longrightarrow> has (del m k) j \<longleftrightarrow> j \<noteq> k \<and> has m j"
  by (auto simp: has_keys del_keys)

lemma ins_idem: "ins (ins m x) x = ins m x"
  by (simp add: has_ins ins_present)

lemma del_ins_new:
  assumes "wf m" and "\<not> has m (key_of x)"
  shows "keys (del (ins m x) (key_of x)) = keys m"
proof -
  have "filter (\<lambda>j. j \<noteq> key_of x) (keys m) = keys m"
    using assms(2) by (auto simp: has_keys filter_id_conv)
  then show ?thesis
    using assms by (simp add: del_keys wf_ins ins_absent)
qed

lemma distinct_ins: "distinct (keys m) \<Longrightarrow> distinct (keys (ins m x))"
  by (cases "has m (key_of x)") (auto simp: ins_present ins_absent has_keys)

lemma distinct_del: "wf m \<Longrightarrow> distinct (keys m) \<Longrightarrow> distinct (keys (del m k))"
  by (simp add: del_keys)

end

section \<open>The list of volumes\<close>

lemma ContainsVolume_loop_iff: "ContainsVolume_loop volID vs \<longleftrightarrow> volID \<in> v_VolID ` set vs"
  by (induction vs) auto

lemma ContainsVolume_iff: "ContainsVolume ls volID \<longleftrightarrow> volID \<in> v_VolID ` set (ls_Volumes ls)"
  by (simp add: ContainsVolume_def GetVolumes_def ContainsVolume_loop_iff)

lemma AddVolume_new:
  "v_VolID v \<notin> v_VolID ` set (ls_Volumes ls) \<Longrightarrow> AddVolume ls v = set_Volumes (ls_Volumes ls @ [v]) ls"
  by (simp add: AddVolume_def ContainsVolume_iff SetVolume_def GetVolumes_def)

lemma AddVolume_old:
  "v_VolID v \<in> v_VolID ` set (ls_Volumes ls) \<Longrightarrow> AddVolume ls v = ls"
  by (simp add: AddVolume_def ContainsVolume_iff)

lemma RemoveVolume_loop_skip:
  assumes "volID \<notin> v_VolID ` set (drop i vs)"
  shows "RemoveVolume_loop volID vs i vol = (vs, vol)"
  using assms
proof (induction "length vs - i" arbitrary: i)
  case 0
  then show ?case by (simp add: RemoveVolume_loop.simps [of volID vs i])
next
  case (Suc n)
  then have i: "i < length vs" by simp
  then have d: "drop i vs = vs ! i # drop (Suc i) vs" by (rule Cons_nth_drop_Suc [symmetric])
  with Suc.prems have "v_VolID (vs ! i) \<noteq> volID" and "volID \<notin> v_VolID ` set (drop (Suc i) vs)"
    by auto
  with Suc i show ?case by (simp add: RemoveVolume_loop.simps [of volID vs i])
qed

lemma RemoveVolume_loop_subset: "set (fst (RemoveVolume_loop volID vs i vol)) \<subseteq> set vs"
proof (induction volID vs i vol rule: RemoveVolume_loop.induct)
  case (1 volID vs i vol)
  have "set (take i vs @ drop (Suc i) vs) \<subseteq> set vs" by (auto dest: in_set_takeD in_set_dropD)
  then show ?case
    using 1 by (subst RemoveVolume_loop.simps) (simp split: if_split, blast)
qed

text \<open>
  Without duplicate IDs (what the callers keep, below) the loop deletes exactly the volume with
  the ID and returns it.
\<close>

lemma RemoveVolume_loop_found:
  assumes "pre @ v # post = vs" and "v_VolID v = volID"
    and "volID \<notin> v_VolID ` set pre" and "volID \<notin> v_VolID ` set post"
    and "i \<le> length pre"
  shows "RemoveVolume_loop volID vs i vol = (pre @ post, v)"
  using assms(5)
proof (induction "length pre - i" arbitrary: i)
  case 0
  with assms have i: "i = length pre" by simp
  have "volID \<notin> v_VolID ` set (drop (Suc (length pre)) (pre @ post))"
    using assms(4) by (auto dest: in_set_dropD)
  moreover have "vs ! length pre = v" "take (length pre) vs = pre" "drop (Suc (length pre)) vs = post"
    "length pre < length vs"
    using assms(1) by auto
  ultimately show ?case
    using assms(2) i by (simp add: RemoveVolume_loop.simps [of volID vs] RemoveVolume_loop_skip)
next
  case (Suc n)
  then have i: "i < length pre" by simp
  with assms(1) have "i < length vs" and "vs ! i = pre ! i" by (auto simp: nth_append)
  moreover have "v_VolID (pre ! i) \<noteq> volID" using assms(3) i by force
  ultimately show ?case using Suc i by (simp add: RemoveVolume_loop.simps [of volID vs i])
qed

lemma RemoveVolume_distinct:
  assumes "distinct (map v_VolID (ls_Volumes ls))"
  shows "RemoveVolume ls volID =
    (set_Volumes (filter (\<lambda>v. v_VolID v \<noteq> volID) (ls_Volumes ls)) ls,
     (case find (\<lambda>v. v_VolID v = volID) (ls_Volumes ls) of None \<Rightarrow> zero_Volume | Some v \<Rightarrow> v))"
proof (cases "volID \<in> v_VolID ` set (ls_Volumes ls)")
  case False
  then have "find (\<lambda>v. v_VolID v = volID) (ls_Volumes ls) = None"
    by (auto simp: find_None_iff)
  with False show ?thesis
    by (simp add: RemoveVolume_def GetVolumes_def SetVolume_def RemoveVolume_loop_skip)
next
  case True
  then obtain v where v: "v \<in> set (ls_Volumes ls)" "v_VolID v = volID" by auto
  then obtain pre post where vs: "ls_Volumes ls = pre @ v # post" by (auto simp: in_set_conv_decomp)
  with assms v have n: "volID \<notin> v_VolID ` set pre" "volID \<notin> v_VolID ` set post" by auto
  have "find (\<lambda>v. v_VolID v = volID) (ls_Volumes ls) = Some v"
    using filter_key_single [OF assms v(1)] v(2) by (simp add: find_Some_filter)
  moreover have "filter (\<lambda>v. v_VolID v \<noteq> volID) (ls_Volumes ls) = pre @ post"
    using vs n v(2) by simp
  ultimately show ?thesis
    using RemoveVolume_loop_found [OF vs [symmetric] v(2) n, of 0]
    by (simp add: RemoveVolume_def GetVolumes_def SetVolume_def)
qed

lemma RemoveVolume_object [simp]:
  "ls_Spec (fst (RemoveVolume ls volID)) = ls_Spec ls"
  "ls_Meta (fst (RemoveVolume ls volID)) = ls_Meta ls"
  "ls_Phase (fst (RemoveVolume ls volID)) = ls_Phase ls"
  "st_Allocatable (ls_Status (fst (RemoveVolume ls volID))) = st_Allocatable (ls_Status ls)"
  "st_Capacity (ls_Status (fst (RemoveVolume ls volID))) = st_Capacity (ls_Status ls)"
  by (simp_all add: RemoveVolume_def SetVolume_def Let_def)

lemma AddVolume_object [simp]:
  "ls_Spec (AddVolume ls v) = ls_Spec ls"
  "ls_Meta (AddVolume ls v) = ls_Meta ls"
  "ls_Phase (AddVolume ls v) = ls_Phase ls"
  "st_Allocatable (ls_Status (AddVolume ls v)) = st_Allocatable (ls_Status ls)"
  "st_Capacity (ls_Status (AddVolume ls v)) = st_Capacity (ls_Status ls)"
  by (simp_all add: AddVolume_def SetVolume_def)

lemma AddVolume_subset: "set (ls_Volumes (AddVolume ls v)) \<subseteq> insert v (set (ls_Volumes ls))"
  by (cases "v_VolID v \<in> v_VolID ` set (ls_Volumes ls)") (auto simp: AddVolume_old AddVolume_new)

lemma RemoveVolume_subset: "set (ls_Volumes (fst (RemoveVolume ls volID))) \<subseteq> set (ls_Volumes ls)"
  using RemoveVolume_loop_subset by (simp add: RemoveVolume_def Let_def SetVolume_def GetVolumes_def)

interpretation vols: keyed_collection
  "\<lambda>ls. distinct (map v_VolID (ls_Volumes ls))" "\<lambda>ls. map v_VolID (ls_Volumes ls)" v_VolID
  ContainsVolume AddVolume "\<lambda>ls volID. fst (RemoveVolume ls volID)"
proof unfold_locales
  fix ls :: "'q LocalStorage" and v :: Volume and volID :: string
  show "ContainsVolume ls volID \<longleftrightarrow> volID \<in> set (map v_VolID (ls_Volumes ls))"
    by (simp add: ContainsVolume_iff)
  show "ContainsVolume ls (v_VolID v) \<Longrightarrow> AddVolume ls v = ls"
    by (simp add: AddVolume_def)
  show "\<not> ContainsVolume ls (v_VolID v) \<Longrightarrow>
    map v_VolID (ls_Volumes (AddVolume ls v)) = map v_VolID (ls_Volumes ls) @ [v_VolID v]"
    by (simp add: ContainsVolume_iff AddVolume_new)
  assume d: "distinct (map v_VolID (ls_Volumes ls))"
  show "map v_VolID (ls_Volumes (fst (RemoveVolume ls volID)))
      = filter (\<lambda>j. j \<noteq> volID) (map v_VolID (ls_Volumes ls))"
    using d by (simp add: RemoveVolume_distinct filter_map o_def)
  show "distinct (map v_VolID (ls_Volumes (AddVolume ls v)))"
    using d by (cases "v_VolID v \<in> v_VolID ` set (ls_Volumes ls)")
      (simp_all add: AddVolume_old AddVolume_new)
  show "distinct (map v_VolID (ls_Volumes (fst (RemoveVolume ls volID))))"
    using d by (simp add: RemoveVolume_distinct distinct_map_filter_keep)
qed

section \<open>The finalizers\<close>

lemma ContainsFinalizer_loop_iff: "ContainsFinalizer_loop x es \<longleftrightarrow> x \<in> set es"
  by (induction es) auto

lemma ContainsFinalizer_iff: "ContainsFinalizer ls x \<longleftrightarrow> x \<in> set (GetFinalizers ls)"
  by (simp add: ContainsFinalizer_def ContainsFinalizer_loop_iff)

lemma RemoveFinalizer_loop_eq:
  "i \<le> length f \<Longrightarrow>
   RemoveFinalizer_loop x f i u = (take i f @ filter (\<lambda>e. e \<noteq> x) (drop i f), u \<or> x \<in> set (drop i f))"
proof (induction x f i u rule: RemoveFinalizer_loop.induct)
  case (1 x f i u)
  show ?case
  proof (cases "i < length f")
    case False
    with "1.prems" show ?thesis by (subst RemoveFinalizer_loop.simps) simp
  next
    case i: True
    then have d: "drop i f = f ! i # drop (Suc i) f" by (rule Cons_nth_drop_Suc [symmetric])
    show ?thesis
    proof (cases "f ! i = x")
      case True
      with "1.IH"(1) i d show ?thesis
        by (simp add: RemoveFinalizer_loop.simps [of x f i])
    next
      case False
      with "1.IH"(2) i d show ?thesis
        by (auto simp: RemoveFinalizer_loop.simps [of x f i] take_Suc_conv_app_nth)
    qed
  qed
qed

lemma RemoveFinalizer_eq:
  "RemoveFinalizer ls x =
     (ContainsFinalizer ls x, set_Finalizers (filter (\<lambda>e. e \<noteq> x) (GetFinalizers ls)) ls)"
  by (simp add: RemoveFinalizer_def RemoveFinalizer_loop_eq ContainsFinalizer_iff)

interpretation fins: keyed_collection
  "\<lambda>_. True" GetFinalizers "\<lambda>x. x"
  ContainsFinalizer "\<lambda>ls x. snd (AddFinalizer ls x)" "\<lambda>ls x. snd (RemoveFinalizer ls x)"
  by unfold_locales
    (auto simp: ContainsFinalizer_iff AddFinalizer_def ContainsFinalizer_loop_iff RemoveFinalizer_eq)

end
