(* ===== verification/LS_Services.thy ===== *)
theory LS_Services
  imports LS_Util
begin

text \<open>
  What the program calls outside the repository, as arguments of the definitions that call it,
  and the generated lister of \<^verbatim>\<open>pkg/client/listers\<close> on top of the informer's indexer. The
  state of everything outside (API server, informer cache, generator of UUIDs) is one abstract
  type \<open>'a\<close> that the calls read and advance.
\<close>

section \<open>Services outside the repository\<close>

text \<open>
  \<open>sv_ListAll\<close>: \<open>cache.ListAll\<close> with \<open>labels.Everything()\<close>, the objects in the order the
  indexer visits them; \<open>sv_GetByKey\<close>: \<open>Indexer.GetByKey\<close>; \<open>sv_Update\<close>, \<open>sv_Create\<close>,
  \<open>sv_List\<close>: the REST calls of the typed client; \<open>sv_NewUUID\<close>: \<open>uuid.New().String()\<close>;
  \<open>sv_IsNotFound\<close>: \<open>errors.IsNotFound\<close>.
\<close>

record ('q, 'a) services =
  sv_ListAll :: "'a \<Rightarrow> 'q LocalStorage list \<times> gerror option"
  sv_GetByKey :: "string \<Rightarrow> 'a \<Rightarrow> gerror + 'q LocalStorage option"
  sv_Update :: "'q LocalStorage \<Rightarrow> 'a \<Rightarrow> (gerror + 'q LocalStorage) \<times> 'a"
  sv_Create :: "'q LocalStorage \<Rightarrow> 'a \<Rightarrow> (gerror + 'q LocalStorage) \<times> 'a"
  sv_List :: "'a \<Rightarrow> gerror + 'q LocalStorage list"
  sv_NewUUID :: "'a \<Rightarrow> string \<times> 'a"
  sv_IsNotFound :: "gerror \<Rightarrow> bool"

text \<open>\<open>errors.IsNotFound\<close> recognises what \<open>errors.NewNotFound\<close> makes.\<close>

definition not_found_law :: "('q, 'a) services \<Rightarrow> bool" where
  "not_found_law S \<longleftrightarrow> (\<forall>r n. sv_IsNotFound S (NotFoundError r n))"

section \<open>The generated lister\<close>

definition lister_List :: "('q, 'a) services \<Rightarrow> 'a \<Rightarrow> 'q LocalStorage list \<times> gerror option" where
  "lister_List S a =
     (let r = sv_ListAll S a
      in (fold (\<lambda>m ret. ret @ [m]) (fst r) [], snd r))"

definition lister_Get :: "('q, 'a) services \<Rightarrow> string \<Rightarrow> 'a \<Rightarrow> gerror + 'q LocalStorage" where
  "lister_Get S name a =
     (case sv_GetByKey S name a of
        Inl err \<Rightarrow> Inl err
      | Inr None \<Rightarrow> Inl (NotFoundError ''localstorage'' name)
      | Inr (Some obj) \<Rightarrow> Inr obj)"

lemma fold_snoc: "fold (\<lambda>m ret. ret @ [m]) ms acc = acc @ ms"
  by (induction ms arbitrary: acc) auto

lemma lister_List_eq [simp]: "lister_List S a = sv_ListAll S a"
  by (simp add: lister_List_def fold_snoc Let_def)

lemma lister_Get_Inr: "lister_Get S name a = Inr obj \<longleftrightarrow> sv_GetByKey S name a = Inr (Some obj)"
  by (auto simp: lister_Get_def split: sum.splits option.splits)

text \<open>The error of a missing object is one the callers recognise.\<close>

lemma lister_Get_missing:
  "not_found_law S \<Longrightarrow> sv_GetByKey S name a = Inr None \<Longrightarrow>
   \<exists>e. lister_Get S name a = Inl e \<and> sv_IsNotFound S e"
  by (simp add: lister_Get_def not_found_law_def)

section \<open>The API server's update contract\<close>

text \<open>
  What Kubernetes documents about updates, for the objects in the server's store \<open>stored\<close>: an
  update is applied only when the submitted object carries the resource version of the stored
  one; it then stores the submitted specification and status (under the submitted name, with a
  new version and whatever metadata admission adds). An update that reports an error may still
  have been applied (a lost reply), or it changes nothing. No other object changes.
\<close>

definition applied :: "'q LocalStorage \<Rightarrow> 'q LocalStorage \<Rightarrow> bool" where
  "applied obj obj' \<longleftrightarrow>
     ls_Spec obj' = ls_Spec obj \<and> ls_Status obj' = ls_Status obj \<and> ls_Name obj' = ls_Name obj"

definition update_contract ::
    "('q, 'a) services \<Rightarrow> ('a \<Rightarrow> string \<rightharpoonup> 'q LocalStorage) \<Rightarrow> bool" where
  "update_contract S stored \<longleftrightarrow>
     (\<forall>obj a r a'. sv_Update S obj a = (r, a') \<longrightarrow>
        (\<forall>n. n \<noteq> ls_Name obj \<longrightarrow> stored a' n = stored a n) \<and>
        ((\<exists>cur obj'. stored a (ls_Name obj) = Some cur \<and> ls_Version cur = ls_Version obj \<and>
            stored a' (ls_Name obj) = Some obj' \<and> applied obj obj') \<or>
         ((\<exists>e. r = Inl e) \<and> stored a' (ls_Name obj) = stored a (ls_Name obj))))"

text \<open>
  A creation stores the submitted specification under a name that was free (an error may still
  mean that), and a listing shows what is stored.
\<close>

definition create_contract ::
    "('q, 'a) services \<Rightarrow> ('a \<Rightarrow> string \<rightharpoonup> 'q LocalStorage) \<Rightarrow> bool" where
  "create_contract S stored \<longleftrightarrow>
     (\<forall>obj a r a'. sv_Create S obj a = (r, a') \<longrightarrow>
        (\<exists>obj'. stored a (ls_Name obj) = None \<and> stored a' = (stored a)(ls_Name obj \<mapsto> obj') \<and>
           ls_Spec obj' = ls_Spec obj) \<or>
        ((\<exists>e. r = Inl e) \<and> stored a' = stored a)) \<and>
     (\<forall>a items. sv_List S a = Inr items \<longrightarrow> set items = ran (stored a))"

text \<open>
  What the informer cache promises: the objects it lists were stored under their name, and one
  that carries the current resource version is the current object (a version names a content).
\<close>

definition cache_contract ::
    "('q, 'a) services \<Rightarrow> ('a \<Rightarrow> string \<rightharpoonup> 'q LocalStorage) \<Rightarrow> bool" where
  "cache_contract S stored \<longleftrightarrow>
     (\<forall>a c cur. c \<in> set (fst (sv_ListAll S a)) \<or> (\<exists>k. sv_GetByKey S k a = Inr (Some c)) \<longrightarrow>
        stored a (ls_Name c) = Some cur \<longrightarrow> ls_Version c = ls_Version cur \<longrightarrow> c = cur)"

text \<open>The generator of IDs touches neither the server's store nor the cache.\<close>

definition uuid_contract :: "('q, 'a) services \<Rightarrow> ('a \<Rightarrow> string \<rightharpoonup> 'q LocalStorage) \<Rightarrow> bool" where
  "uuid_contract S stored \<longleftrightarrow> (\<forall>a. stored (snd (sv_NewUUID S a)) = stored a)"

lemma update_cases:
  assumes "update_contract S stored" and "sv_Update S obj a = (r, a')"
  obtains (stored) cur obj' where "stored a (ls_Name obj) = Some cur"
      "ls_Version cur = ls_Version obj" "stored a' (ls_Name obj) = Some obj'" "applied obj obj'"
      "\<And>n. n \<noteq> ls_Name obj \<Longrightarrow> stored a' n = stored a n"
  | (unchanged) e where "r = Inl e" "stored a' = stored a"
proof -
  have *: "(\<forall>n. n \<noteq> ls_Name obj \<longrightarrow> stored a' n = stored a n) \<and>
        ((\<exists>cur obj'. stored a (ls_Name obj) = Some cur \<and> ls_Version cur = ls_Version obj \<and>
            stored a' (ls_Name obj) = Some obj' \<and> applied obj obj') \<or>
         ((\<exists>e. r = Inl e) \<and> stored a' (ls_Name obj) = stored a (ls_Name obj)))"
    using assms unfolding update_contract_def by blast
  then consider (s) "\<exists>cur obj'. stored a (ls_Name obj) = Some cur \<and> ls_Version cur = ls_Version obj \<and>
            stored a' (ls_Name obj) = Some obj' \<and> applied obj obj'"
    | (u) "\<exists>e. r = Inl e" "stored a' (ls_Name obj) = stored a (ls_Name obj)"
    by blast
  then show thesis
  proof cases
    case s
    with * that(1) show ?thesis by blast
  next
    case u
    with * have "stored a' n = stored a n" for n by (cases "n = ls_Name obj") auto
    then have "stored a' = stored a" ..
    with u that(2) show ?thesis by blast
  qed
qed

text \<open>
  One property of the stored object is kept by an update when it holds of what was submitted:
  the form in which the handlers use the contract.
\<close>

lemma update_preserves:
  assumes "update_contract S stored" and "sv_Update S obj a = (r, a')"
    and "\<And>cur. stored a n = Some cur \<Longrightarrow> P cur"
    and "\<And>cur obj'. stored a (ls_Name obj) = Some cur \<Longrightarrow> ls_Version cur = ls_Version obj \<Longrightarrow>
           P cur \<Longrightarrow> n = ls_Name obj \<Longrightarrow> applied obj obj' \<Longrightarrow> P obj'"
    and "stored a' n = Some x"
  shows "P x"
  using assms(1,2)
proof (cases rule: update_cases)
  case (stored cur obj')
  show ?thesis
  proof (cases "n = ls_Name obj")
    case True
    with stored assms(3-5) show ?thesis by auto
  next
    case False
    with stored assms(3,5) show ?thesis by auto
  qed
next
  case (unchanged e)
  with assms(3,5) show ?thesis by simp
qed

end
