(* ===== verification/LS_StorageUtil.thy ===== *)
theory LS_StorageUtil
  imports LS_Services
begin

text \<open>
  \<^verbatim>\<open>pkg/util/storage/storage.go\<close> without the pod lookup (that is in \<open>LS_Pvc\<close>): finding the
  localstorage of a node, the batch creation the job runs, the node annotations, updates through
  the client and the volume directories. The directories are an instance of the \<open>dir_store\<close>
  contract the CSI handlers rely on.
\<close>

section \<open>Finding the localstorage of a node\<close>

fun first_on_node :: "string \<Rightarrow> 'q LocalStorage list \<Rightarrow> 'q LocalStorage option" where
  "first_on_node nodeName [] = None"
| "first_on_node nodeName (ret # rets) =
     (if ls_Node ret = nodeName then Some ret else first_on_node nodeName rets)"

definition GetLocalStorageByNode ::
    "('q, 'a) services \<Rightarrow> string \<Rightarrow> 'a \<Rightarrow> gerror + 'q LocalStorage" where
  "GetLocalStorageByNode S nodeName a =
     (case lister_List S a of
        (rets, Some err) \<Rightarrow> Inl err
      | (rets, None) \<Rightarrow>
          (case first_on_node nodeName rets of
             None \<Rightarrow> Inl (FmtError (''failed to found localstorage with node '' @ nodeName))
           | Some target \<Rightarrow> Inr target))"

definition GetLocalStorageMap ::
    "('q, 'a) services \<Rightarrow> 'a \<Rightarrow> gerror + (string \<rightharpoonup> 'q LocalStorage)" where
  "GetLocalStorageMap S a =
     (case lister_List S a of
        (ret, Some err) \<Rightarrow> Inl err
      | (ret, None) \<Rightarrow> Inr (fold (\<lambda>ls lsMap. lsMap(ls_Node ls \<mapsto> ls)) ret Map.empty))"

section \<open>Creating the localstorages of a list of nodes\<close>

definition new_LocalStorage :: "string \<Rightarrow> 'q LocalStorage" where
  "new_LocalStorage nodeName =
     \<lparr>ls_Kind = [], ls_APIVersion = [],
      ls_Meta = \<lparr>om_Name = ''ls-'' @ nodeName, om_ResourceVersion = [], om_Annotations = Map.empty,
                 om_Finalizers = [], om_DeletionTimestamp = None\<rparr>,
      ls_Spec = \<lparr>sp_Node = nodeName, sp_Path = Some \<lparr>ps_VolumeDir = ''/data''\<rparr>, sp_Lvm = None\<rparr>,
      ls_Status = \<lparr>st_Phase = [], st_Allocatable = None, st_Capacity = None, st_Volumes = [],
                   st_Mode = [], st_Conditions = []\<rparr>\<rparr>"

fun CreateLocalStorages_loop ::
    "('q, 'a) services \<Rightarrow> string set \<Rightarrow> string list \<Rightarrow> 'a \<Rightarrow> gerror option \<times> 'a" where
  "CreateLocalStorages_loop S lsNodeNames [] a = (None, a)"
| "CreateLocalStorages_loop S lsNodeNames (nodeName # rest) a =
     (if nodeName \<in> lsNodeNames then CreateLocalStorages_loop S lsNodeNames rest a
      else case sv_Create S (new_LocalStorage nodeName) a of
        (Inl err, a') \<Rightarrow> (Some err, a')
      | (Inr _, a') \<Rightarrow> CreateLocalStorages_loop S lsNodeNames rest a')"

definition CreateLocalStorages ::
    "('q, 'a) services \<Rightarrow> string list \<Rightarrow> 'a \<Rightarrow> gerror option \<times> 'a" where
  "CreateLocalStorages S nodeNames a =
     (if nodeNames = [] then (None, a)
      else case sv_List S a of
        Inl err \<Rightarrow> (Some err, a)
      | Inr items \<Rightarrow>
          CreateLocalStorages_loop S
            (fold (\<lambda>ls names. insert (ls_Node ls) names) items {}) nodeNames a)"

section \<open>Node annotations\<close>

text \<open>A node keeps the difference between no annotation map and an empty one.\<close>

record node =
  nd_Name :: string
  nd_Annotations :: "(string \<rightharpoonup> string) option"

definition AnnotationKeyNodeID :: string where
  "AnnotationKeyNodeID = ''csi.volume.caoyingjunz.io/nodeid''"

definition IsNodeIDInNode :: "node \<Rightarrow> bool" where
  "IsNodeIDInNode n =
     (case nd_Annotations n of None \<Rightarrow> False | Some m \<Rightarrow> m AnnotationKeyNodeID \<noteq> None)"

definition UpdateNodeIDInNode :: "node \<Rightarrow> string \<Rightarrow> node" where
  "UpdateNodeIDInNode n csiDriverNodeID =
     (let n1 = (case nd_Annotations n of None \<Rightarrow> n\<lparr>nd_Annotations := Some Map.empty\<rparr> | Some _ \<Rightarrow> n)
      in if \<not> IsNodeIDInNode n1 then n1
         else n1\<lparr>nd_Annotations :=
                map_option (\<lambda>m. m(AnnotationKeyNodeID \<mapsto> csiDriverNodeID)) (nd_Annotations n1)\<rparr>)"

definition GetNameFromNode :: "node \<Rightarrow> string" where
  "GetNameFromNode n =
     (case nd_Annotations n of
        None \<Rightarrow> []
      | Some m \<Rightarrow> (case m AnnotationKeyNodeID of None \<Rightarrow> [] | Some v \<Rightarrow> v))"

section \<open>Updates\<close>

definition TryUpdateLocalStorage ::
    "('q, 'a) services \<Rightarrow> 'q LocalStorage \<Rightarrow> 'a \<Rightarrow> gerror option \<times> 'a" where
  "TryUpdateLocalStorage S ls a =
     (case sv_Update S ls a of (Inl err, a') \<Rightarrow> (Some err, a') | (Inr _, a') \<Rightarrow> (None, a'))"

definition UpdateLocalStoragePhase ::
    "('q, 'a) services \<Rightarrow> 'q LocalStorage \<Rightarrow> LocalStoragePhase \<Rightarrow> 'a \<Rightarrow> gerror option \<times> 'a" where
  "UpdateLocalStoragePhase S ls phase a = TryUpdateLocalStorage S (set_Phase phase ls) a"

definition GetVolumeDirFromLocalStorage :: "'q LocalStorage \<Rightarrow> gerror + string" where
  "GetVolumeDirFromLocalStorage ls =
     (case sp_Path (ls_Spec ls) of
        Some p \<Rightarrow> Inr (ps_VolumeDir p)
      | None \<Rightarrow> Inl (FmtError ''spec.path is nil''))"

section \<open>Volume directories\<close>

definition CreateVolumeDir :: "string \<Rightarrow> fs \<Rightarrow> gerror option \<times> fs" where
  "CreateVolumeDir path f =
     (case os_MkdirAll path ModePerm f of
        (Some err, f1) \<Rightarrow> (Some err, f1)
      | (None, f1) \<Rightarrow>
          (case os_Chmod path ModePerm f1 of
             (Some err, f2) \<Rightarrow> (Some err, f2)
           | (None, f2) \<Rightarrow> (None, f2)))"

definition DeleteVolumeDir :: "string \<Rightarrow> fs \<Rightarrow> gerror option \<times> fs" where
  "DeleteVolumeDir path f =
     (case os_RemoveAll path f of
        (Some err, f1) \<Rightarrow> if \<not> IsNotExist err then (Some err, f1) else (None, f1)
      | (None, f1) \<Rightarrow> (None, f1))"

text \<open>
  The contract of a store of directories addressed by paths: creating makes the directory exist
  and removes nothing, deleting removes the subtree of the path and nothing else, and neither
  moves where paths lead.
\<close>

locale dir_store =
  fixes create :: "string \<Rightarrow> fs \<Rightarrow> gerror option \<times> fs"
    and delete :: "string \<Rightarrow> fs \<Rightarrow> gerror option \<times> fs"
    and present :: "fs \<Rightarrow> position \<Rightarrow> bool"
  assumes create_ok: "create p f = (None, g) \<Longrightarrow> present g (pos_of f p)"
    and create_env: "create p f = (r, g) \<Longrightarrow> same_env f g"
    and create_keeps: "create p f = (r, g) \<Longrightarrow> present f q \<Longrightarrow> present g q"
    and create_only: "create p f = (r, g) \<Longrightarrow> present g q \<Longrightarrow> \<not> prefix q (pos_of f p) \<Longrightarrow> present f q"
    and delete_ok: "delete p f = (None, g) \<Longrightarrow> p \<noteq> [] \<Longrightarrow> pos_of f p \<noteq> [] \<Longrightarrow>
        prefix (pos_of f p) q \<Longrightarrow> \<not> present g q"
    and delete_env: "delete p f = (r, g) \<Longrightarrow> same_env f g"
    and delete_keeps: "delete p f = (r, g) \<Longrightarrow> \<not> prefix (pos_of f p) q \<Longrightarrow> present g q = present f q"
    and delete_shrinks: "delete p f = (r, g) \<Longrightarrow> present g q \<Longrightarrow> present f q"
begin

text \<open>Two different names below one base do not meet: deleting one keeps the other.\<close>

lemma sibling_survives:
  assumes "delete (Join base v) f = (r, g)" and "plain_name v" and "plain_name w" and "v \<noteq> w"
    and "present f (pos_of f (Join base w))"
  shows "present g (pos_of g (Join base w))"
proof -
  have "pos_of g (Join base w) = pos_of f (Join base w)"
    using delete_env [OF assms(1)] by (rule same_env_pos)
  moreover have "\<not> prefix (pos_of f (Join base v)) (pos_of f (Join base w))"
    using assms(2-4) by (simp add: pos_of_def resolve_below)
  ultimately show ?thesis
    using delete_keeps [OF assms(1)] assms(5) by simp
qed

lemma create_then_delete:
  assumes "create (Join base v) f = (None, g)" and "delete (Join base v) g = (r, h)"
    and "plain_name v" and "\<not> prefix q (pos_of f (Join base v))"
    and "\<not> prefix (pos_of f (Join base v)) q"
  shows "present h q \<longleftrightarrow> present f q"
proof -
  have "pos_of g (Join base v) = pos_of f (Join base v)"
    using create_env [OF assms(1)] by (rule same_env_pos)
  then show ?thesis
    using assms delete_keeps create_keeps create_only by metis
qed

end

definition exists_at :: "fs \<Rightarrow> position \<Rightarrow> bool" where
  "exists_at f q \<longleftrightarrow> fs_find f q \<noteq> None"

text \<open>File trees are ordered by what exists in them: a larger one has every file of a smaller one,
  in the same environment.\<close>

instantiation fs_ext :: (type) preorder
begin

definition less_eq_fs_ext :: "'a fs_scheme \<Rightarrow> 'a fs_scheme \<Rightarrow> bool" where
  "less_eq_fs_ext f g \<longleftrightarrow> same_env (fs.truncate f) (fs.truncate g) \<and>
     (\<forall>q. exists_at (fs.truncate f) q \<longrightarrow> exists_at (fs.truncate g) q)"

definition less_fs_ext :: "'a fs_scheme \<Rightarrow> 'a fs_scheme \<Rightarrow> bool" where
  "less_fs_ext f g \<longleftrightarrow> f \<le> g \<and> \<not> g \<le> f"

instance
  by standard (auto simp: less_eq_fs_ext_def less_fs_ext_def intro: same_env_trans)

end

lemma fs_truncate [simp]: "fs.truncate f = f"
  for f :: fs
  by (cases f) (simp add: fs.truncate_def)

lemma fs_le_iff: "f \<le> g \<longleftrightarrow> same_env f g \<and> (\<forall>q. exists_at f q \<longrightarrow> exists_at g q)"
  for f g :: fs
  by (simp add: less_eq_fs_ext_def)

lemma fs_leI: "same_env f g \<Longrightarrow> (\<And>q. exists_at f q \<Longrightarrow> exists_at g q) \<Longrightarrow> f \<le> g"
  for f g :: fs
  by (simp add: fs_le_iff)

lemma CreateVolumeDir_cases:
  assumes "CreateVolumeDir p f = (r, g)"
  obtains (mkdir) f1 r1 where "os_MkdirAll p ModePerm f = (r1, f1)" "r1 \<noteq> None" "r = r1" "g = f1"
  | (chmod) f1 where "os_MkdirAll p ModePerm f = (None, f1)" "os_Chmod p ModePerm f1 = (r, g)"
  using assms by (auto simp: CreateVolumeDir_def split: prod.splits option.splits)

text \<open>Whatever the umask, the directory ends with the full permission bits.\<close>

lemma CreateVolumeDir_mode:
  assumes "CreateVolumeDir p f = (None, g)" and "pos_of f p \<noteq> []"
  shows "fs_find g (pos_of f p) = Some (Dir ModePerm)"
  using assms(1)
proof (cases rule: CreateVolumeDir_cases)
  case (chmod f1)
  have "pos_of f1 p = pos_of f p"
    using os_MkdirAll_frame(1) [OF chmod(1)] by (rule same_env_pos)
  then show ?thesis
    using os_Chmod_ok [OF chmod(2)] os_MkdirAll_ok [OF chmod(1)] assms(2) by simp
qed simp

lemma CreateVolumeDir_env: "CreateVolumeDir p f = (r, g) \<Longrightarrow> same_env f g"
  by (elim CreateVolumeDir_cases)
    (auto dest: os_MkdirAll_frame(1) os_Chmod_frame(1) intro: same_env_trans)

lemma CreateVolumeDir_find:
  assumes "CreateVolumeDir p f = (r, g)"
  shows "exists_at f q \<Longrightarrow> exists_at g q"
    and "exists_at g q \<Longrightarrow> \<not> prefix q (pos_of f p) \<Longrightarrow> exists_at f q"
    and "\<not> prefix q (pos_of f p) \<Longrightarrow> fs_find g q = fs_find f q"
proof -
  obtain f1 r1 where m: "os_MkdirAll p ModePerm f = (r1, f1)"
      and g: "g = f1 \<or> (\<exists>r2. os_Chmod p ModePerm f1 = (r2, g))"
    using assms by (cases rule: CreateVolumeDir_cases) auto
  have p: "pos_of f1 p = pos_of f p"
    using os_MkdirAll_frame(1) [OF m] by (rule same_env_pos)
  from g have n: "fs_find g q = None \<longleftrightarrow> fs_find f1 q = None"
    by (auto simp: os_Chmod_frame(4))
  show "exists_at f q \<Longrightarrow> exists_at g q"
    using n os_MkdirAll_frame(2) [OF m] by (auto simp: exists_at_def)
  show "\<not> prefix q (pos_of f p) \<Longrightarrow> fs_find g q = fs_find f q"
    using g p os_MkdirAll_frame(3) [OF m, of q] os_Chmod_frame(3) by fastforce
  then show "exists_at g q \<Longrightarrow> \<not> prefix q (pos_of f p) \<Longrightarrow> exists_at f q"
    by (simp add: exists_at_def)
qed

lemma CreateVolumeDir_ok: "CreateVolumeDir p f = (None, g) \<Longrightarrow> exists_at g (pos_of f p)"
  using CreateVolumeDir_mode [of p f g] by (cases "pos_of f p = []") (auto simp: exists_at_def fs_find_def)

lemma DeleteVolumeDir_RemoveAll: "DeleteVolumeDir p f = os_RemoveAll p f"
proof (cases "os_RemoveAll p f")
  case (Pair r g)
  have "\<not> IsNotExist e" if "r = Some e" for e
    using Pair that remove_error_exists
    by (auto simp: os_RemoveAll_def below_file_def IsNotExist_def split: if_splits)
  then show ?thesis using Pair by (auto simp: DeleteVolumeDir_def split: option.splits)
qed

interpretation dirs: dir_store CreateVolumeDir DeleteVolumeDir exists_at
proof unfold_locales
  fix p f g q and r :: "gerror option"
  show "CreateVolumeDir p f = (None, g) \<Longrightarrow> exists_at g (pos_of f p)"
    by (rule CreateVolumeDir_ok)
  show "CreateVolumeDir p f = (r, g) \<Longrightarrow> same_env f g"
    by (rule CreateVolumeDir_env)
  show "CreateVolumeDir p f = (r, g) \<Longrightarrow> exists_at f q \<Longrightarrow> exists_at g q"
    by (rule CreateVolumeDir_find(1))
  show "CreateVolumeDir p f = (r, g) \<Longrightarrow> exists_at g q \<Longrightarrow> \<not> prefix q (pos_of f p) \<Longrightarrow> exists_at f q"
    by (rule CreateVolumeDir_find(2))
  show "DeleteVolumeDir p f = (None, g) \<Longrightarrow> p \<noteq> [] \<Longrightarrow> pos_of f p \<noteq> [] \<Longrightarrow>
      prefix (pos_of f p) q \<Longrightarrow> \<not> exists_at g q"
    using os_RemoveAll_ok [of p f g q]
    by (cases "q = []") (simp_all add: DeleteVolumeDir_RemoveAll exists_at_def)
  show "DeleteVolumeDir p f = (r, g) \<Longrightarrow> same_env f g"
    using os_RemoveAll_frame(1) by (simp add: DeleteVolumeDir_RemoveAll)
  show "DeleteVolumeDir p f = (r, g) \<Longrightarrow> \<not> prefix (pos_of f p) q \<Longrightarrow> exists_at g q = exists_at f q"
    using os_RemoveAll_frame(2) by (simp add: DeleteVolumeDir_RemoveAll exists_at_def)
  show "DeleteVolumeDir p f = (r, g) \<Longrightarrow> exists_at g q \<Longrightarrow> exists_at f q"
    using os_RemoveAll_frame(3) [of p f r g q]
    by (cases "fs_find f q") (simp_all add: DeleteVolumeDir_RemoveAll exists_at_def)
qed

section \<open>Lookup\<close>

lemma first_on_node_find: "first_on_node n rets = find (\<lambda>r. ls_Node r = n) rets"
  by (induction rets) auto

lemma GetLocalStorageByNode_Inr:
  assumes "GetLocalStorageByNode S n a = Inr t"
  shows "t \<in> set (fst (sv_ListAll S a))" and "ls_Node t = n"
proof -
  obtain rets where "sv_ListAll S a = (rets, None)" and "find (\<lambda>r. ls_Node r = n) rets = Some t"
    using assms
    by (auto simp: GetLocalStorageByNode_def first_on_node_find split: prod.splits option.splits)
  then show "t \<in> set (fst (sv_ListAll S a))" and "ls_Node t = n"
    by (auto dest: find_SomeD)
qed

definition node_map :: "'q LocalStorage list \<Rightarrow> (string \<rightharpoonup> 'q LocalStorage)" where
  "node_map ret = fold (\<lambda>ls lsMap. lsMap(ls_Node ls \<mapsto> ls)) ret Map.empty"

lemma node_map_fold:
  "fold (\<lambda>ls m. m(ls_Node ls \<mapsto> ls)) ret m k =
     (case find (\<lambda>r. ls_Node r = k) (rev ret) of Some l \<Rightarrow> Some l | None \<Rightarrow> m k)"
proof (induction ret arbitrary: m)
  case Nil
  then show ?case by simp
next
  case (Cons r ret)
  have f: "find P (xs @ [x]) = (case find P xs of Some y \<Rightarrow> Some y | None \<Rightarrow> if P x then Some x else None)"
    for P :: "'c \<Rightarrow> bool" and xs x
    by (induction xs) auto
  show ?case using Cons by (auto simp: f split: option.splits)
qed

text \<open>The map holds, for each node, the last object of the list that is bound to it.\<close>

lemma node_map_last: "node_map ret k = find (\<lambda>r. ls_Node r = k) (rev ret)"
  by (simp add: node_map_def node_map_fold split: option.split)

lemma node_map_distinct:
  assumes "distinct (map ls_Node ret)"
  shows "node_map ret k = find (\<lambda>r. ls_Node r = k) ret"
proof (cases "find (\<lambda>r. ls_Node r = k) ret")
  case None
  then have "find (\<lambda>r. ls_Node r = k) (rev ret) = None" by (simp add: find_None_iff)
  with None show ?thesis by (simp add: node_map_last)
next
  case (Some l)
  then have l: "l \<in> set ret" "ls_Node l = k" by (auto dest: find_SomeD)
  have "distinct (map ls_Node (rev ret))" using assms by (simp add: rev_map [symmetric])
  then have "filter (\<lambda>r. ls_Node r = ls_Node l) (rev ret) = [l]"
    by (rule filter_key_single) (simp add: l)
  then have "find (\<lambda>r. ls_Node r = k) (rev ret) = Some l"
    using l(2) by (simp add: find_Some_filter)
  with Some show ?thesis by (simp add: node_map_last)
qed

lemma GetLocalStorageMap_eq:
  "GetLocalStorageMap S a =
     (case sv_ListAll S a of (ret, Some err) \<Rightarrow> Inl err | (ret, None) \<Rightarrow> Inr (node_map ret))"
  by (auto simp: GetLocalStorageMap_def node_map_def split: prod.splits option.splits)

section \<open>Node identifiers\<close>

lemma UpdateNodeIDInNode_present:
  "IsNodeIDInNode n \<Longrightarrow> GetNameFromNode (UpdateNodeIDInNode n i) = i"
  by (auto simp: UpdateNodeIDInNode_def IsNodeIDInNode_def GetNameFromNode_def split: option.splits)

lemma UpdateNodeIDInNode_absent:
  "\<not> IsNodeIDInNode n \<Longrightarrow> \<not> IsNodeIDInNode (UpdateNodeIDInNode n i)"
  by (auto simp: UpdateNodeIDInNode_def IsNodeIDInNode_def split: option.splits)

end
