(* ===== verification/LS_Csi.thy ===== *)
theory LS_Csi
  imports LS_StorageUtil
begin

text \<open>
  The CSI services of the node plugin: \<^verbatim>\<open>pkg/localstorage/controllerserver.go\<close>,
  \<^verbatim>\<open>nodeserver.go\<close>, \<^verbatim>\<open>identityserver.go\<close> and the volume paths of \<^verbatim>\<open>utils.go\<close>. A handler is a
  function of its request and of the world (the node's file tree and everything behind the
  services); each runs under the driver's mutex, so a handler is one step of the plugin.
  Nothing about the volumes is kept in the process: the list of volumes and the allocatable
  quantity live in the localstorage object, which the handler reads from the informer cache and
  writes back with an update.
\<close>

section \<open>State and requests\<close>

record Config =
  cf_DriverName :: string
  cf_Endpoint :: string
  cf_VendorVersion :: string
  cf_NodeId :: string
  cf_VolumeDir :: string

record 'a world =
  w_fs :: fs
  w_sv :: 'a

text \<open>
  The fields of the CSI requests the handlers read. \<open>cv_RequiredBytes\<close> is
  \<open>GetCapacityRange().GetRequiredBytes()\<close>, whose getters return 0 on a nil message;
  capabilities and the content source are passed on or tested for nil, never inspected.
\<close>

record CreateVolumeRequest =
  cv_Name :: string
  cv_Capabilities :: "string list option"
  cv_RequiredBytes :: int64
  cv_Parameters :: "(string \<rightharpoonup> string) option"
  cv_ContentSource :: "string option"

record CsiVolume =
  cs_VolumeId :: string
  cs_CapacityBytes :: int64
  cs_VolumeContext :: "string \<rightharpoonup> string"
  cs_ContentSource :: "string option"
  cs_AccessibleTopology :: "string list"

section \<open>pkg/localstorage/utils.go: paths\<close>

definition parseVolumePath :: "string \<Rightarrow> string \<Rightarrow> string" where
  "parseVolumePath baseDir volID = Join baseDir volID"

section \<open>pkg/localstorage/controllerserver.go\<close>

type_synonym Operation = string

definition AddOperation :: Operation where "AddOperation = ''add''"
definition SubOperation :: Operation where "SubOperation = ''sub''"

text \<open>\<open>Quantity.Add\<close> and \<open>Quantity.Sub\<close> have pointer receivers: on a nil quantity they panic.\<close>

definition calculateAllocatedSize ::
    "'q quantity_ops \<Rightarrow> 'q option \<Rightarrow> int64 \<Rightarrow> Operation \<Rightarrow> 'q option outcome" where
  "calculateAllocatedSize Q allocatableSize volSize op =
     (let volSizeCap = BytesToQuantity Q volSize in
      if op = AddOperation then
        (case allocatableSize of None \<Rightarrow> Panic | Some q \<Rightarrow> Ret (Some (q_Add Q q volSizeCap)))
      else if op = SubOperation then
        (case allocatableSize of None \<Rightarrow> Panic | Some q \<Rightarrow> Ret (Some (q_Sub Q q volSizeCap)))
      else Ret allocatableSize)"

definition CreateVolume ::
    "'q quantity_ops \<Rightarrow> ('q, 'a) services \<Rightarrow> Config \<Rightarrow> CreateVolumeRequest \<Rightarrow> 'a world \<Rightarrow>
     CsiVolume outcome \<times> 'a world" where
  "CreateVolume Q S cfg req w =
     (if cv_Name req = [] then
        (Err (StatusError InvalidArgument ''CreateVolume name must be provided''), w)
      else if cv_Capabilities req = None then
        (Err (StatusError InvalidArgument ''Volume Capabilities missing in request''), w)
      else case GetLocalStorageByNode S (cf_NodeId cfg) (w_sv w) of
        Inl err \<Rightarrow> (Err err, w)
      | Inr s \<Rightarrow>
          (case sv_NewUUID S (w_sv w) of
             (volumeID, a1) \<Rightarrow>
               (let volPath = parseVolumePath (cf_VolumeDir cfg) volumeID in
                case CreateVolumeDir volPath (w_fs w) of
                  (Some err, f1) \<Rightarrow> (Err err, \<lparr>w_fs = f1, w_sv = a1\<rparr>)
                | (None, f1) \<Rightarrow>
                    (let volSize = cv_RequiredBytes req;
                         s1 = AddVolume s
                                (zero_Volume\<lparr>v_VolID := volumeID, v_VolName := cv_Name req,
                                             v_VolPath := volPath, v_VolSize := volSize\<rparr>)
                     in case calculateAllocatedSize Q (st_Allocatable (ls_Status s1)) volSize
                               SubOperation of
                          Ret alloc \<Rightarrow>
                            (case sv_Update S (set_Allocatable alloc s1) a1 of
                               (Inl err, a2) \<Rightarrow> (Err err, \<lparr>w_fs = f1, w_sv = a2\<rparr>)
                             | (Inr _, a2) \<Rightarrow>
                                 (let params = (case cv_Parameters req of
                                                  None \<Rightarrow> Map.empty | Some m \<Rightarrow> m) in
                                  (Ret \<lparr>cs_VolumeId = volumeID, cs_CapacityBytes = volSize,
                                        cs_VolumeContext = params(''localPath.caoyingjunz.io'' \<mapsto> volPath),
                                        cs_ContentSource = cv_ContentSource req,
                                        cs_AccessibleTopology = []\<rparr>,
                                   \<lparr>w_fs = f1, w_sv = a2\<rparr>)))
                        | Err err \<Rightarrow> (Err err, \<lparr>w_fs = f1, w_sv = a1\<rparr>)
                        | Panic \<Rightarrow> (Panic, \<lparr>w_fs = f1, w_sv = a1\<rparr>)))))"

definition DeleteVolume ::
    "'q quantity_ops \<Rightarrow> ('q, 'a) services \<Rightarrow> Config \<Rightarrow> string \<Rightarrow> 'a world \<Rightarrow>
     unit outcome \<times> 'a world" where
  "DeleteVolume Q S cfg volId w =
     (if volId = [] then
        (Err (StatusError InvalidArgument ''Volume ID missing in request''), w)
      else case GetLocalStorageByNode S (cf_NodeId cfg) (w_sv w) of
        Inl err \<Rightarrow> (Err err, w)
      | Inr s \<Rightarrow>
          (let r = RemoveVolume s volId; s1 = fst r; vol = snd r
           in case calculateAllocatedSize Q (st_Allocatable (ls_Status s1)) (v_VolSize vol)
                     AddOperation of
                Ret alloc \<Rightarrow>
                  (case sv_Update S (set_Allocatable alloc s1) (w_sv w) of
                     (Inl err, a1) \<Rightarrow> (Err err, w\<lparr>w_sv := a1\<rparr>)
                   | (Inr _, a1) \<Rightarrow>
                       (case DeleteVolumeDir (parseVolumePath (cf_VolumeDir cfg) volId) (w_fs w) of
                          (Some err, f1) \<Rightarrow> (Err err, \<lparr>w_fs = f1, w_sv = a1\<rparr>)
                        | (None, f1) \<Rightarrow> (Ret (), \<lparr>w_fs = f1, w_sv = a1\<rparr>)))
              | Err err \<Rightarrow> (Err err, w)
              | Panic \<Rightarrow> (Panic, w)))"

text \<open>
  The remaining calls of the three services return constants. \<open>NilReply\<close> is a nil response
  with a nil error; what the driver does not implement answers \<open>Unimplemented\<close>.
\<close>

datatype csi_capability =
    CREATE_DELETE_VOLUME | GET_VOLUME | GET_CAPACITY | LIST_VOLUMES | VOLUME_CONDITION
  | SINGLE_NODE_MULTI_WRITER | PUBLISH_UNPUBLISH_VOLUME

datatype csi_reply =
    EmptyReply
  | NilReply
  | VolumeEntries "CsiVolume list"
  | ControllerCapabilities "csi_capability list"
  | NodeInfo string
  | PluginInfo string string
  | ProbeReady bool
  | PluginServices "string list"

datatype controller_method =
    ControllerPublishVolume | ControllerUnpublishVolume | ControllerGetVolume
  | ValidateVolumeCapabilities | ListVolumes | GetCapacity | ControllerGetCapabilities
  | CreateSnapshot | DeleteSnapshot | ListSnapshots | ControllerExpandVolume

definition getControllerServiceCapabilities :: "csi_capability list" where
  "getControllerServiceCapabilities =
     fold (\<lambda>cap csc. csc @ [cap])
       [CREATE_DELETE_VOLUME, GET_VOLUME, GET_CAPACITY, LIST_VOLUMES, VOLUME_CONDITION,
        SINGLE_NODE_MULTI_WRITER, PUBLISH_UNPUBLISH_VOLUME] []"

fun controller_call :: "controller_method \<Rightarrow> csi_reply outcome" where
  "controller_call ControllerPublishVolume = Err (StatusError Unimplemented [])"
| "controller_call ControllerUnpublishVolume = Err (StatusError Unimplemented [])"
| "controller_call ControllerGetVolume = Err (StatusError Unimplemented [])"
| "controller_call ValidateVolumeCapabilities = Err (StatusError Unimplemented [])"
| "controller_call ListVolumes = Ret (VolumeEntries [])"
| "controller_call GetCapacity = Err (StatusError Unimplemented [])"
| "controller_call ControllerGetCapabilities =
     Ret (ControllerCapabilities getControllerServiceCapabilities)"
| "controller_call CreateSnapshot = Err (StatusError Unimplemented [])"
| "controller_call DeleteSnapshot = Err (StatusError Unimplemented [])"
| "controller_call ListSnapshots = Err (StatusError Unimplemented [])"
| "controller_call ControllerExpandVolume = Err (StatusError Unimplemented [])"

section \<open>pkg/localstorage/nodeserver.go\<close>

datatype node_method =
    NodePublishVolume | NodeUnpublishVolume | NodeGetInfo | NodeGetCapabilities
  | NodeGetVolumeStats | NodeUnstageVolume | NodeStageVolume | NodeExpandVolume

fun node_call :: "Config \<Rightarrow> node_method \<Rightarrow> csi_reply outcome" where
  "node_call cfg NodePublishVolume = Ret EmptyReply"
| "node_call cfg NodeUnpublishVolume = Ret EmptyReply"
| "node_call cfg NodeGetInfo = Ret (NodeInfo (cf_NodeId cfg))"
| "node_call cfg NodeGetCapabilities = Ret EmptyReply"
| "node_call cfg NodeGetVolumeStats = Ret NilReply"
| "node_call cfg NodeUnstageVolume = Err (StatusError Unimplemented [])"
| "node_call cfg NodeStageVolume = Err (StatusError Unimplemented [])"
| "node_call cfg NodeExpandVolume = Err (StatusError Unimplemented [])"

section \<open>pkg/localstorage/identityserver.go\<close>

datatype identity_method = GetPluginInfo | Probe | GetPluginCapabilities

fun identity_call :: "Config \<Rightarrow> identity_method \<Rightarrow> csi_reply outcome" where
  "identity_call cfg GetPluginInfo = Ret (PluginInfo (cf_DriverName cfg) (cf_VendorVersion cfg))"
| "identity_call cfg Probe = Ret (ProbeReady True)"
| "identity_call cfg GetPluginCapabilities = Ret (PluginServices [''CONTROLLER_SERVICE''])"

end
