(* ===== verification/LS_Ledger.thy ===== *)
theory LS_Ledger
  imports LS_Csi
begin

text \<open>
  What the volume handlers promise about a node's capacity. The abstract specification is a
  ledger: a total and, for each volume ID, the number of bytes it uses; its free space is the
  total minus the used bytes. The object a handler submits implements the ledger operations
  (\<open>allocate_refines\<close>, \<open>release_refines\<close>), and keeps the balance
  \<open>allocatable + volumes = capacity\<close>. That the object in the API server keeps it too, however
  stale the informer cache, is shown for whole runs in \<open>LS_Safety\<close>.
\<close>

section \<open>The abstract ledger\<close>

record node_ledger =
  nl_total :: rat
  nl_used :: "string \<rightharpoonup> int"

definition ledger_free :: "node_ledger \<Rightarrow> rat" where
  "ledger_free L = nl_total L - of_int (\<Sum>i \<in> dom (nl_used L). the (nl_used L i))"

definition ledger_alloc :: "string \<Rightarrow> int \<Rightarrow> node_ledger \<Rightarrow> node_ledger" where
  "ledger_alloc i n L = L\<lparr>nl_used := (nl_used L)(i \<mapsto> n)\<rparr>"

definition ledger_release :: "string \<Rightarrow> node_ledger \<Rightarrow> node_ledger" where
  "ledger_release i L = L\<lparr>nl_used := (nl_used L)(i := None)\<rparr>"

text \<open>The ledger a localstorage object stands for.\<close>

definition used_of :: "Volume list \<Rightarrow> (string \<rightharpoonup> int)" where
  "used_of vs = map_of (map (\<lambda>v. (v_VolID v, sint (v_VolSize v))) vs)"

definition abs_ledger :: "('q \<Rightarrow> rat) \<Rightarrow> 'q LocalStorage \<Rightarrow> node_ledger" where
  "abs_ledger val l =
     \<lparr>nl_total = (case st_Capacity (ls_Status l) of None \<Rightarrow> 0 | Some c \<Rightarrow> val c),
      nl_used = used_of (ls_Volumes l)\<rparr>"

section \<open>The balance\<close>

definition volume_total :: "Volume list \<Rightarrow> int" where
  "volume_total vs = sum_list (map (\<lambda>v. sint (v_VolSize v)) vs)"

text \<open>
  IDs are unique; an object with quantities balances; one without an allocatable quantity (not
  initialised yet) has no volumes.
\<close>

definition balanced :: "('q \<Rightarrow> rat) \<Rightarrow> 'q LocalStorage \<Rightarrow> bool" where
  "balanced val l \<longleftrightarrow>
     distinct (map v_VolID (ls_Volumes l)) \<and>
     (case st_Allocatable (ls_Status l) of
        None \<Rightarrow> ls_Volumes l = []
      | Some a \<Rightarrow> (case st_Capacity (ls_Status l) of
                    None \<Rightarrow> False
                  | Some c \<Rightarrow> val a + of_int (volume_total (ls_Volumes l)) = val c))"

lemma balanced_distinct: "balanced val l \<Longrightarrow> distinct (map v_VolID (ls_Volumes l))"
  by (simp add: balanced_def)

lemma balanced_status: "ls_Status l' = ls_Status l \<Longrightarrow> balanced val l' = balanced val l"
  by (auto simp: balanced_def split: option.splits)

lemma balanced_empty:
  "ls_Volumes l = [] \<Longrightarrow> st_Allocatable (ls_Status l) = Some q \<Longrightarrow> st_Capacity (ls_Status l) = Some q \<Longrightarrow>
   balanced val l"
  by (simp add: balanced_def volume_total_def)

lemma dom_used_of: "dom (used_of vs) = v_VolID ` set vs"
  by (simp add: used_of_def dom_map_of_conv_image_fst image_image)

lemma used_of_Some:
  "distinct (map v_VolID vs) \<Longrightarrow> v \<in> set vs \<Longrightarrow> used_of vs (v_VolID v) = Some (sint (v_VolSize v))"
  unfolding used_of_def by (rule map_of_is_SomeI) (auto simp: o_def)

lemma used_of_find: "used_of vs i = map_option (\<lambda>v. sint (v_VolSize v)) (find (\<lambda>v. v_VolID v = i) vs)"
  by (induction vs) (auto simp: used_of_def)

lemma volume_total_used:
  assumes "distinct (map v_VolID vs)"
  shows "(\<Sum>i \<in> dom (used_of vs). the (used_of vs i)) = volume_total vs"
proof -
  have "(\<Sum>i \<in> set (map v_VolID vs). the (used_of vs i)) = sum_list (map (\<lambda>i. the (used_of vs i)) (map v_VolID vs))"
    using assms by (rule sum.distinct_set_conv_list)
  also have "\<dots> = sum_list (map (\<lambda>v. sint (v_VolSize v)) vs)"
    using assms by (auto simp: o_def used_of_Some intro!: arg_cong [where f = sum_list] map_cong)
  finally show ?thesis by (simp add: volume_total_def dom_used_of)
qed

text \<open>In a balanced object the allocatable quantity is the free space of its ledger.\<close>

lemma balanced_free:
  assumes "balanced val l" and "st_Allocatable (ls_Status l) = Some a"
  shows "val a = ledger_free (abs_ledger val l)"
  using assms volume_total_used [OF balanced_distinct [OF assms(1)]]
  by (auto simp: balanced_def ledger_free_def abs_ledger_def split: option.splits)

section \<open>What the handlers submit\<close>

definition allocate :: "'q quantity_ops \<Rightarrow> Volume \<Rightarrow> 'q LocalStorage \<Rightarrow> 'q LocalStorage" where
  "allocate Q v s =
     set_Allocatable
       (map_option (\<lambda>q. q_Sub Q q (q_New Q (v_VolSize v))) (st_Allocatable (ls_Status s)))
       (AddVolume s v)"

definition release :: "'q quantity_ops \<Rightarrow> string \<Rightarrow> 'q LocalStorage \<Rightarrow> 'q LocalStorage" where
  "release Q volId s =
     set_Allocatable
       (map_option (\<lambda>q. q_Add Q q (q_New Q (v_VolSize (snd (RemoveVolume s volId)))))
          (st_Allocatable (ls_Status s)))
       (fst (RemoveVolume s volId))"

definition new_Volume :: "Config \<Rightarrow> CreateVolumeRequest \<Rightarrow> string \<Rightarrow> Volume" where
  "new_Volume cfg req volumeID =
     zero_Volume\<lparr>v_VolID := volumeID, v_VolName := cv_Name req,
       v_VolPath := parseVolumePath (cf_VolumeDir cfg) volumeID, v_VolSize := cv_RequiredBytes req\<rparr>"

lemma new_Volume_simps [simp]:
  "v_VolID (new_Volume cfg req i) = i" "v_VolSize (new_Volume cfg req i) = cv_RequiredBytes req"
  "v_VolName (new_Volume cfg req i) = cv_Name req"
  "v_VolPath (new_Volume cfg req i) = parseVolumePath (cf_VolumeDir cfg) i"
  by (simp_all add: new_Volume_def)

lemma allocate_object [simp]:
  "ls_Meta (allocate Q v s) = ls_Meta s" "ls_Spec (allocate Q v s) = ls_Spec s"
  "ls_Phase (allocate Q v s) = ls_Phase s"
  "st_Capacity (ls_Status (allocate Q v s)) = st_Capacity (ls_Status s)"
  by (simp_all add: allocate_def)

lemma release_object [simp]:
  "ls_Meta (release Q i s) = ls_Meta s" "ls_Spec (release Q i s) = ls_Spec s"
  "ls_Phase (release Q i s) = ls_Phase s"
  "st_Capacity (ls_Status (release Q i s)) = st_Capacity (ls_Status s)"
  by (simp_all add: release_def)

lemma calculate_sub:
  "calculateAllocatedSize Q al n SubOperation =
     (case al of None \<Rightarrow> Panic | Some q \<Rightarrow> Ret (Some (q_Sub Q q (q_New Q n))))"
  by (simp add: calculateAllocatedSize_def SubOperation_def AddOperation_def BytesToQuantity_def)

lemma calculate_add:
  "calculateAllocatedSize Q al n AddOperation =
     (case al of None \<Rightarrow> Panic | Some q \<Rightarrow> Ret (Some (q_Add Q q (q_New Q n))))"
  by (simp add: calculateAllocatedSize_def AddOperation_def BytesToQuantity_def)

text \<open>The runs of \<open>CreateVolume\<close>, by where they end.\<close>

lemma CreateVolume_cases:
  assumes "CreateVolume Q S cfg req w = (r, w')"
  obtains (rejected) e where "r = Err e" "w' = w"
  | (mkdir) s i a1 f1 e where "GetLocalStorageByNode S (cf_NodeId cfg) (w_sv w) = Inr s"
      "sv_NewUUID S (w_sv w) = (i, a1)"
      "CreateVolumeDir (parseVolumePath (cf_VolumeDir cfg) i) (w_fs w) = (Some e, f1)"
      "r = Err e" "w' = \<lparr>w_fs = f1, w_sv = a1\<rparr>"
  | (panic) s i a1 f1 where "GetLocalStorageByNode S (cf_NodeId cfg) (w_sv w) = Inr s"
      "sv_NewUUID S (w_sv w) = (i, a1)"
      "CreateVolumeDir (parseVolumePath (cf_VolumeDir cfg) i) (w_fs w) = (None, f1)"
      "st_Allocatable (ls_Status s) = None" "r = Panic" "w' = \<lparr>w_fs = f1, w_sv = a1\<rparr>"
  | (update) s i a1 f1 q u a2 where "GetLocalStorageByNode S (cf_NodeId cfg) (w_sv w) = Inr s"
      "sv_NewUUID S (w_sv w) = (i, a1)"
      "CreateVolumeDir (parseVolumePath (cf_VolumeDir cfg) i) (w_fs w) = (None, f1)"
      "st_Allocatable (ls_Status s) = Some q"
      "sv_Update S (allocate Q (new_Volume cfg req i) s) a1 = (u, a2)"
      "w' = \<lparr>w_fs = f1, w_sv = a2\<rparr>"
      "(\<exists>e. u = Inl e \<and> r = Err e) \<or>
       (\<exists>o'. u = Inr o' \<and> r = Ret
          \<lparr>cs_VolumeId = i, cs_CapacityBytes = cv_RequiredBytes req,
           cs_VolumeContext = (case cv_Parameters req of None \<Rightarrow> Map.empty | Some m \<Rightarrow> m)
              (''localPath.caoyingjunz.io'' \<mapsto> parseVolumePath (cf_VolumeDir cfg) i),
           cs_ContentSource = cv_ContentSource req, cs_AccessibleTopology = []\<rparr>)"
proof (cases "cv_Name req = [] \<or> cv_Capabilities req = None")
  case True
  with assms have "\<exists>e. r = Err e \<and> w' = w" by (auto simp: CreateVolume_def split: if_splits)
  with rejected show ?thesis by blast
next
  case False
  then obtain caps where okN: "cv_Name req \<noteq> []" and okC: "cv_Capabilities req = Some caps" by auto
  show ?thesis
  proof (cases "GetLocalStorageByNode S (cf_NodeId cfg) (w_sv w)")
    case (Inl e)
    with okN okC assms have "r = Err e" "w' = w" by (simp_all add: CreateVolume_def)
    then show ?thesis by (rule rejected)
  next
    case s: (Inr s)
    obtain i a1 where i: "sv_NewUUID S (w_sv w) = (i, a1)" by fastforce
    obtain m f1 where m: "CreateVolumeDir (parseVolumePath (cf_VolumeDir cfg) i) (w_fs w) = (m, f1)"
      by fastforce
    show ?thesis
    proof (cases m)
      case (Some e)
      with okN okC assms s i m have "r = Err e" "w' = \<lparr>w_fs = f1, w_sv = a1\<rparr>"
        by (simp_all add: CreateVolume_def Let_def)
      with s i m Some show ?thesis by (intro mkdir) simp_all
    next
      case m0: None
      show ?thesis
      proof (cases "st_Allocatable (ls_Status s)")
        case None
        with okN okC assms s i m m0 have "r = Panic" "w' = \<lparr>w_fs = f1, w_sv = a1\<rparr>"
          by (simp_all add: CreateVolume_def Let_def calculate_sub)
        with s i m m0 None show ?thesis by (intro panic) simp_all
      next
        case (Some q)
        obtain u a2 where u: "sv_Update S (allocate Q (new_Volume cfg req i) s) a1 = (u, a2)"
          by fastforce
        have obj: "set_Allocatable (Some (q_Sub Q q (q_New Q (cv_RequiredBytes req))))
            (AddVolume s (new_Volume cfg req i)) = allocate Q (new_Volume cfg req i) s"
          using Some by (simp add: allocate_def)
        have "(r, w') =
          (case u of Inl err \<Rightarrow> (Err err, \<lparr>w_fs = f1, w_sv = a2\<rparr>)
           | Inr _ \<Rightarrow> (Ret \<lparr>cs_VolumeId = i, cs_CapacityBytes = cv_RequiredBytes req,
               cs_VolumeContext = (case cv_Parameters req of None \<Rightarrow> Map.empty | Some m \<Rightarrow> m)
                 (''localPath.caoyingjunz.io'' \<mapsto> parseVolumePath (cf_VolumeDir cfg) i),
               cs_ContentSource = cv_ContentSource req, cs_AccessibleTopology = []\<rparr>,
               \<lparr>w_fs = f1, w_sv = a2\<rparr>))"
          unfolding assms [symmetric]
          using okN okC s i m m0 Some u obj unfolding CreateVolume_def Let_def new_Volume_def
          by (simp add: calculate_sub split: sum.split)
        then have "w' = \<lparr>w_fs = f1, w_sv = a2\<rparr>"
          and "(\<exists>e. u = Inl e \<and> r = Err e) \<or> (\<exists>o'. u = Inr o' \<and> r = Ret
            \<lparr>cs_VolumeId = i, cs_CapacityBytes = cv_RequiredBytes req,
             cs_VolumeContext = (case cv_Parameters req of None \<Rightarrow> Map.empty | Some m \<Rightarrow> m)
               (''localPath.caoyingjunz.io'' \<mapsto> parseVolumePath (cf_VolumeDir cfg) i),
             cs_ContentSource = cv_ContentSource req, cs_AccessibleTopology = []\<rparr>)"
          by (cases u; simp)+
        with s i m m0 Some u show ?thesis by (intro update [of s i a1 f1 q u a2]) simp_all
      qed
    qed
  qed
qed

lemma DeleteVolume_cases:
  assumes "DeleteVolume Q S cfg volId w = (r, w')"
  obtains (rejected) e where "r = Err e" "w' = w"
  | (panic) s where "GetLocalStorageByNode S (cf_NodeId cfg) (w_sv w) = Inr s"
      "st_Allocatable (ls_Status s) = None" "r = Panic" "w' = w"
  | (refused) s q e a1 where "GetLocalStorageByNode S (cf_NodeId cfg) (w_sv w) = Inr s"
      "st_Allocatable (ls_Status s) = Some q"
      "sv_Update S (release Q volId s) (w_sv w) = (Inl e, a1)" "r = Err e"
      "w' = \<lparr>w_fs = w_fs w, w_sv = a1\<rparr>"
  | (updated) s q o' a1 d f1 where "GetLocalStorageByNode S (cf_NodeId cfg) (w_sv w) = Inr s"
      "st_Allocatable (ls_Status s) = Some q" "volId \<noteq> []"
      "sv_Update S (release Q volId s) (w_sv w) = (Inr o', a1)"
      "DeleteVolumeDir (parseVolumePath (cf_VolumeDir cfg) volId) (w_fs w) = (d, f1)"
      "r = of_error d" "w' = \<lparr>w_fs = f1, w_sv = a1\<rparr>"
proof (cases "volId = []")
  case True
  with assms have "\<exists>e. r = Err e \<and> w' = w" by (auto simp: DeleteVolume_def)
  with rejected show ?thesis by blast
next
  case id: False
  show ?thesis
  proof (cases "GetLocalStorageByNode S (cf_NodeId cfg) (w_sv w)")
    case (Inl e)
    with id assms have "r = Err e" "w' = w" by (simp_all add: DeleteVolume_def)
    then show ?thesis by (rule rejected)
  next
    case s: (Inr s)
    show ?thesis
    proof (cases "st_Allocatable (ls_Status s)")
      case None
      with id s assms have "r = Panic" "w' = w" by (simp_all add: DeleteVolume_def Let_def calculate_add)
      with s None show ?thesis by (intro panic) simp_all
    next
      case (Some q)
      have obj: "set_Allocatable (Some (q_Add Q q (q_New Q (v_VolSize (snd (RemoveVolume s volId))))))
          (fst (RemoveVolume s volId)) = release Q volId s"
        using Some by (simp add: release_def)
      obtain u a1 where u: "sv_Update S (release Q volId s) (w_sv w) = (u, a1)" by fastforce
      obtain d f1 where d: "DeleteVolumeDir (parseVolumePath (cf_VolumeDir cfg) volId) (w_fs w) = (d, f1)"
        by fastforce
      have run: "(r, w') = (case u of Inl err \<Rightarrow> (Err err, w\<lparr>w_sv := a1\<rparr>)
         | Inr _ \<Rightarrow> (of_error d, \<lparr>w_fs = f1, w_sv = a1\<rparr>))"
        unfolding assms [symmetric] using id s Some u d unfolding DeleteVolume_def Let_def
        by (simp add: calculate_add obj split: sum.split option.split)
      show ?thesis
      proof (cases u)
        case (Inl e)
        with run have "r = Err e" "w' = \<lparr>w_fs = w_fs w, w_sv = a1\<rparr>" by (cases w; simp)+
        with Inl u s Some show ?thesis by (intro refused [of s q e a1]) simp_all
      next
        case (Inr o')
        with run have "r = of_error d" "w' = \<lparr>w_fs = f1, w_sv = a1\<rparr>" by simp_all
        with Inr u s Some id d show ?thesis by (intro updated [of s q o' a1 d f1]) simp_all
      qed
    qed
  qed
qed

section \<open>The submitted objects implement the ledger\<close>

lemma used_of_snoc: "v_VolID v \<notin> v_VolID ` set vs \<Longrightarrow> used_of (vs @ [v]) = (used_of vs)(v_VolID v \<mapsto> sint (v_VolSize v))"
  by (induction vs) (auto simp: used_of_def fun_eq_iff)

lemma used_of_filter: "used_of (filter (\<lambda>v. v_VolID v \<noteq> i) vs) = (used_of vs)(i := None)"
  by (induction vs) (auto simp: used_of_def fun_eq_iff)

lemma allocate_refines:
  assumes "v_VolID v \<notin> v_VolID ` set (ls_Volumes s)"
  shows "abs_ledger val (allocate Q v s) =
         ledger_alloc (v_VolID v) (sint (v_VolSize v)) (abs_ledger val s)"
  using assms by (simp add: abs_ledger_def ledger_alloc_def allocate_def AddVolume_new used_of_snoc)

lemma release_refines:
  assumes "distinct (map v_VolID (ls_Volumes s))"
  shows "abs_ledger val (release Q i s) = ledger_release i (abs_ledger val s)"
  using assms
  by (simp add: abs_ledger_def ledger_release_def release_def RemoveVolume_distinct used_of_filter)

lemma removed_size:
  assumes "distinct (map v_VolID vs)"
  shows "volume_total (filter (\<lambda>v. v_VolID v \<noteq> i) vs) = volume_total vs -
    sint (v_VolSize (case find (\<lambda>v. v_VolID v = i) vs of None \<Rightarrow> zero_Volume | Some v \<Rightarrow> v))"
proof (cases "find (\<lambda>v. v_VolID v = i) vs")
  case None
  then have "filter (\<lambda>v. v_VolID v \<noteq> i) vs = vs" by (auto simp: find_None_iff filter_id_conv)
  with None show ?thesis by (simp add: zero_Volume_def)
next
  case (Some v)
  then have "v \<in> set vs" "v_VolID v = i" by (auto dest: find_SomeD)
  with filter_key_single [OF assms, of v] have "filter (\<lambda>v. v_VolID v = i) vs = [v]" by simp
  with Some show ?thesis by (simp add: volume_total_def sum_list_filter_remove)
qed

lemma allocate_balanced:
  assumes "quantity_laws Q val" and "balanced val s" and "st_Allocatable (ls_Status s) = Some q"
    and "v_VolID v \<notin> v_VolID ` set (ls_Volumes s)"
  shows "balanced val (allocate Q v s)"
  using assms
  by (auto simp: balanced_def allocate_def AddVolume_new volume_total_def quantity_laws_simps
      split: option.splits)

lemma release_balanced:
  assumes "quantity_laws Q val" and "balanced val s" and "st_Allocatable (ls_Status s) = Some q"
  shows "balanced val (release Q i s)"
proof -
  have d: "distinct (map v_VolID (ls_Volumes s))" using assms(2) by (rule balanced_distinct)
  show ?thesis
    using assms removed_size [OF d, of i]
    by (auto simp: balanced_def release_def RemoveVolume_distinct [OF d] distinct_map_filter_keep
        quantity_laws_simps split: option.splits)
qed

section \<open>The object in the API server stays balanced\<close>

definition all_balanced :: "('q \<Rightarrow> rat) \<Rightarrow> (string \<rightharpoonup> 'q LocalStorage) \<Rightarrow> bool" where
  "all_balanced val store \<longleftrightarrow> (\<forall>n l. store n = Some l \<longrightarrow> balanced val l)"

lemma update_balanced:
  assumes "update_contract S stored" and "sv_Update S obj a = (r, a')"
    and "all_balanced val (stored a)"
    and "\<And>cur. stored a (ls_Name obj) = Some cur \<Longrightarrow> ls_Version cur = ls_Version obj \<Longrightarrow>
           balanced val cur \<Longrightarrow> balanced val obj"
  shows "all_balanced val (stored a')"
proof -
  have "balanced val l" if "stored a' n = Some l" for n l
    using assms(1,2) _ _ that
  proof (rule update_preserves)
    show "\<And>cur. stored a n = Some cur \<Longrightarrow> balanced val cur"
      using assms(3) by (simp add: all_balanced_def)
    show "balanced val obj'"
      if "stored a (ls_Name obj) = Some cur" "ls_Version cur = ls_Version obj" "balanced val cur"
        "applied obj obj'" for cur obj'
      using assms(4) that balanced_status [of obj' obj val] by (auto simp: applied_def)
  qed
  then show ?thesis by (simp add: all_balanced_def)
qed

text \<open>A new ID is not the ID of a stored volume.\<close>

definition fresh_uuid ::
    "('q, 'a) services \<Rightarrow> ('a \<Rightarrow> string \<rightharpoonup> 'q LocalStorage) \<Rightarrow> 'a \<Rightarrow> bool" where
  "fresh_uuid S stored a \<longleftrightarrow>
     (\<forall>n l. stored a n = Some l \<longrightarrow> fst (sv_NewUUID S a) \<notin> v_VolID ` set (ls_Volumes l))"

lemma cached_current:
  assumes "cache_contract S stored" and "GetLocalStorageByNode S n a = Inr s"
    and "stored a (ls_Name s) = Some cur" and "ls_Version cur = ls_Version s"
  shows "cur = s"
  using assms GetLocalStorageByNode_Inr(1) [OF assms(2)] unfolding cache_contract_def by metis

lemma DeleteVolume_all_balanced:
  assumes Q: "quantity_laws Q val"
    and S: "update_contract S stored" "cache_contract S stored"
    and bal: "all_balanced val (stored (w_sv w))"
    and run: "DeleteVolume Q S cfg volId w = (r, w')"
  shows "all_balanced val (stored (w_sv w'))"
proof -
  have upd: "all_balanced val (stored a1)"
    if "GetLocalStorageByNode S (cf_NodeId cfg) (w_sv w) = Inr s"
      "st_Allocatable (ls_Status s) = Some q" "sv_Update S (release Q volId s) (w_sv w) = (u, a1)"
    for s q u a1
    using S(1) that(3) bal
  proof (rule update_balanced)
    fix cur
    assume "stored (w_sv w) (ls_Name (release Q volId s)) = Some cur"
      and "ls_Version cur = ls_Version (release Q volId s)" and b: "balanced val cur"
    then have "cur = s" using cached_current [OF S(2) that(1)] by simp
    with b show "balanced val (release Q volId s)"
      using release_balanced [OF Q _ that(2)] by simp
  qed
  show ?thesis
    using run by (cases rule: DeleteVolume_cases) (use bal upd in auto)
qed

end
