(* ===== verification/LS_Worker.thy ===== *)
theory LS_Worker
  imports LS_StorageUtil
begin

text \<open>
  The work queue both controllers run on, as an argument of the definitions (it is client-go
  code), and the contract of their error handling: after a success the key is forgotten, after
  an error it is queued again with a delay while it was requeued fewer than 15 times, and
  forgotten after that. Both \<open>handleErr\<close> functions of the repository satisfy it
  (\<open>LS_Plugin\<close>, \<open>LS_Controller\<close>).
\<close>

section \<open>The rate-limited queue\<close>

text \<open>
  \<open>qo_Get\<close> is \<open>None\<close> when the queue is shut down; \<open>qo_Terminating\<close> is
  \<open>errors.HasStatusCause(err, NamespaceTerminatingCause)\<close>.
\<close>

record 'k queue_ops =
  qo_Get :: "'k \<Rightarrow> string option \<times> 'k"
  qo_Done :: "string \<Rightarrow> 'k \<Rightarrow> 'k"
  qo_Add :: "string \<Rightarrow> 'k \<Rightarrow> 'k"
  qo_AddRateLimited :: "string \<Rightarrow> 'k \<Rightarrow> 'k"
  qo_AddAfter :: "string \<Rightarrow> int \<Rightarrow> 'k \<Rightarrow> 'k"
  qo_Forget :: "string \<Rightarrow> 'k \<Rightarrow> 'k"
  qo_NumRequeues :: "string \<Rightarrow> 'k \<Rightarrow> nat"
  qo_Terminating :: "gerror \<Rightarrow> bool"

text \<open>
  What client-go documents about the counter: \<open>AddRateLimited\<close> counts a requeue of its key,
  \<open>Forget\<close> clears it, and no operation touches the counter of another key.
\<close>

definition queue_laws :: "'k queue_ops \<Rightarrow> bool" where
  "queue_laws O' \<longleftrightarrow>
     (\<forall>k q. qo_NumRequeues O' k (qo_AddRateLimited O' k q) = Suc (qo_NumRequeues O' k q)) \<and>
     (\<forall>k q. qo_NumRequeues O' k (qo_Forget O' k q) = 0) \<and>
     (\<forall>j k q. j \<noteq> k \<longrightarrow>
        qo_NumRequeues O' j (qo_AddRateLimited O' k q) = qo_NumRequeues O' j q \<and>
        qo_NumRequeues O' j (qo_Forget O' k q) = qo_NumRequeues O' j q) \<and>
     (\<forall>j k q. qo_NumRequeues O' j (qo_Done O' k q) = qo_NumRequeues O' j q) \<and>
     (\<forall>j q. qo_NumRequeues O' j (snd (qo_Get O' q)) = qo_NumRequeues O' j q)"

text \<open>
  What it documents about a shutdown: keys that wait are still handed out, nothing is added any
  more, and once none is left \<open>Get\<close> reports the shutdown. \<open>waiting\<close> counts the keys.
\<close>

definition shutdown_laws :: "'k queue_ops \<Rightarrow> ('k \<Rightarrow> bool) \<Rightarrow> ('k \<Rightarrow> nat) \<Rightarrow> bool" where
  "shutdown_laws O' shut waiting \<longleftrightarrow> (\<forall>q. shut q \<longrightarrow>
     (case qo_Get O' q of
        (None, q1) \<Rightarrow> waiting q1 = 0
      | (Some _, q1) \<Rightarrow> shut q1 \<and> waiting q1 < waiting q) \<and>
     (\<forall>key. list_all (\<lambda>q1. shut q1 \<and> waiting q1 \<le> waiting q)
        [qo_Forget O' key q, qo_AddRateLimited O' key q, qo_Done O' key q]))"

lemma shutdown_lawsD:
  assumes "shutdown_laws O' shut waiting" and "shut q"
  shows "qo_Get O' q = (None, q1) \<Longrightarrow> waiting q1 = 0"
    and "qo_Get O' q = (Some key, q1) \<Longrightarrow> shut q1"
    and "qo_Get O' q = (Some key, q1) \<Longrightarrow> waiting q1 < waiting q"
    and "shut (qo_Forget O' key q)" and "waiting (qo_Forget O' key q) \<le> waiting q"
    and "shut (qo_AddRateLimited O' key q)" and "waiting (qo_AddRateLimited O' key q) \<le> waiting q"
    and "shut (qo_Done O' key q)" and "waiting (qo_Done O' key q) \<le> waiting q"
  using assms by (auto simp: shutdown_laws_def)

text \<open>
  And about its content: only keys that were added are handed out, and only adding adds one;
  \<open>keys\<close> are those that wait or will after a delay.
\<close>

definition key_laws :: "'k queue_ops \<Rightarrow> ('k \<Rightarrow> string set) \<Rightarrow> bool" where
  "key_laws O' keys \<longleftrightarrow>
     (\<forall>k q q1. qo_Get O' q = (k, q1) \<longrightarrow> set_option k \<subseteq> keys q \<and> keys q1 \<subseteq> keys q) \<and>
     (\<forall>k q. keys (qo_Add O' k q) \<subseteq> insert k (keys q) \<and> keys (qo_AddRateLimited O' k q) \<subseteq> insert k (keys q) \<and>
        keys (qo_Forget O' k q) \<subseteq> keys q \<and> keys (qo_Done O' k q) \<subseteq> keys q) \<and>
     (\<forall>k d q. keys (qo_AddAfter O' k d q) \<subseteq> insert k (keys q))"

text \<open>
  And about a single key: an idle queue that gets a key hands it out; after the key is done the
  queue is idle again if it was forgotten, and hands it out again, with its counter one higher, if
  it was requeued. \<open>holding k n\<close>: only \<open>k\<close> waits, and it was requeued \<open>n\<close> times.
\<close>

definition retry_key_laws :: "'k queue_ops \<Rightarrow> ('k \<Rightarrow> bool) \<Rightarrow> (string \<Rightarrow> nat \<Rightarrow> 'k \<Rightarrow> bool) \<Rightarrow> bool" where
  "retry_key_laws O' idle holding \<longleftrightarrow>
     (\<forall>k q. idle q \<longrightarrow> holding k 0 (qo_Add O' k q)) \<and>
     (\<forall>k n q. holding k n q \<longrightarrow> (\<exists>q1. qo_Get O' q = (Some k, q1) \<and> qo_NumRequeues O' k q1 = n \<and>
        idle (qo_Done O' k (qo_Forget O' k q1)) \<and>
        holding k (Suc n) (qo_Done O' k (qo_AddRateLimited O' k q1))))"

text \<open>\<open>retried rec dead m w w'\<close>: \<open>m\<close> reconciliations fail, with errors that may be retried, the
  next one succeeds.\<close>

inductive retried :: "('w \<Rightarrow> gerror option \<times> 'w) \<Rightarrow> (gerror \<Rightarrow> bool) \<Rightarrow> nat \<Rightarrow> 'w \<Rightarrow> 'w \<Rightarrow> bool"
  for rec dead where
  success: "rec w = (None, w') \<Longrightarrow> retried rec dead 0 w w'"
| failure: "rec w = (Some e, w1) \<Longrightarrow> \<not> dead e \<Longrightarrow> retried rec dead m w1 w' \<Longrightarrow> retried rec dead (Suc m) w w'"

text \<open>What fails only while a measure goes down is retried at most that often.\<close>

lemma retried_until:
  assumes "P w"
    and step: "\<And>x. P x \<Longrightarrow> (\<exists>e y. rec x = (Some e, y) \<and> \<not> dead e \<and> P y \<and> down y < (down x :: nat)) \<or>
        (\<exists>y. rec x = (None, y) \<and> R y)"
  obtains m w' where "m \<le> down w" "retried rec dead m w w'" "R w'"
proof -
  have "\<exists>m w'. m \<le> down w \<and> retried rec dead m w w' \<and> R w'"
    using assms(1)
  proof (induction "down w" arbitrary: w rule: less_induct)
    case less
    from step [OF less.prems] show ?case
    proof (elim disjE exE conjE)
      fix e y assume y: "rec w = (Some e, y)" "\<not> dead e" "P y" "down y < down w"
      from less.hyps [OF y(4,3)] obtain m w' where "m \<le> down y" "retried rec dead m y w'" "R w'" by blast
      with y retried.failure [of rec w e y dead m w'] show ?thesis by (intro exI [of _ "Suc m"] exI [of _ w']) auto
    next
      fix y assume "rec w = (None, y)" "R y"
      then show ?thesis using retried.success [of rec w y dead] by (intro exI [of _ 0] exI [of _ y]) simp
    qed
  qed
  with that show thesis by blast
qed

definition retry_limit :: nat where
  "retry_limit = 15"

section \<open>The contract of an error handler\<close>

locale retrying =
  fixes handle :: "'k queue_ops \<Rightarrow> gerror option \<Rightarrow> string \<Rightarrow> 'k \<Rightarrow> 'k"
  assumes success: "handle O' None key q = qo_Forget O' key q"
    and terminating: "qo_Terminating O' e \<Longrightarrow> handle O' (Some e) key q = qo_Forget O' key q"
    and retry: "\<not> qo_Terminating O' e \<Longrightarrow> qo_NumRequeues O' key q < retry_limit \<Longrightarrow>
        handle O' (Some e) key q = qo_AddRateLimited O' key q"
    and give_up: "\<not> qo_Terminating O' e \<Longrightarrow> \<not> qo_NumRequeues O' key q < retry_limit \<Longrightarrow>
        handle O' (Some e) key q = qo_Forget O' key q"
begin

lemma handled:
  "handle O' err key q =
     (if err = None \<or> qo_Terminating O' (the err) \<or> \<not> qo_NumRequeues O' key q < retry_limit
      then qo_Forget O' key q else qo_AddRateLimited O' key q)"
  by (cases err; cases "qo_Terminating O' (the err)") (auto simp: success terminating retry give_up)

text \<open>The counter never passes the limit.\<close>

lemma requeues_bounded:
  assumes "queue_laws O'" and "qo_NumRequeues O' key q \<le> retry_limit"
  shows "qo_NumRequeues O' key (handle O' err key q) \<le> retry_limit"
  using assms by (auto simp: handled queue_laws_def)

text \<open>A key that keeps failing is requeued exactly 15 times and then dropped.\<close>

lemma failures_counted:
  assumes "queue_laws O'" and "\<not> qo_Terminating O' e" and "qo_NumRequeues O' key q = 0"
    and "n \<le> retry_limit"
  shows "(handle O' (Some e) key ^^ n) q = (qo_AddRateLimited O' key ^^ n) q
       \<and> qo_NumRequeues O' key ((handle O' (Some e) key ^^ n) q) = n"
  using assms(4)
proof (induction n)
  case 0
  then show ?case by (simp add: assms(3))
next
  case (Suc n)
  then have IH: "(handle O' (Some e) key ^^ n) q = (qo_AddRateLimited O' key ^^ n) q"
      "qo_NumRequeues O' key ((handle O' (Some e) key ^^ n) q) = n" by auto
  with Suc.prems have "handle O' (Some e) key ((handle O' (Some e) key ^^ n) q)
      = qo_AddRateLimited O' key ((handle O' (Some e) key ^^ n) q)"
    by (intro retry assms(2)) simp
  with IH assms(1) show ?case by (simp add: queue_laws_def)
qed

lemma dropped_after_limit:
  assumes "queue_laws O'" and "\<not> qo_Terminating O' e" and "qo_NumRequeues O' key q = 0"
  shows "(handle O' (Some e) key ^^ Suc retry_limit) q
       = qo_Forget O' key ((qo_AddRateLimited O' key ^^ retry_limit) q)"
proof -
  let ?x = "(qo_AddRateLimited O' key ^^ retry_limit) q"
  have eq: "(handle O' (Some e) key ^^ retry_limit) q = ?x"
    and "qo_NumRequeues O' key ((handle O' (Some e) key ^^ retry_limit) q) = retry_limit"
    using failures_counted [OF assms order_refl] by blast+
  then have "\<not> qo_NumRequeues O' key ?x < retry_limit" by simp
  then have "handle O' (Some e) key ?x = qo_Forget O' key ?x" by (rule give_up [OF assms(2)])
  with eq show ?thesis by simp
qed

lemma other_keys:
  assumes "queue_laws O'" and "j \<noteq> key"
  shows "qo_NumRequeues O' j (handle O' err key q) = qo_NumRequeues O' j q"
  using assms by (auto simp: handled queue_laws_def)

end

section \<open>The contract of a worker\<close>

text \<open>
  A worker repeats an iteration until the queue is shut down: take a key, reconcile it, hand the
  result to the error handler, and mark the key done.
\<close>

locale queue_worker = retrying +
  fixes ops :: "'k queue_ops"
    and reconcile :: "string \<Rightarrow> 'w \<Rightarrow> gerror option \<times> 'w"
    and iteration :: "'w \<times> 'k \<Rightarrow> bool \<times> 'w \<times> 'k"
    and worker :: "'w \<times> 'k \<Rightarrow> ('w \<times> 'k) option"
  assumes shut_down: "qo_Get ops q = (None, q1) \<Longrightarrow> iteration (w, q) = (False, w, q1)"
    and one_key: "qo_Get ops q = (Some key, q1) \<Longrightarrow> reconcile key w = (err, w1) \<Longrightarrow>
        iteration (w, q) = (True, w1, qo_Done ops key (handle ops err key q1))"
    and repeats: "worker wq = (if fst (iteration wq) then worker (snd (iteration wq)) else Some (snd (iteration wq)))"
begin

text \<open>An iteration reconciles a key of the queue, if any, and brings in no other.\<close>

lemma takes_known_key:
  assumes L: "key_laws ops keys" and it: "iteration (w, q) = (cont, w1, q1)"
  shows "keys q1 \<subseteq> keys q \<and> (w1 = w \<or> (\<exists>key \<in> keys q. \<exists>err. reconcile key w = (err, w1)))"
proof -
  obtain k q2 where get: "qo_Get ops q = (k, q2)" by fastforce
  show ?thesis
  proof (cases k)
    case None
    with get it L show ?thesis by (auto simp: shut_down key_laws_def)
  next
    case (Some key)
    obtain err w2 where r: "reconcile key w = (err, w2)" by fastforce
    from get Some L have key: "key \<in> keys q" "keys q2 \<subseteq> keys q" by (auto simp: key_laws_def)
    have "keys (qo_Forget ops key q2) \<subseteq> keys q2" "keys (qo_AddRateLimited ops key q2) \<subseteq> insert key (keys q2)"
      using L unfolding key_laws_def by blast+
    then have "keys (handle ops err key q2) \<subseteq> insert key (keys q2)" by (auto simp: handled)
    then have "keys (qo_Done ops key (handle ops err key q2)) \<subseteq> insert key (keys q2)"
      using L unfolding key_laws_def by blast
    moreover have "w1 = w2" "q1 = qo_Done ops key (handle ops err key q2)"
      using one_key [of q key q2 w err w2] get Some r it by auto
    ultimately show ?thesis using key r by blast
  qed
qed

text \<open>A key whose reconciliation succeeds within the limit is retried until it does.\<close>

lemma recovers:
  assumes L: "retry_key_laws ops idle holding" and run: "retried (reconcile key) (qo_Terminating ops) m w w'"
    and "holding key n q" and "m + n \<le> retry_limit"
  shows "\<exists>q'. ((snd \<circ> iteration) ^^ Suc m) (w, q) = (w', q') \<and> idle q'"
  using run assms(3,4)
proof (induction arbitrary: n q rule: retried.induct)
  case (success w w')
  from L success.prems(1) obtain q1 where "qo_Get ops q = (Some key, q1)" "idle (qo_Done ops key (qo_Forget ops key q1))"
    unfolding retry_key_laws_def by blast
  with success.hyps show ?case by (simp add: one_key handled)
next
  case (failure w e w1 m w')
  from L failure.prems(1) obtain q1 where q1: "qo_Get ops q = (Some key, q1)" "qo_NumRequeues ops key q1 = n"
      "holding key (Suc n) (qo_Done ops key (qo_AddRateLimited ops key q1))"
    unfolding retry_key_laws_def by blast
  let ?q2 = "qo_Done ops key (qo_AddRateLimited ops key q1)"
  have "handle ops (Some e) key q1 = qo_AddRateLimited ops key q1"
    using failure.hyps(2) q1(2) failure.prems(2) by (intro retry) simp_all
  with q1(1) failure.hyps(1) have "iteration (w, q) = (True, w1, ?q2)" by (simp add: one_key)
  then have eq: "((snd \<circ> iteration) ^^ Suc (Suc m)) (w, q) = ((snd \<circ> iteration) ^^ Suc m) (w1, ?q2)"
    by (subst funpow_Suc_right) simp
  show ?case
    unfolding eq by (rule failure.IH [OF q1(3)]) (use failure.prems(2) in simp)
qed

text \<open>
  After a shutdown a worker returns: it takes each of the waiting keys, reconciles it once, and
  nothing it does brings one back.
\<close>

lemma drains:
  assumes L: "shutdown_laws ops shut waiting" and "shut q"
  shows "\<exists>n \<le> waiting q. worker (w, q) = Some (((snd \<circ> iteration) ^^ Suc n) (w, q)) \<and>
    waiting (snd (((snd \<circ> iteration) ^^ Suc n) (w, q))) = 0"
  using assms(2)
proof (induction "waiting q" arbitrary: w q rule: less_induct)
  case less
  obtain k q1 where get: "qo_Get ops q = (k, q1)" by fastforce
  show ?case
  proof (cases k)
    case None
    with get have it: "iteration (w, q) = (False, w, q1)" by (simp add: shut_down)
    then have "worker (w, q) = Some (w, q1)" using repeats [of "(w, q)"] by simp
    moreover have "waiting q1 = 0" using shutdown_lawsD(1) [OF L less.prems] get None by simp
    ultimately show ?thesis using it by (intro exI [of _ 0]) simp
  next
    case (Some key)
    obtain err w1 where r: "reconcile key w = (err, w1)" by fastforce
    let ?q2 = "qo_Done ops key (handle ops err key q1)"
    from get Some r have it: "iteration (w, q) = (True, w1, ?q2)" by (simp add: one_key)
    have q1: "shut q1" "waiting q1 < waiting q"
      using shutdown_lawsD(2,3) [OF L less.prems] get Some by auto
    have h: "shut (handle ops err key q1)" "waiting (handle ops err key q1) \<le> waiting q1"
      using handled [of ops err key q1] shutdown_lawsD(4-7) [OF L q1(1)] by (auto split: if_splits)
    have q2: "shut ?q2" "waiting ?q2 < waiting q"
      using shutdown_lawsD(8,9) [OF L h(1), of key] h(2) q1(2) by auto
    from less.hyps [OF q2(2,1), of w1] obtain n where n: "n \<le> waiting ?q2"
      "worker (w1, ?q2) = Some (((snd \<circ> iteration) ^^ Suc n) (w1, ?q2))"
      "waiting (snd (((snd \<circ> iteration) ^^ Suc n) (w1, ?q2))) = 0" by blast
    have "((snd \<circ> iteration) ^^ Suc (Suc n)) (w, q) = ((snd \<circ> iteration) ^^ Suc n) (w1, ?q2)"
      by (subst funpow_Suc_right) (simp add: it)
    moreover have "worker (w, q) = worker (w1, ?q2)" using repeats [of "(w, q)"] it by simp
    ultimately show ?thesis using n q2(2) by (intro exI [of _ "Suc n"]) auto
  qed
qed

end

end
