(* ===== verification/LS_Plugin.thy ===== *)
theory LS_Plugin
  imports LS_Ledger LS_Worker
begin

text \<open>
  \<^verbatim>\<open>pkg/localstorage/localstorage.go\<close>: the plugin's constructor, its event filter, the
  reconciliation of one localstorage object (\<open>sync\<close>) and the worker that feeds it from the
  queue. \<open>sync\<close> takes the same mutex as the CSI handlers, so it is one step as well.
\<close>

section \<open>Construction and event handlers\<close>

definition NewLocalStorage :: "Config \<Rightarrow> gerror + Config" where
  "NewLocalStorage cfg =
     (if cf_DriverName cfg = [] then Inl (FmtError ''no driver name provided'')
      else if cf_NodeId cfg = [] then Inl (FmtError ''no node id provided'')
      else Inr cfg)"

text \<open>An informer event carries a localstorage or an object of another type.\<close>

datatype 'q event_object = LsObject "'q LocalStorage" | OtherObject

fun plugin_FilterFunc :: "Config \<Rightarrow> 'q event_object \<Rightarrow> bool" where
  "plugin_FilterFunc cfg (LsObject t) = AssignedLocalstorage t (cf_NodeId cfg)"
| "plugin_FilterFunc cfg OtherObject = False"

text \<open>The queue key of a cluster-scoped object is its name (\<open>KeyFunc\<close>).\<close>

definition plugin_enqueue :: "'k queue_ops \<Rightarrow> 'q LocalStorage \<Rightarrow> 'k \<Rightarrow> 'k" where
  "plugin_enqueue O' s q = qo_Add O' (ls_Name s) q"

definition plugin_addStorage :: "'k queue_ops \<Rightarrow> 'q LocalStorage \<Rightarrow> 'k \<Rightarrow> 'k" where
  "plugin_addStorage O' obj q = plugin_enqueue O' obj q"

definition plugin_updateStorage ::
    "'k queue_ops \<Rightarrow> 'q LocalStorage \<Rightarrow> 'q LocalStorage \<Rightarrow> 'k \<Rightarrow> 'k" where
  "plugin_updateStorage O' old cur q = plugin_enqueue O' cur q"

definition GetNode :: "Config \<Rightarrow> string" where
  "GetNode cfg = cf_NodeId cfg"

section \<open>sync\<close>

definition annNodeSize :: string where
  "annNodeSize = ''volume.caoyingjunz.io/node-size''"

definition defaultPathSize :: string where
  "defaultPathSize = ''500Gi''"

definition makeVolumeDir :: "string \<Rightarrow> fs \<Rightarrow> gerror option \<times> fs" where
  "makeVolumeDir volDir f =
     (case os_Stat volDir f of
        Inr _ \<Rightarrow> (None, f)
      | Inl err \<Rightarrow> if \<not> IsNotExist err then (Some err, f) else os_MkdirAll volDir ModePerm f)"

text \<open>
  The body of \<open>sync\<close> once the object is read: \<open>path_setup\<close> is the block that handles a path
  backend (parsing the node size, making the base directory).
\<close>

definition node_size :: "'q LocalStorage \<Rightarrow> string" where
  "node_size l = (case om_Annotations (ls_Meta l) annNodeSize of
                    None \<Rightarrow> defaultPathSize | Some s \<Rightarrow> s)"

definition path_setup ::
    "'q quantity_ops \<Rightarrow> 'q LocalStorage \<Rightarrow> PathSpec \<Rightarrow> fs \<Rightarrow> (gerror + 'q) \<times> fs" where
  "path_setup Q l p f =
     (case q_Parse Q (node_size l) of
        Inl err \<Rightarrow> (Inl (FmtErrorV ''failed to parse node quantity: '' err), f)
      | Inr quantity \<Rightarrow>
          (case makeVolumeDir (ps_VolumeDir p) f of
             (Some err, f1) \<Rightarrow> (Inl err, f1)
           | (None, f1) \<Rightarrow> (Inr quantity, f1)))"

definition sync ::
    "'q quantity_ops \<Rightarrow> ('q, 'a) services \<Rightarrow> string \<Rightarrow> 'a world \<Rightarrow> gerror option \<times> 'a world" where
  "sync Q S dKey w =
     (case lister_Get S dKey (w_sv w) of
        Inl err \<Rightarrow> if sv_IsNotFound S err then (None, w) else (Some err, w)
      | Inr l \<Rightarrow>
          if LocalStorageIsPending l then
            (case UpdateLocalStoragePhase S l LocalStorageInitiating (w_sv w) of
               (r, a1) \<Rightarrow> (r, w\<lparr>w_sv := a1\<rparr>))
          else if sp_Path (ls_Spec l) = None \<and> sp_Lvm (ls_Spec l) = None then (None, w)
          else if sp_Path (ls_Spec l) \<noteq> None \<and> sp_Lvm (ls_Spec l) \<noteq> None then
            (Some (FmtError ''spec.path and spec.lvm can only be used at most one''), w)
          else (case sp_Path (ls_Spec l) of
                  None \<Rightarrow> (None, w) \<comment> \<open>the backend is lvm: unsupported\<close>
                | Some p \<Rightarrow>
                    (case path_setup Q l p (w_fs w) of
                       (Inl err, f1) \<Rightarrow> (Some err, w\<lparr>w_fs := f1\<rparr>)
                     | (Inr quantity, f1) \<Rightarrow>
                         (case UpdateLocalStoragePhase S
                                 (set_Allocatable (Some quantity) (set_Capacity (Some quantity) l))
                                 LocalStorageReady (w_sv w) of
                            (r, a1) \<Rightarrow> (r, \<lparr>w_fs = f1, w_sv = a1\<rparr>)))))"

section \<open>The worker\<close>

definition maxRetries :: nat where
  "maxRetries = 15"

definition plugin_handleErr :: "'k queue_ops \<Rightarrow> gerror option \<Rightarrow> string \<Rightarrow> 'k \<Rightarrow> 'k" where
  "plugin_handleErr O' err key q =
     (case err of
        None \<Rightarrow> qo_Forget O' key q
      | Some e \<Rightarrow>
          if qo_Terminating O' e then qo_Forget O' key q
          else if qo_NumRequeues O' key q < maxRetries then qo_AddRateLimited O' key q
          else qo_Forget O' key q)"

definition plugin_processNextWorkItem ::
    "'q quantity_ops \<Rightarrow> ('q, 'a) services \<Rightarrow> 'k queue_ops \<Rightarrow> 'a world \<times> 'k \<Rightarrow>
     bool \<times> 'a world \<times> 'k" where
  "plugin_processNextWorkItem Q S O' wq =
     (case wq of (w, q) \<Rightarrow>
       (case qo_Get O' q of
          (None, q1) \<Rightarrow> (False, w, q1)
        | (Some key, q1) \<Rightarrow>
            (case sync Q S key w of
               (err, w1) \<Rightarrow> (True, w1, qo_Done O' key (plugin_handleErr O' err key q1)))))"

text \<open>\<open>for ls.processNextWorkItem(ctx) {}\<close>: runs until the queue is shut down, maybe forever.\<close>

partial_function (option) plugin_worker ::
    "'q quantity_ops \<Rightarrow> ('q, 'a) services \<Rightarrow> 'k queue_ops \<Rightarrow> 'a world \<times> 'k \<Rightarrow>
     ('a world \<times> 'k) option" where
  "plugin_worker Q S O' wq =
     (case plugin_processNextWorkItem Q S O' wq of
        (cont, wq1) \<Rightarrow> if cont then plugin_worker Q S O' wq1 else Some wq1)"

interpretation plugin_retry: retrying plugin_handleErr
  by unfold_locales (simp_all add: plugin_handleErr_def maxRetries_def retry_limit_def)

interpretation plugin_loop: queue_worker plugin_handleErr O' "sync Q S"
  "plugin_processNextWorkItem Q S O'" "plugin_worker Q S O'"
  for Q :: "'q quantity_ops" and S :: "('q, 'a) services" and O' :: "'k queue_ops"
proof unfold_locales
  fix wq :: "'a world \<times> 'k"
  show "plugin_worker Q S O' wq = (if fst (plugin_processNextWorkItem Q S O' wq)
      then plugin_worker Q S O' (snd (plugin_processNextWorkItem Q S O' wq))
      else Some (snd (plugin_processNextWorkItem Q S O' wq)))"
    by (subst plugin_worker.simps) (simp split: prod.split)
qed (simp_all add: plugin_processNextWorkItem_def)

section \<open>What sync does\<close>

lemma UpdateLocalStoragePhase_runs:
  "UpdateLocalStoragePhase S l p a = (r, a') \<Longrightarrow>
   \<exists>u. sv_Update S (set_Phase p l) a = (u, a') \<and> (r = None \<longleftrightarrow> (\<exists>o'. u = Inr o'))"
  by (auto simp: UpdateLocalStoragePhase_def TryUpdateLocalStorage_def split: prod.splits sum.splits)

definition initialised :: "'q \<Rightarrow> 'q LocalStorage \<Rightarrow> 'q LocalStorage" where
  "initialised quantity l =
     set_Phase LocalStorageReady
       (set_Allocatable (Some quantity) (set_Capacity (Some quantity) l))"

lemma initialised_simps [simp]:
  "ls_Spec (initialised q l) = ls_Spec l" "ls_Meta (initialised q l) = ls_Meta l"
  "ls_Phase (initialised q l) = LocalStorageReady" "ls_Volumes (initialised q l) = ls_Volumes l"
  "st_Allocatable (ls_Status (initialised q l)) = Some q"
  "st_Capacity (ls_Status (initialised q l)) = Some q"
  by (simp_all add: initialised_def)

text \<open>The runs of \<open>sync\<close>: idle, promoting a pending object, or initialising a path backend.\<close>

lemma sync_cases:
  assumes "sync Q S dKey w = (r, w')"
  obtains (idle) f1 where "w' = w\<lparr>w_fs := f1\<rparr>"
  | (promote) l u a1 where "lister_Get S dKey (w_sv w) = Inr l" "LocalStorageIsPending l"
      "sv_Update S (set_Phase LocalStorageInitiating l) (w_sv w) = (u, a1)"
      "w' = w\<lparr>w_sv := a1\<rparr>" "r = None \<longleftrightarrow> (\<exists>o'. u = Inr o')"
  | (initialise) l p quantity f1 u a1 where "lister_Get S dKey (w_sv w) = Inr l"
      "\<not> LocalStorageIsPending l" "sp_Path (ls_Spec l) = Some p" "sp_Lvm (ls_Spec l) = None"
      "q_Parse Q (node_size l) = Inr quantity"
      "makeVolumeDir (ps_VolumeDir p) (w_fs w) = (None, f1)"
      "sv_Update S (initialised quantity l) (w_sv w) = (u, a1)"
      "w' = \<lparr>w_fs = f1, w_sv = a1\<rparr>" "r = None \<longleftrightarrow> (\<exists>o'. u = Inr o')"
proof (cases "lister_Get S dKey (w_sv w)")
  case (Inl e)
  with assms have "w' = w\<lparr>w_fs := w_fs w\<rparr>" by (auto simp: sync_def split: if_splits)
  then show ?thesis by (rule idle)
next
  case l: (Inr l)
  show ?thesis
  proof (cases "LocalStorageIsPending l")
    case True
    obtain r1 a1 where u: "UpdateLocalStoragePhase S l LocalStorageInitiating (w_sv w) = (r1, a1)"
      by fastforce
    with True l assms have "r = r1" "w' = w\<lparr>w_sv := a1\<rparr>" by (simp_all add: sync_def)
    with UpdateLocalStoragePhase_runs [OF u] True l show ?thesis by (auto intro: promote)
  next
    case np: False
    show ?thesis
    proof (cases "\<exists>p. sp_Path (ls_Spec l) = Some p \<and> sp_Lvm (ls_Spec l) = None")
      case False
      with np l assms have "w' = w\<lparr>w_fs := w_fs w\<rparr>"
        by (auto simp: sync_def split: if_splits option.splits)
      then show ?thesis by (rule idle)
    next
      case True
      then obtain p where p: "sp_Path (ls_Spec l) = Some p" "sp_Lvm (ls_Spec l) = None" by auto
      obtain s f1 where s: "path_setup Q l p (w_fs w) = (s, f1)" by fastforce
      show ?thesis
      proof (cases s)
        case (Inl e)
        with np l p s assms have "w' = w\<lparr>w_fs := f1\<rparr>" by (simp add: sync_def)
        then show ?thesis by (rule idle)
      next
        case (Inr quantity)
        with s have q: "q_Parse Q (node_size l) = Inr quantity"
            "makeVolumeDir (ps_VolumeDir p) (w_fs w) = (None, f1)"
          by (auto simp: path_setup_def split: sum.splits prod.splits option.splits)
        obtain r1 a1 where u: "UpdateLocalStoragePhase S
            (set_Allocatable (Some quantity) (set_Capacity (Some quantity) l)) LocalStorageReady (w_sv w)
            = (r1, a1)" by fastforce
        with np l p s Inr assms have "r = r1" "w' = \<lparr>w_fs = f1, w_sv = a1\<rparr>"
          by (simp_all add: sync_def)
        with UpdateLocalStoragePhase_runs [OF u] np l p q show ?thesis
          by (auto simp: initialised_def [symmetric] intro: initialise)
      qed
    qed
  qed
qed

lemma set_Phase_balanced [simp]: "balanced val (set_Phase p l) = balanced val l"
  by (auto simp: balanced_def split: option.splits)

lemma lister_current:
  assumes "cache_contract S stored" and "lister_Get S k a = Inr l"
    and "stored a (ls_Name l) = Some cur" and "ls_Version cur = ls_Version l"
  shows "cur = l"
  using assms unfolding cache_contract_def lister_Get_Inr by metis

end
