(* ===== verification/LS_Controller.thy ===== *)
theory LS_Controller
  imports LS_Plugin
begin

text \<open>
  \<^verbatim>\<open>pkg/controller/storage/storage_controller.go\<close>: the cluster controller. It moves a pending
  object to \<open>Initiating\<close> and an object under deletion to \<open>Terminating\<close>, and records an event.
  The five workers of \<open>Run\<close> share the queue, which hands a key to one worker at a time; a
  worker's iteration is \<open>controller_processNextWorkItem\<close>.
\<close>

section \<open>Event handlers\<close>

text \<open>
  Delete events may carry a tombstone with the last known object, or with something else.
\<close>

datatype 'q deleted_object = DeletedObject "'q event_object" | Tombstone "'q event_object"

definition controller_enqueue :: "'k queue_ops \<Rightarrow> 'q LocalStorage \<Rightarrow> 'k \<Rightarrow> 'k" where
  "controller_enqueue O' ls q = qo_Add O' (ls_Name ls) q"

fun controller_addStorage :: "'k queue_ops \<Rightarrow> 'q event_object \<Rightarrow> 'k \<Rightarrow> 'k" where
  "controller_addStorage O' (LsObject ls) q = controller_enqueue O' ls q"
| "controller_addStorage O' OtherObject q = q"

definition controller_updateStorage ::
    "'k queue_ops \<Rightarrow> 'q LocalStorage \<Rightarrow> 'q LocalStorage \<Rightarrow> 'k \<Rightarrow> 'k" where
  "controller_updateStorage O' old cur q = controller_enqueue O' cur q"

fun controller_deleteStorage :: "'k queue_ops \<Rightarrow> 'q deleted_object \<Rightarrow> 'k \<Rightarrow> 'k" where
  "controller_deleteStorage O' (DeletedObject (LsObject ls)) q = controller_enqueue O' ls q"
| "controller_deleteStorage O' (DeletedObject OtherObject) q = q"
| "controller_deleteStorage O' (Tombstone (LsObject ls)) q = controller_enqueue O' ls q"
| "controller_deleteStorage O' (Tombstone OtherObject) q = q"

definition controller_enqueueRateLimited :: "'k queue_ops \<Rightarrow> 'q LocalStorage \<Rightarrow> 'k \<Rightarrow> 'k" where
  "controller_enqueueRateLimited O' ls q = qo_AddRateLimited O' (ls_Name ls) q"

definition controller_enqueueAfter :: "'k queue_ops \<Rightarrow> 'q LocalStorage \<Rightarrow> int \<Rightarrow> 'k \<Rightarrow> 'k" where
  "controller_enqueueAfter O' ls after q = qo_AddAfter O' (ls_Name ls) after q"

section \<open>syncStorage\<close>

text \<open>The world of the controller: what is behind the services, and the events recorded.\<close>

record 'a control =
  c_sv :: 'a
  c_events :: "(string \<times> string) list"

definition syncStorage ::
    "('q, 'a) services \<Rightarrow> string \<Rightarrow> 'a control \<Rightarrow> gerror option \<times> 'a control" where
  "syncStorage S dKey c =
     (case lister_Get S dKey (c_sv c) of
        Inl err \<Rightarrow> if sv_IsNotFound S err then (None, c) else (Some err, c)
      | Inr ls \<Rightarrow>
          if \<not> IsZero (om_DeletionTimestamp (ls_Meta ls)) then
            (if \<not> LocalStorageIsTerminating ls then
               (case TryUpdateLocalStorage S (SetLocalStoragePhase ls LocalStorageTerminating) (c_sv c) of
                  (r, a1) \<Rightarrow> (r, c\<lparr>c_sv := a1\<rparr>))
             else (None, c))
          else if LocalStorageIsPending ls then
            (case TryUpdateLocalStorage S (SetLocalStoragePhase ls LocalStorageInitiating) (c_sv c) of
               (Some err, a1) \<Rightarrow> (Some err, c\<lparr>c_sv := a1\<rparr>)
             | (None, a1) \<Rightarrow>
                 (None, c\<lparr>c_sv := a1,
                          c_events := c_events c @
                            [(''initialize'',
                              ''waiting for plugin to initialize '' @ ls_Name ls @ '' localstorage'')]\<rparr>))
          else (None, c))"

section \<open>The worker\<close>

definition controller_maxRetries :: nat where
  "controller_maxRetries = 15"

definition controller_handleErr :: "'k queue_ops \<Rightarrow> gerror option \<Rightarrow> string \<Rightarrow> 'k \<Rightarrow> 'k" where
  "controller_handleErr O' err key q =
     (case err of
        None \<Rightarrow> qo_Forget O' key q
      | Some e \<Rightarrow>
          if qo_Terminating O' e then qo_Forget O' key q
          else if qo_NumRequeues O' key q < controller_maxRetries then qo_AddRateLimited O' key q
          else qo_Forget O' key q)"

definition controller_processNextWorkItem ::
    "('q, 'a) services \<Rightarrow> 'k queue_ops \<Rightarrow> 'a control \<times> 'k \<Rightarrow> bool \<times> 'a control \<times> 'k" where
  "controller_processNextWorkItem S O' cq =
     (case cq of (c, q) \<Rightarrow>
       (case qo_Get O' q of
          (None, q1) \<Rightarrow> (False, c, q1)
        | (Some key, q1) \<Rightarrow>
            (case syncStorage S key c of
               (err, c1) \<Rightarrow> (True, c1, qo_Done O' key (controller_handleErr O' err key q1)))))"

partial_function (option) controller_worker ::
    "('q, 'a) services \<Rightarrow> 'k queue_ops \<Rightarrow> 'a control \<times> 'k \<Rightarrow> ('a control \<times> 'k) option" where
  "controller_worker S O' cq =
     (case controller_processNextWorkItem S O' cq of
        (cont, cq1) \<Rightarrow> if cont then controller_worker S O' cq1 else Some cq1)"

interpretation controller_retry: retrying controller_handleErr
  by unfold_locales (simp_all add: controller_handleErr_def controller_maxRetries_def retry_limit_def)

interpretation controller_loop: queue_worker controller_handleErr O' "syncStorage S"
  "controller_processNextWorkItem S O'" "controller_worker S O'"
  for S :: "('q, 'a) services" and O' :: "'k queue_ops"
proof unfold_locales
  fix cq :: "'a control \<times> 'k"
  show "controller_worker S O' cq = (if fst (controller_processNextWorkItem S O' cq)
      then controller_worker S O' (snd (controller_processNextWorkItem S O' cq))
      else Some (snd (controller_processNextWorkItem S O' cq)))"
    by (subst controller_worker.simps) (simp split: prod.split)
qed (simp_all add: controller_processNextWorkItem_def)

section \<open>What syncStorage does\<close>

text \<open>The phase an object is moved to, if any.\<close>

definition next_phase :: "'q LocalStorage \<Rightarrow> LocalStoragePhase option" where
  "next_phase ls =
     (if being_deleted ls then
        (if LocalStorageIsTerminating ls then None else Some LocalStorageTerminating)
      else if LocalStorageIsPending ls then Some LocalStorageInitiating else None)"

lemma TryUpdate_runs:
  "TryUpdateLocalStorage S l a = (r, a') \<Longrightarrow>
   \<exists>u. sv_Update S l a = (u, a') \<and> (r = None \<longleftrightarrow> (\<exists>o'. u = Inr o'))"
  by (auto simp: TryUpdateLocalStorage_def split: prod.splits sum.splits)

lemma syncStorage_cases:
  assumes "syncStorage S dKey c = (r, c')"
  obtains (idle) "c' = c"
  | (move) l p u a1 where "lister_Get S dKey (c_sv c) = Inr l" "next_phase l = Some p"
      "sv_Update S (set_Phase p l) (c_sv c) = (u, a1)" "c_sv c' = a1" "r = None \<longleftrightarrow> (\<exists>o'. u = Inr o')"
proof (cases "lister_Get S dKey (c_sv c)")
  case (Inl e)
  with assms have "c' = c" by (auto simp: syncStorage_def split: if_splits)
  then show ?thesis by (rule idle)
next
  case l: (Inr l)
  show ?thesis
  proof (cases "next_phase l")
    case None
    with l assms have "c' = c"
      by (auto simp: syncStorage_def next_phase_def being_deleted_def split: if_splits)
    then show ?thesis by (rule idle)
  next
    case (Some p)
    obtain r1 a1 where u: "TryUpdateLocalStorage S (set_Phase p l) (c_sv c) = (r1, a1)" by fastforce
    with l Some assms have "r = r1" "c_sv c' = a1"
      by (auto simp: syncStorage_def next_phase_def being_deleted_def SetLocalStoragePhase_def
          split: if_splits option.splits)
    with TryUpdate_runs [OF u] l Some show ?thesis by (auto intro: move)
  qed
qed

end
