(* ===== verification/LS_Pvc.thy ===== *)
theory LS_Pvc
  imports LS_StorageUtil
begin

text \<open>
  How the scheduler extender finds the claim of a pod: the polling wait of \<^verbatim>\<open>pkg/util/util.go\<close>
  and the loop over the pod's volumes of \<^verbatim>\<open>pkg/util/storage/storage.go\<close>. The clock is part of
  the outside state: reading it and sleeping advance the state, and the informers' listers are
  read at the current state. The wait is a loop with no bound in the code, so it is a partial
  function into \<open>option\<close> (\<open>None\<close>: does not return); that it returns is a theorem about
  clocks that respect \<open>time.Sleep\<close>.
\<close>

section \<open>Objects and services\<close>

record 'q pvc =
  pvc_Name :: string
  pvc_StorageClassName :: "string option"
  pvc_Requests :: "string \<rightharpoonup> 'q"

record storage_class =
  sc_Provisioner :: string

text \<open>For each volume of a pod, the claim name if it is a persistent volume claim.\<close>

record pod =
  pod_Name :: string
  pod_Namespace :: string
  pod_Volumes :: "string option list"

text \<open>
  \<open>co_GetPVC\<close> and \<open>co_GetSC\<close>: the listers' \<open>Get\<close>; \<open>co_Now\<close>, \<open>co_Sleep\<close>: \<open>time.Now\<close> and
  \<open>time.Sleep\<close>, in nanoseconds.
\<close>

record ('q, 'a) cluster_ops =
  co_GetPVC :: "string \<Rightarrow> string \<Rightarrow> 'a \<Rightarrow> gerror + 'q pvc"
  co_GetSC :: "string \<Rightarrow> 'a \<Rightarrow> gerror + storage_class"
  co_Now :: "'a \<Rightarrow> int \<times> 'a"
  co_Sleep :: "int \<Rightarrow> 'a \<Rightarrow> 'a"

text \<open>What \<open>time\<close> documents: the monotonic clock does not go back, and a sleep of \<open>d\<close> lasts at
  least \<open>d\<close>. \<open>tm\<close> is the time at a state.\<close>

definition clock_laws :: "('q, 'a) cluster_ops \<Rightarrow> ('a \<Rightarrow> int) \<Rightarrow> bool" where
  "clock_laws K tm \<longleftrightarrow>
     (\<forall>a. tm a \<le> fst (co_Now K a) \<and> fst (co_Now K a) \<le> tm (snd (co_Now K a))) \<and>
     (\<forall>a d. tm a + d \<le> tm (co_Sleep K d a))"

section \<open>WaitUntilPersistentVolumeClaimIsCreated\<close>

definition Millisecond :: int where "Millisecond = 1000000"
definition Second :: int where "Second = 1000 * Millisecond"

definition pollingPeriod :: int where
  "pollingPeriod = 200 * Millisecond"

partial_function (option) poll_loop ::
    "('q, 'a) cluster_ops \<Rightarrow> string \<Rightarrow> string \<Rightarrow> int \<Rightarrow> int \<Rightarrow> 'a \<Rightarrow>
     ((gerror + 'q pvc) \<times> 'a) option" where
  "poll_loop K namespace name timeout startTime a =
     (case co_Now K a of (now, a1) \<Rightarrow>
        if now < startTime + timeout then
          (case co_GetPVC K namespace name (co_Sleep K pollingPeriod a1) of
             Inr pvc \<Rightarrow> Some (Inr pvc, co_Sleep K pollingPeriod a1)
           | Inl _ \<Rightarrow> poll_loop K namespace name timeout startTime (co_Sleep K pollingPeriod a1))
        else Some (Inl (FmtErrorDur ''timed out after '' timeout
                     ('' when waiting for pvc '' @ namespace @ ''/'' @ name @ '' to created'')), a1))"

definition WaitUntilPersistentVolumeClaimIsCreated ::
    "('q, 'a) cluster_ops \<Rightarrow> string \<Rightarrow> string \<Rightarrow> int \<Rightarrow> 'a \<Rightarrow>
     ((gerror + 'q pvc) \<times> 'a) option" where
  "WaitUntilPersistentVolumeClaimIsCreated K namespace name timeout a =
     (case co_GetPVC K namespace name a of
        Inr pvc \<Rightarrow> Some (Inr pvc, a)
      | Inl _ \<Rightarrow>
          (case co_Now K a of
             (startTime, a1) \<Rightarrow> poll_loop K namespace name timeout startTime a1))"

section \<open>GetLocalStoragePersistentVolumeClaimFromPod\<close>

definition DefaultDriverName :: string where
  "DefaultDriverName = ''localstorage.csi.caoyingjunz.io''"

fun claim_loop ::
    "('q, 'a) cluster_ops \<Rightarrow> string \<Rightarrow> string option list \<Rightarrow> 'a \<Rightarrow>
     ((gerror + 'q pvc option) \<times> 'a) option" where
  "claim_loop K namespace [] a = Some (Inr None, a)"
| "claim_loop K namespace (None # volumes) a = claim_loop K namespace volumes a"
| "claim_loop K namespace (Some claimName # volumes) a =
     (case WaitUntilPersistentVolumeClaimIsCreated K namespace claimName (2 * Second) a of
        None \<Rightarrow> None
      | Some (Inl err, a1) \<Rightarrow> Some (Inl err, a1)
      | Some (Inr pvc, a1) \<Rightarrow>
          (case pvc_StorageClassName pvc of
             None \<Rightarrow> claim_loop K namespace volumes a1
           | Some storageClassName \<Rightarrow>
               if length storageClassName = 0 then claim_loop K namespace volumes a1
               else (case co_GetSC K storageClassName a1 of
                       Inl err \<Rightarrow> Some (Inl (FmtErrorV
                         (''failed to get sc '' @ storageClassName @ '' from indexer: '') err), a1)
                     | Inr sc \<Rightarrow>
                         if sc_Provisioner sc = DefaultDriverName then Some (Inr (Some pvc), a1)
                         else claim_loop K namespace volumes a1)))"

definition GetLocalStoragePersistentVolumeClaimFromPod ::
    "('q, 'a) cluster_ops \<Rightarrow> pod \<Rightarrow> 'a \<Rightarrow> ((gerror + 'q pvc option) \<times> 'a) option" where
  "GetLocalStoragePersistentVolumeClaimFromPod K p a =
     (if length (pod_Volumes p) = 0 then Some (Inr None, a)
      else claim_loop K (pod_Namespace p) (pod_Volumes p) a)"

definition PodIsUseLocalStorage ::
    "('q, 'a) cluster_ops \<Rightarrow> pod \<Rightarrow> 'a \<Rightarrow> ((gerror + bool) \<times> 'a) option" where
  "PodIsUseLocalStorage K p a =
     (case GetLocalStoragePersistentVolumeClaimFromPod K p a of
        None \<Rightarrow> None
      | Some (Inl err, a1) \<Rightarrow> Some (Inl err, a1)
      | Some (Inr pvc, a1) \<Rightarrow> Some (Inr (pvc \<noteq> None), a1))"

section \<open>The wait returns\<close>

lemma poll_loop_returns:
  assumes laws: "clock_laws K tm"
    and "startTime + timeout \<le> tm a + int n * pollingPeriod"
  shows "\<exists>r. poll_loop K ns name timeout startTime a = Some r"
  using assms(2)
proof (induction n arbitrary: a)
  case 0
  have "tm a \<le> fst (co_Now K a)" using laws by (simp add: clock_laws_def)
  with 0 have "\<not> fst (co_Now K a) < startTime + timeout" by simp
  then show ?case by (subst poll_loop.simps) (auto split: prod.split)
next
  case (Suc n)
  obtain now a1 where now: "co_Now K a = (now, a1)" by fastforce
  let ?a2 = "co_Sleep K pollingPeriod a1"
  have "tm a \<le> now" "now \<le> tm a1" "tm a1 + pollingPeriod \<le> tm ?a2"
    using laws now unfolding clock_laws_def by (metis fst_conv snd_conv)+
  moreover have "int (Suc n) * pollingPeriod = int n * pollingPeriod + pollingPeriod"
    by (simp add: algebra_simps)
  ultimately have "startTime + timeout \<le> tm ?a2 + int n * pollingPeriod"
    using Suc.prems by linarith
  from Suc.IH [OF this] show ?case
    using now by (subst poll_loop.simps) (auto split: sum.split)
qed

lemma Wait_returns:
  assumes "clock_laws K tm" and "timeout \<le> int n * pollingPeriod"
  shows "\<exists>r. WaitUntilPersistentVolumeClaimIsCreated K ns name timeout a = Some r"
proof (cases "co_GetPVC K ns name a")
  case (Inr p)
  then show ?thesis by (simp add: WaitUntilPersistentVolumeClaimIsCreated_def)
next
  case (Inl e)
  obtain s a1 where s: "co_Now K a = (s, a1)" by fastforce
  then have "s \<le> tm a1" using assms(1) unfolding clock_laws_def by (metis fst_conv snd_conv)
  with assms(2) have "s + timeout \<le> tm a1 + int n * pollingPeriod" by linarith
  from poll_loop_returns [OF assms(1) this] Inl s show ?thesis
    by (simp add: WaitUntilPersistentVolumeClaimIsCreated_def)
qed

lemma two_seconds: "2 * Second \<le> int 10 * pollingPeriod"
  by (simp add: Second_def pollingPeriod_def)

lemma claim_loop_returns:
  assumes "clock_laws K tm" shows "\<exists>r. claim_loop K ns vs a = Some r"
proof (induction vs arbitrary: a)
  case Nil
  then show ?case by simp
next
  case (Cons v vs)
  show ?case
  proof (cases v)
    case None
    with Cons show ?thesis by simp
  next
    case (Some c)
    obtain r where "WaitUntilPersistentVolumeClaimIsCreated K ns c (2 * Second) a = Some r"
      using Wait_returns [OF assms two_seconds] by blast
    with Some Cons show ?thesis
      by (cases r) (auto split: sum.split option.split)
  qed
qed

lemma pod_claim_returns:
  "clock_laws K tm \<Longrightarrow> \<exists>r. GetLocalStoragePersistentVolumeClaimFromPod K p a = Some r"
  using claim_loop_returns [of K tm "pod_Namespace p" "pod_Volumes p" a]
  by (simp add: GetLocalStoragePersistentVolumeClaimFromPod_def)

section \<open>What is found\<close>

lemma poll_loop_found:
  assumes "poll_loop K ns name t s a = Some (r, b)"
  shows "r = Inr p \<longrightarrow> co_GetPVC K ns name b = Inr p"
proof -
  have "\<forall>p. fst rb = Inr p \<longrightarrow> co_GetPVC K ns name (snd rb) = Inr p"
    if "poll_loop K ns name t s a = Some rb" for rb
  proof (rule poll_loop.raw_induct [where P = "\<lambda>K ns name t s a rb.
      \<forall>p. fst rb = Inr p \<longrightarrow> co_GetPVC K ns name (snd rb) = Inr p", OF _ that])
    fix poll K ns name t s a rb
    assume "\<And>K ns name t s a rb. poll K ns name t s a = Some rb \<Longrightarrow>
        \<forall>p. fst rb = Inr p \<longrightarrow> co_GetPVC K ns name (snd rb) = Inr p"
      and "(case co_Now K a of (now, a1) \<Rightarrow>
        if now < s + t then
          (case co_GetPVC K ns name (co_Sleep K pollingPeriod a1) of
             Inl _ \<Rightarrow> poll K ns name t s (co_Sleep K pollingPeriod a1)
           | Inr pvc \<Rightarrow> Some (Inr pvc, co_Sleep K pollingPeriod a1))
        else Some (Inl (FmtErrorDur ''timed out after '' t
                     ('' when waiting for pvc '' @ ns @ ''/'' @ name @ '' to created'')), a1)) = Some rb"
    then show "\<forall>p. fst rb = Inr p \<longrightarrow> co_GetPVC K ns name (snd rb) = Inr p"
      by (auto split: prod.splits if_splits sum.splits)
  qed
  with assms show ?thesis by fastforce
qed

lemma Wait_found:
  "WaitUntilPersistentVolumeClaimIsCreated K ns name t a = Some (Inr p, b) \<Longrightarrow>
   co_GetPVC K ns name b = Inr p"
  by (auto simp: WaitUntilPersistentVolumeClaimIsCreated_def split: sum.splits prod.splits
      dest: poll_loop_found)

text \<open>A claim that is returned belongs to a volume of the pod and its class is the driver's.\<close>

definition local_claim ::
    "('q, 'a) cluster_ops \<Rightarrow> string \<Rightarrow> string option list \<Rightarrow> 'q pvc \<Rightarrow> bool" where
  "local_claim K ns vs p \<longleftrightarrow>
     (\<exists>c a n sc. Some c \<in> set vs \<and> co_GetPVC K ns c a = Inr p \<and> pvc_StorageClassName p = Some n \<and>
        co_GetSC K n a = Inr sc \<and> sc_Provisioner sc = DefaultDriverName)"

lemma local_claim_Cons: "local_claim K ns vs p \<Longrightarrow> local_claim K ns (v # vs) p"
  unfolding local_claim_def by (metis list.set_intros(2))

lemma claim_loop_found:
  "claim_loop K ns vs a = Some (Inr (Some p), b) \<Longrightarrow> local_claim K ns vs p"
proof (induction vs arbitrary: a)
  case Nil
  then show ?case by simp
next
  case (Cons v vs)
  show ?case
  proof (cases v)
    case None
    with Cons show ?thesis by (simp add: local_claim_Cons)
  next
    case c: (Some c)
    obtain r a1 where w: "WaitUntilPersistentVolumeClaimIsCreated K ns c (2 * Second) a = Some (r, a1)"
      using Cons.prems c by (auto split: option.splits)
    show ?thesis
    proof (cases r)
      case (Inl e)
      with w c Cons.prems show ?thesis by simp
    next
      case (Inr pvc)
      have get: "co_GetPVC K ns c a1 = Inr pvc" by (rule Wait_found [OF w [unfolded Inr]])
      consider (later) "claim_loop K ns vs a1 = Some (Inr (Some p), b)"
        | (here) n sc where "pvc = p" "pvc_StorageClassName pvc = Some n" "co_GetSC K n a1 = Inr sc"
            "sc_Provisioner sc = DefaultDriverName"
        using Cons.prems w Inr c by (auto split: option.splits if_splits sum.splits)
      then show ?thesis
      proof cases
        case later
        then show ?thesis by (intro local_claim_Cons Cons.IH)
      next
        case here
        with get c show ?thesis unfolding local_claim_def by auto
      qed
    qed
  qed
qed

end
