(* ===== verification/LS_Extender.thy ===== *)
theory LS_Extender
  imports LS_Pvc
begin

text \<open>
  The scheduler extender, \<^verbatim>\<open>pkg/scheduler\<close>: \<open>Filter\<close> keeps the candidate nodes that can hold
  the pod's claim, \<open>Score\<close> ranks them by their free share, and the two HTTP handlers decode the
  arguments, call them and encode the answer. Dereferencing a nil pointer (no node names, no
  allocatable quantity) is a panic. The lister and the clock read the same outside state.
\<close>

section \<open>Arguments and results\<close>

text \<open>The full node objects are passed through and never inspected.\<close>

record extender_args =
  ea_Pod :: "pod option"
  ea_Nodes :: "string option"
  ea_NodeNames :: "string list option"

record filter_result =
  fr_Nodes :: "string option"
  fr_NodeNames :: "string list option"
  fr_FailedNodes :: "string \<rightharpoonup> string"
  fr_Error :: "gerror option"

definition filter_error :: "gerror \<Rightarrow> filter_result" where
  "filter_error e = \<lparr>fr_Nodes = None, fr_NodeNames = None, fr_FailedNodes = Map.empty, fr_Error = Some e\<rparr>"

definition ResourceStorage :: string where
  "ResourceStorage = ''storage''"

section \<open>pkg/scheduler/extender/predicate.go\<close>

fun filter_loop ::
    "'q quantity_ops \<Rightarrow> 'q \<Rightarrow> (string \<rightharpoonup> 'q LocalStorage) \<Rightarrow> string list \<Rightarrow>
     string list \<times> (string \<rightharpoonup> string) \<Rightarrow> (string list \<times> (string \<rightharpoonup> string)) outcome" where
  "filter_loop Q request localstorageMap [] acc = Ret acc"
| "filter_loop Q request localstorageMap (nodeName # rest) (scheduleNodes, failedNodes) =
     (case localstorageMap nodeName of
        None \<Rightarrow> filter_loop Q request localstorageMap rest
                  (scheduleNodes, failedNodes(nodeName \<mapsto> ''node('' @ nodeName @ '') has no localstorage''))
      | Some ls \<Rightarrow>
          if ls_Phase ls \<noteq> LocalStorageReady then
            filter_loop Q request localstorageMap rest
              (scheduleNodes, failedNodes(nodeName \<mapsto> ''node('' @ nodeName @ '') localstorage not ready''))
          else (case st_Allocatable (ls_Status ls) of
                  None \<Rightarrow> Panic
                | Some allocSize \<Rightarrow>
                    if 0 < q_Cmp Q request allocSize then
                      filter_loop Q request localstorageMap rest
                        (scheduleNodes, failedNodes(nodeName \<mapsto>
                           ''node('' @ nodeName @ '') localstorage allocatable size too small''))
                    else filter_loop Q request localstorageMap rest
                           (scheduleNodes @ [nodeName], failedNodes)))"

definition Filter ::
    "'q quantity_ops \<Rightarrow> ('q, 'a) services \<Rightarrow> ('q, 'a) cluster_ops \<Rightarrow> extender_args \<Rightarrow> 'a \<Rightarrow>
     (filter_result outcome \<times> 'a) option" where
  "Filter Q S K args a =
     (case ea_Pod args of
        None \<Rightarrow> Some (Ret (filter_error (FmtError ''pod is nil'')), a)
      | Some p \<Rightarrow>
          (case GetLocalStoragePersistentVolumeClaimFromPod K p a of
             None \<Rightarrow> None
           | Some (Inl err, a1) \<Rightarrow> Some (Ret (filter_error err), a1)
           | Some (Inr None, a1) \<Rightarrow>
               Some (Ret \<lparr>fr_Nodes = ea_Nodes args, fr_NodeNames = ea_NodeNames args,
                          fr_FailedNodes = Map.empty, fr_Error = None\<rparr>, a1)
           | Some (Inr (Some pvc), a1) \<Rightarrow>
               (case pvc_Requests pvc ResourceStorage of
                  None \<Rightarrow> Some (Ret (filter_error (FmtError
                            (''failed to find pvc '' @ pvc_Name pvc @ '' request quantity''))), a1)
                | Some request \<Rightarrow>
                    (case GetLocalStorageMap S a1 of
                       Inl err \<Rightarrow> Some (Ret (filter_error err), a1)
                     | Inr localstorageMap \<Rightarrow>
                         (case ea_NodeNames args of
                            None \<Rightarrow> Some (Panic, a1)
                          | Some names \<Rightarrow>
                              (case filter_loop Q request localstorageMap names ([], Map.empty) of
                                 Ret (scheduleNodes, failedNodes) \<Rightarrow>
                                   Some (Ret \<lparr>fr_Nodes = ea_Nodes args,
                                              fr_NodeNames = Some scheduleNodes,
                                              fr_FailedNodes = failedNodes, fr_Error = None\<rparr>, a1)
                               | Err err \<Rightarrow> Some (Err err, a1)
                               | Panic \<Rightarrow> Some (Panic, a1)))))))"

section \<open>pkg/scheduler/extender/prioritie.go\<close>

text \<open>A score is \<open>None\<close> where the conversion to \<open>int64\<close> is implementation-dependent.\<close>

record host_priority =
  hp_Host :: string
  hp_Score :: "int64 option"

definition score :: "'q quantity_ops \<Rightarrow> 'q LocalStorage \<Rightarrow> int64 option outcome" where
  "score Q ls =
     (case (st_Allocatable (ls_Status ls), st_Capacity (ls_Status ls)) of
        (Some allocatable, Some capacity) \<Rightarrow>
          Ret (f64_to_int64 (f64_div (f64_mul (Fin 100) (q_AsFloat Q allocatable)) (q_AsFloat Q capacity)))
      | _ \<Rightarrow> Panic)"

fun score_loop ::
    "'q quantity_ops \<Rightarrow> (string \<rightharpoonup> 'q LocalStorage) \<Rightarrow> string list \<Rightarrow> host_priority list outcome" where
  "score_loop Q lsMap [] = Ret []"
| "score_loop Q lsMap (nodeName # rest) =
     (case (case lsMap nodeName of None \<Rightarrow> Ret (Some 0) | Some ls \<Rightarrow> score Q ls) of
        Ret s \<Rightarrow>
          (case score_loop Q lsMap rest of
             Ret hps \<Rightarrow> Ret (\<lparr>hp_Host = nodeName, hp_Score = s\<rparr> # hps)
           | Err err \<Rightarrow> Err err
           | Panic \<Rightarrow> Panic)
      | Err err \<Rightarrow> Err err
      | Panic \<Rightarrow> Panic)"

text \<open>A nil list is \<open>None\<close>: no pod, a pod without local storage, or an error.\<close>

definition Score ::
    "'q quantity_ops \<Rightarrow> ('q, 'a) services \<Rightarrow> ('q, 'a) cluster_ops \<Rightarrow> extender_args \<Rightarrow> 'a \<Rightarrow>
     (host_priority list option outcome \<times> 'a) option" where
  "Score Q S K args a =
     (case ea_Pod args of
        None \<Rightarrow> Some (Ret None, a)
      | Some p \<Rightarrow>
          (case PodIsUseLocalStorage K p a of
             None \<Rightarrow> None
           | Some (Inl err, a1) \<Rightarrow> Some (Ret None, a1)
           | Some (Inr used, a1) \<Rightarrow>
               if \<not> used then Some (Ret None, a1)
               else (case ea_NodeNames args of
                       None \<Rightarrow> Some (Panic, a1)
                     | Some nodeNames \<Rightarrow>
                         (case GetLocalStorageMap S a1 of
                            Inl err \<Rightarrow> Some (Ret None, a1)
                          | Inr lsMap \<Rightarrow>
                              (case score_loop Q lsMap nodeNames of
                                 Ret hps \<Rightarrow> Some (Ret (Some hps), a1)
                               | Err err \<Rightarrow> Some (Err err, a1)
                               | Panic \<Rightarrow> Some (Panic, a1))))))"

section \<open>pkg/scheduler/scheduler.go: the HTTP handlers\<close>

text \<open>
  \<open>ec_Decode\<close> decodes the request body, \<open>ec_Filter\<close> and \<open>ec_Score\<close> encode the results (they
  run the marshalers of types outside the repository). A body is encoded data or, when encoding
  fails, the error in quotes.
\<close>

record extender_codec =
  ec_Decode :: "string \<Rightarrow> gerror + extender_args"
  ec_Filter :: "filter_result \<Rightarrow> gerror + string"
  ec_Score :: "host_priority list option \<Rightarrow> gerror + string"

datatype http_body = Encoded string | EncodingError gerror

record http_response =
  hr_ContentType :: string
  hr_Status :: nat
  hr_Body :: http_body

definition http_reply :: "gerror + string \<Rightarrow> http_response" where
  "http_reply r =
     (case r of
        Inl err \<Rightarrow> \<lparr>hr_ContentType = ''application/json'', hr_Status = 500, hr_Body = EncodingError err\<rparr>
      | Inr result \<Rightarrow> \<lparr>hr_ContentType = ''application/json'', hr_Status = 200, hr_Body = Encoded result\<rparr>)"

definition http_Predicate ::
    "'q quantity_ops \<Rightarrow> ('q, 'a) services \<Rightarrow> ('q, 'a) cluster_ops \<Rightarrow> extender_codec \<Rightarrow> string \<Rightarrow> 'a \<Rightarrow>
     (http_response outcome \<times> 'a) option" where
  "http_Predicate Q S K C body a =
     (case (case ec_Decode C body of
              Inl err \<Rightarrow> Some (Ret (filter_error err), a)
            | Inr extenderArgs \<Rightarrow> Filter Q S K extenderArgs a) of
        None \<Rightarrow> None
      | Some (Ret extenderFilterResult, a1) \<Rightarrow>
          Some (Ret (http_reply (ec_Filter C extenderFilterResult)), a1)
      | Some (Err err, a1) \<Rightarrow> Some (Err err, a1)
      | Some (Panic, a1) \<Rightarrow> Some (Panic, a1))"

definition http_Prioritize ::
    "'q quantity_ops \<Rightarrow> ('q, 'a) services \<Rightarrow> ('q, 'a) cluster_ops \<Rightarrow> extender_codec \<Rightarrow> string \<Rightarrow> 'a \<Rightarrow>
     (http_response outcome \<times> 'a) option" where
  "http_Prioritize Q S K C body a =
     (case (case ec_Decode C body of
              Inl err \<Rightarrow> Some (Ret (Some []), a)
            | Inr extenderArgs \<Rightarrow> Score Q S K extenderArgs a) of
        None \<Rightarrow> None
      | Some (Ret hostPriorityList, a1) \<Rightarrow>
          Some (Ret (http_reply (ec_Score C hostPriorityList)), a1)
      | Some (Err err, a1) \<Rightarrow> Some (Err err, a1)
      | Some (Panic, a1) \<Rightarrow> Some (Panic, a1))"

section \<open>The reference semantics of Filter\<close>

text \<open>Why a node is refused, if it is.\<close>

definition refusal :: "'q quantity_ops \<Rightarrow> 'q \<Rightarrow> (string \<rightharpoonup> 'q LocalStorage) \<Rightarrow> string \<Rightarrow> string option" where
  "refusal Q request m n =
     (case m n of
        None \<Rightarrow> Some (''node('' @ n @ '') has no localstorage'')
      | Some ls \<Rightarrow>
          if ls_Phase ls \<noteq> LocalStorageReady
          then Some (''node('' @ n @ '') localstorage not ready'')
          else (case st_Allocatable (ls_Status ls) of
                  None \<Rightarrow> None
                | Some al \<Rightarrow>
                    if 0 < q_Cmp Q request al
                    then Some (''node('' @ n @ '') localstorage allocatable size too small'')
                    else None))"

text \<open>A ready localstorage has its quantities: what the plugin's \<open>sync\<close> establishes.\<close>

definition ready_complete :: "'q LocalStorage \<Rightarrow> bool" where
  "ready_complete ls \<longleftrightarrow> (ls_Phase ls = LocalStorageReady \<longrightarrow> st_Allocatable (ls_Status ls) \<noteq> None)"

lemma filter_loop_eq:
  assumes "\<And>n ls. n \<in> set names \<Longrightarrow> m n = Some ls \<Longrightarrow> ready_complete ls"
  shows "filter_loop Q request m names (sch, failed) =
    Ret (sch @ filter (\<lambda>n. refusal Q request m n = None) names,
         failed ++ (\<lambda>n. if n \<in> set names then refusal Q request m n else None))"
  using assms
proof (induction names arbitrary: sch failed)
  case Nil
  then show ?case by (simp add: map_add_def)
next
  case (Cons n names)
  have IH: "filter_loop Q request m names (sch', failed') =
    Ret (sch' @ filter (\<lambda>n. refusal Q request m n = None) names,
         failed' ++ (\<lambda>n. if n \<in> set names then refusal Q request m n else None))" for sch' failed'
    using Cons by auto
  have rc: "ready_complete ls" if "m n = Some ls" for ls using Cons.prems [of n ls] that by simp
  show ?case
  proof (cases "refusal Q request m n")
    case None
    with rc have "filter_loop Q request m (n # names) (sch, failed)
        = filter_loop Q request m names (sch @ [n], failed)"
      by (auto simp: refusal_def ready_complete_def split: option.splits if_splits)
    with IH None show ?thesis by (auto simp: fun_eq_iff map_add_def split: option.splits)
  next
    case (Some why)
    with rc have "filter_loop Q request m (n # names) (sch, failed)
        = filter_loop Q request m names (sch, failed(n \<mapsto> why))"
      by (auto simp: refusal_def ready_complete_def split: option.splits if_splits)
    with IH Some show ?thesis by (auto simp: fun_eq_iff map_add_def split: option.splits)
  qed
qed

section \<open>Bounds of a score\<close>

lemma score_value_bound:
  assumes "0 \<le> x" and "x \<le> y" and "1 \<le> y" and "round_pos (100 * x) < 2 ^ 1024"
  shows "\<exists>s. f64_to_int64 (f64_div (f64_mul (Fin 100) (Fin x)) (Fin y)) = Some (word_of_int s)
            \<and> 0 \<le> s \<and> s \<le> 100"
proof (cases "x = 0")
  case True
  with assms show ?thesis
    by (auto simp: f64_round_def truncate_rat_def intro!: exI [of _ 0])
next
  case False
  with assms have x: "0 < x" by simp
  define p where "p = round_pos (100 * x)"
  have p: "f64_mul (Fin 100) (Fin x) = Fin p"
    using x assms(4) by (simp add: f64_round_def p_def)
  have p0: "0 \<le> p" unfolding p_def using x by (intro round_pos_bound) simp
  have "p \<le> 100 * x + 100 * x / 2 ^ 53 + 1 / 2 ^ 1075"
    unfolding p_def using x by (intro round_pos_bound) simp
  also have "\<dots> \<le> 100 * y + 100 * y / 2 ^ 53 + y / 2 ^ 1075"
    using assms(2,3) by (intro add_mono divide_right_mono) simp_all
  also have "\<dots> = (100 + 100 / 2 ^ 53 + 1 / 2 ^ 1075) * y" by (simp add: field_simps)
  also have "\<dots> \<le> (100 + 1 / 4) * y"
    using assms(3) by (intro mult_right_mono) simp_all
  finally have "p \<le> (100 + 1 / 4) * y" .
  then have py: "p / y \<le> 100 + 1 / 4" using assms(3) by (simp add: pos_divide_le_eq)
  show ?thesis
  proof (cases "p = 0")
    case True
    with p assms(3) show ?thesis
      by (auto simp: f64_round_def truncate_rat_def intro!: exI [of _ 0])
  next
    case False
    with p0 assms(3) have pos: "0 < p / y" by simp
    define z where "z = round_pos (p / y)"
    have z0: "0 \<le> z" unfolding z_def using pos by (rule round_pos_bound)
    have "z \<le> p / y + p / y / 2 ^ 53 + 1 / 2 ^ 1075"
      unfolding z_def using pos by (rule round_pos_bound)
    also have "\<dots> \<le> (100 + 1 / 4) + (100 + 1 / 4) / 2 ^ 53 + 1 / 2 ^ 1075"
      using py by (intro add_mono divide_right_mono) simp_all
    also have "\<dots> < 101" by simp
    finally have z: "z < 101" .
    have "(101 :: rat) < 2 ^ 1024" by simp
    with z have "\<not> 2 ^ 1024 \<le> z" by linarith
    moreover have "f64_round (p / y) = (if 2 ^ 1024 \<le> z then PosInf else Fin z)"
      by (simp only: f64_round_def z_def pos less_imp_neq [OF pos, symmetric] if_True if_False)
    ultimately have "f64_round (p / y) = Fin z" by simp
    with p assms(3) have "f64_div (f64_mul (Fin 100) (Fin x)) (Fin y) = Fin z" by simp
    moreover have "0 \<le> \<lfloor>z\<rfloor>" "\<lfloor>z\<rfloor> \<le> 100" using z z0 by (simp_all add: floor_le_iff)
    ultimately show ?thesis
      using z0 by (auto simp: truncate_rat_def Let_def intro!: exI [of _ "\<lfloor>z\<rfloor>"])
  qed
qed

end
