(* ===== verification/LS_Webhook.thy ===== *)
theory LS_Webhook
  imports LS_Util
begin

text \<open>
  \<^verbatim>\<open>pkg/webhook\<close>: the mutating and the validating admission handlers for localstorages. The
  decoder, the JSON encoder and the API client they use are arguments. A response keeps the
  error of a denial as a value, where the code stores its text.
\<close>

section \<open>Requests and responses\<close>

type_synonym admission_op = string

definition opCreate :: admission_op where "opCreate = ''CREATE''"
definition opUpdate :: admission_op where "opUpdate = ''UPDATE''"
definition opDelete :: admission_op where "opDelete = ''DELETE''"

lemmas op_defs = opCreate_def opUpdate_def opDelete_def

record admission_request =
  rq_Operation :: admission_op
  rq_Object :: string
  rq_OldObject :: string

datatype admission_response =
    Errored nat gerror
  | Denied gerror
  | Allowed string
  | PatchFromRaw string string

text \<open>\<open>http.StatusBadRequest\<close> and \<open>http.StatusInternalServerError\<close>.\<close>

definition StatusBadRequest :: nat where "StatusBadRequest = 400"
definition StatusInternalServerError :: nat where "StatusInternalServerError = 500"

text \<open>\<open>Decode\<close> reads the object of a request, \<open>DecodeRaw\<close> a raw object; \<open>marshal\<close> is
  \<open>json.Marshal\<close> on a localstorage, which runs the marshalers of quantities and times.\<close>

record 'q codec =
  cd_Decode :: "admission_request \<Rightarrow> gerror + 'q LocalStorage"
  cd_DecodeRaw :: "string \<Rightarrow> gerror + 'q LocalStorage"
  cd_Marshal :: "'q LocalStorage \<Rightarrow> gerror + string"

section \<open>pkg/webhook/mutating.go\<close>

definition SetStatus :: "'q LocalStorage \<Rightarrow> admission_op \<Rightarrow> 'q LocalStorage" where
  "SetStatus ls op =
     (if op = opCreate then
        (if length (ls_Phase ls) = 0 then set_Phase LocalStoragePending ls else ls)
      else ls)"

definition SetDisks :: "'q LocalStorage \<Rightarrow> admission_op \<Rightarrow> 'q LocalStorage" where
  "SetDisks ls op = ls"

definition SetVolumes :: "'q LocalStorage \<Rightarrow> admission_op \<Rightarrow> 'q LocalStorage" where
  "SetVolumes ls op =
     (if op = opCreate then
        (if length (ls_Volumes ls) \<noteq> 0 then set_Volumes [] ls else ls)
      else ls)"

definition SetFinalizer :: "'q LocalStorage \<Rightarrow> 'q LocalStorage" where
  "SetFinalizer ls =
     (if \<not> ContainsFinalizer ls LsProtectionFinalizer
      then snd (AddFinalizer ls LsProtectionFinalizer) else ls)"

fun Default ::
    "'q LocalStorage \<Rightarrow> admission_op \<Rightarrow> ('q LocalStorage \<Rightarrow> admission_op \<Rightarrow> 'q LocalStorage) list \<Rightarrow>
     'q LocalStorage" where
  "Default ls op [] = ls"
| "Default ls op (f # fn) = Default (f ls op) op fn"

definition mutate :: "'q LocalStorage \<Rightarrow> admission_op \<Rightarrow> 'q LocalStorage" where
  "mutate ls op =
     Default (if IsZero (om_DeletionTimestamp (ls_Meta ls)) then SetFinalizer ls else ls) op
       [SetStatus, SetDisks, SetVolumes]"

definition mutate_Handle :: "'q codec \<Rightarrow> admission_request \<Rightarrow> admission_response" where
  "mutate_Handle C req =
     (case cd_Decode C req of
        Inl err \<Rightarrow> Errored StatusBadRequest err
      | Inr ls \<Rightarrow>
          (case cd_Marshal C (mutate ls (rq_Operation req)) of
             Inl err \<Rightarrow> Errored StatusInternalServerError err
           | Inr data \<Rightarrow> PatchFromRaw (rq_Object req) data))"

section \<open>pkg/webhook/validating.go\<close>

text \<open>
  \<open>vc_GetNode\<close>: the client's \<open>Get\<close> of a node by name (an error or nil); \<open>vc_List\<close>: its
  \<open>List\<close> of localstorages; \<open>vc_IsNotFound\<close>: \<open>errors.IsNotFound\<close>; \<open>vc_LabelMax\<close>:
  \<open>validation.DNS1035LabelMaxLength\<close>, documented as 63.
\<close>

record 'q validator_client =
  vc_GetNode :: "string \<Rightarrow> gerror option"
  vc_List :: "gerror + 'q LocalStorage list"
  vc_IsNotFound :: "gerror \<Rightarrow> bool"
  vc_LabelMax :: int

definition validateName :: "'q validator_client \<Rightarrow> 'q LocalStorage \<Rightarrow> gerror option" where
  "validateName V ls =
     (if length (ls_Name ls) = 0 then
        Some (FmtError (''localstorage ('' @ ls_Name ls @ '') name must be than 0 characters''))
      else if int (length (ls_Name ls)) > vc_LabelMax V - 11 then
        Some (FmtError (''localstorage ('' @ ls_Name ls @ '') name must be no more than 52 characters''))
      else None)"

fun bound_loop :: "string \<Rightarrow> 'q LocalStorage list \<Rightarrow> gerror option" where
  "bound_loop n [] = None"
| "bound_loop n (l # ls) =
     (if ls_Node l = n
      then Some (FmtError (''node ('' @ n @ '') already binded to the other localstorage''))
      else bound_loop n ls)"

definition validateKubeNode :: "'q validator_client \<Rightarrow> 'q LocalStorage \<Rightarrow> gerror option" where
  "validateKubeNode V ls =
     (if length (ls_Node ls) = 0 then
        Some (FmtError (''localstraoge ('' @ ls_Name ls @ '') binding node may not be empty''))
      else case vc_GetNode V (ls_Node ls) of
        Some err \<Rightarrow>
          if vc_IsNotFound V err then
            Some (FmtError (''localstorage ('' @ ls_Name ls @ '') binding node ('' @ ls_Node ls
                            @ '') not found in kubernetes''))
          else Some (FmtErrorV (''failed to find binding node ('' @ ls_Node ls @ '') object: '') err)
      | None \<Rightarrow>
          (case vc_List V of
             Inl err \<Rightarrow> Some (FmtErrorV ''failed to list localstorage objects: '' err)
           | Inr items \<Rightarrow> bound_loop (ls_Node ls) items))"

definition pathValidator :: "PathSpec \<Rightarrow> gerror option" where
  "pathValidator p =
     (if length (ps_VolumeDir p) = 0
      then Some (FmtError ''spec.path.path may not be empty when use path'') else None)"

text \<open>
  The two immutability errors print the old value with \<open>%v\<close>: a pointer to a struct as
  \<open>&{field field}\<close>, a slice as its elements in brackets, a nil pointer as \<open><nil>\<close>.
\<close>

definition show_PathSpec :: "PathSpec option \<Rightarrow> string" where
  "show_PathSpec s = (case s of None \<Rightarrow> ''<nil>'' | Some p \<Rightarrow> ''&{'' @ ps_VolumeDir p @ ''}'')"

definition show_DiskSpec :: "DiskSpec \<Rightarrow> string" where
  "show_DiskSpec d = ''{'' @ ds_Name d @ '' '' @ ds_Identifier d @ ''}''"

fun show_disks :: "DiskSpec list \<Rightarrow> string" where
  "show_disks [] = []"
| "show_disks [d] = show_DiskSpec d"
| "show_disks (d # ds) = show_DiskSpec d @ '' '' @ show_disks ds"

definition show_LvmSpec :: "LvmSpec option \<Rightarrow> string" where
  "show_LvmSpec s =
     (case s of
        None \<Rightarrow> ''<nil>''
      | Some l \<Rightarrow> ''&{'' @ lv_VolumeGroup l @ '' ['' @
                  show_disks (case lv_Disks l of None \<Rightarrow> [] | Some ds \<Rightarrow> ds) @ '']}'')"

definition immutable_path :: "PathSpec option \<Rightarrow> gerror" where
  "immutable_path old =
     FmtError (''spec.path: Invalid value: '' @ show_PathSpec old @ '': field is immutable'')"

definition immutable_lvm :: "LvmSpec option \<Rightarrow> gerror" where
  "immutable_lvm old =
     FmtError (''spec.lvm: Invalid value: '' @ show_LvmSpec old @ '': field is immutable'')"

text \<open>
  \<open>reflect.DeepEqual\<close> on two specifications is equality of the records (through the pointers,
  with a nil slice different from an empty one).
\<close>

definition validatePath ::
    "PathSpec option \<Rightarrow> 'q LocalStorage \<Rightarrow> admission_op \<Rightarrow> gerror option" where
  "validatePath oldPathSpec cur op =
     (let pathSpec = sp_Path (ls_Spec cur) in
      if op = opCreate then
        (case pathSpec of None \<Rightarrow> None | Some p \<Rightarrow> pathValidator p)
      else if op = opUpdate then
        (case (oldPathSpec, pathSpec) of
           (None, Some p) \<Rightarrow> pathValidator p
         | _ \<Rightarrow> if oldPathSpec \<noteq> pathSpec then Some (immutable_path oldPathSpec) else None)
      else None)"

definition lvmValidator :: "LvmSpec \<Rightarrow> gerror option" where
  "lvmValidator l =
     (if length (lv_VolumeGroup l) = 0
      then Some (FmtError ''spec.lvm.volumeGroup may not be empty when use lvm'')
      else if lv_Disks l = None \<or> lv_Disks l = Some []
      then Some (FmtError ''spec.lvm.disks may not be empty when use lvm'')
      else None)"

definition validateLvm ::
    "LvmSpec option \<Rightarrow> 'q LocalStorage \<Rightarrow> admission_op \<Rightarrow> gerror option" where
  "validateLvm oldLvmSpec cur op =
     (let lvmSpec = sp_Lvm (ls_Spec cur) in
      if op = opCreate then
        (case lvmSpec of None \<Rightarrow> None | Some l \<Rightarrow> lvmValidator l)
      else if op = opUpdate then
        (case (oldLvmSpec, lvmSpec) of
           (None, Some l) \<Rightarrow> lvmValidator l
         | _ \<Rightarrow> if oldLvmSpec \<noteq> lvmSpec then Some (immutable_lvm oldLvmSpec) else None)
      else None)"

text \<open>The old object is nil on creation, and only its specification is read.\<close>

definition validateStorageBackend ::
    "'q LocalStorage option \<Rightarrow> 'q LocalStorage \<Rightarrow> admission_op \<Rightarrow> gerror option" where
  "validateStorageBackend old cur op =
     (if sp_Path (ls_Spec cur) \<noteq> None \<and> sp_Lvm (ls_Spec cur) \<noteq> None then
        Some (FmtError ''path and lvm can only be used at most one'')
      else case validatePath (case old of None \<Rightarrow> None | Some l \<Rightarrow> sp_Path (ls_Spec l)) cur op of
        Some err \<Rightarrow> Some err
      | None \<Rightarrow>
          (case validateLvm (case old of None \<Rightarrow> None | Some l \<Rightarrow> sp_Lvm (ls_Spec l)) cur op of
             Some err \<Rightarrow> Some err
           | None \<Rightarrow> None))"

definition ValidateCreate :: "'q validator_client \<Rightarrow> 'q LocalStorage \<Rightarrow> gerror option" where
  "ValidateCreate V ls =
     (case validateKubeNode V ls of
        Some err \<Rightarrow> Some err
      | None \<Rightarrow>
          (case validateStorageBackend None ls opCreate of Some err \<Rightarrow> Some err | None \<Rightarrow> None))"

definition ValidateUpdate :: "'q LocalStorage \<Rightarrow> 'q LocalStorage \<Rightarrow> gerror option" where
  "ValidateUpdate old cur =
     (if ls_Name old \<noteq> ls_Name cur \<or> ls_APIVersion old \<noteq> ls_APIVersion cur \<or> ls_Kind old \<noteq> ls_Kind cur
      then Some (FmtError ''at least one of apiVersion, kind and name was changed'')
      else if ls_Node old \<noteq> ls_Node cur
      then Some (FmtError (''spec.node: Invalid value: '' @ ls_Node cur @ '': field is immutable''))
      else (case validateStorageBackend (Some old) cur opUpdate of
              Some err \<Rightarrow> Some err | None \<Rightarrow> None))"

definition ValidateDelete :: "'q LocalStorage \<Rightarrow> gerror option" where
  "ValidateDelete ls = None"

definition respond :: "gerror option \<Rightarrow> admission_response" where
  "respond err = (case err of Some e \<Rightarrow> Denied e | None \<Rightarrow> Allowed [])"

definition validate_Handle ::
    "'q codec \<Rightarrow> 'q validator_client \<Rightarrow> admission_request \<Rightarrow> admission_response" where
  "validate_Handle C V req =
     (case cd_Decode C req of
        Inl err \<Rightarrow> Errored StatusBadRequest err
      | Inr ls \<Rightarrow>
          (case validateName V ls of
             Some err \<Rightarrow> Errored StatusBadRequest err
           | None \<Rightarrow>
               if rq_Operation req = opCreate then respond (ValidateCreate V ls)
               else if rq_Operation req = opUpdate then
                 (case cd_DecodeRaw C (rq_OldObject req) of
                    Inl err \<Rightarrow> Errored StatusBadRequest err
                  | Inr old \<Rightarrow> respond (ValidateUpdate old ls))
               else if rq_Operation req = opDelete then respond (ValidateDelete ls)
               else respond None))"

section \<open>What the mutating handler changes\<close>

lemma SetFinalizer_eq: "SetFinalizer ls = snd (AddFinalizer ls LsProtectionFinalizer)"
  by (simp add: SetFinalizer_def fins.ins_present)

lemma AddFinalizer_object [simp]:
  "ls_Spec (snd (AddFinalizer l x)) = ls_Spec l" "ls_Status (snd (AddFinalizer l x)) = ls_Status l"
  "ls_Kind (snd (AddFinalizer l x)) = ls_Kind l"
  "ls_APIVersion (snd (AddFinalizer l x)) = ls_APIVersion l"
  "om_Name (ls_Meta (snd (AddFinalizer l x))) = om_Name (ls_Meta l)"
  "om_ResourceVersion (ls_Meta (snd (AddFinalizer l x))) = om_ResourceVersion (ls_Meta l)"
  "om_DeletionTimestamp (ls_Meta (snd (AddFinalizer l x))) = om_DeletionTimestamp (ls_Meta l)"
  by (simp_all add: AddFinalizer_def)

lemma mutate_create:
  "mutate ls opCreate =
     (let l1 = (if being_deleted ls then ls else snd (AddFinalizer ls LsProtectionFinalizer));
          l2 = (if ls_Phase l1 = [] then set_Phase LocalStoragePending l1 else l1)
      in set_Volumes [] l2)"
  by (auto simp: mutate_def SetStatus_def SetDisks_def SetVolumes_def SetFinalizer_eq being_deleted_def
      Let_def field_defs)

lemma mutate_other:
  "op \<noteq> opCreate \<Longrightarrow>
   mutate ls op = (if being_deleted ls then ls else snd (AddFinalizer ls LsProtectionFinalizer))"
  by (simp add: mutate_def SetStatus_def SetDisks_def SetVolumes_def SetFinalizer_eq being_deleted_def)

lemma mutate_frame [simp]:
  "ls_Spec (mutate ls op) = ls_Spec ls" "ls_Name (mutate ls op) = ls_Name ls"
  "ls_Kind (mutate ls op) = ls_Kind ls" "ls_APIVersion (mutate ls op) = ls_APIVersion ls"
  "om_DeletionTimestamp (ls_Meta (mutate ls op)) = om_DeletionTimestamp (ls_Meta ls)"
  by (cases "op = opCreate"; simp add: mutate_create mutate_other Let_def)+

lemma mutate_finalizers:
  "GetFinalizers (mutate ls op) =
     (if being_deleted ls \<or> LsProtectionFinalizer \<in> set (GetFinalizers ls) then GetFinalizers ls
      else GetFinalizers ls @ [LsProtectionFinalizer])"
  by (cases "op = opCreate")
    (auto simp: mutate_create mutate_other Let_def AddFinalizer_def ContainsFinalizer_loop_iff)

lemma mutate_status:
  "ls_Status (mutate ls op) =
     (if op = opCreate
      then (ls_Status ls)\<lparr>st_Phase := (if ls_Phase ls = [] then LocalStoragePending else ls_Phase ls),
                          st_Volumes := []\<rparr>
      else ls_Status ls)"
  by (auto simp: mutate_create mutate_other Let_def field_defs AddFinalizer_def)

section \<open>What the validating handler accepts\<close>

definition path_ok :: "PathSpec option \<Rightarrow> bool" where
  "path_ok s = (case s of None \<Rightarrow> True | Some p \<Rightarrow> ps_VolumeDir p \<noteq> [])"

definition lvm_ok :: "LvmSpec option \<Rightarrow> bool" where
  "lvm_ok s = (case s of None \<Rightarrow> True
     | Some l \<Rightarrow> lv_VolumeGroup l \<noteq> [] \<and> lv_Disks l \<noteq> None \<and> lv_Disks l \<noteq> Some [])"

text \<open>At most one backend, and the one there is complete.\<close>

definition backend_ok :: "LocalStorageSpec \<Rightarrow> bool" where
  "backend_ok s \<longleftrightarrow> (sp_Path s = None \<or> sp_Lvm s = None) \<and> path_ok (sp_Path s) \<and> lvm_ok (sp_Lvm s)"

text \<open>A backend may be added where there was none, and never changes after that.\<close>

definition kept_or_added :: "'b option \<Rightarrow> 'b option \<Rightarrow> bool" where
  "kept_or_added old cur \<longleftrightarrow> old = None \<or> cur = old"

lemma bound_loop_None: "bound_loop n ls = None \<longleftrightarrow> n \<notin> ls_Node ` set ls"
  by (induction ls) auto

lemma validateKubeNode_None:
  "validateKubeNode V ls = None \<longleftrightarrow>
     ls_Node ls \<noteq> [] \<and> vc_GetNode V (ls_Node ls) = None \<and>
     (\<exists>items. vc_List V = Inr items \<and> ls_Node ls \<notin> ls_Node ` set items)"
  by (auto simp: validateKubeNode_def bound_loop_None split: option.splits sum.splits)

lemma validatePath_create: "validatePath old cur opCreate = None \<longleftrightarrow> path_ok (sp_Path (ls_Spec cur))"
  by (auto simp: validatePath_def pathValidator_def path_ok_def split: option.splits)

lemma validateLvm_create: "validateLvm old cur opCreate = None \<longleftrightarrow> lvm_ok (sp_Lvm (ls_Spec cur))"
  by (auto simp: validateLvm_def lvmValidator_def lvm_ok_def split: option.splits)

lemma op_distinct [simp]: "opUpdate \<noteq> opCreate" "opDelete \<noteq> opCreate" "opDelete \<noteq> opUpdate"
  by (simp_all add: op_defs)

lemma validatePath_update:
  "validatePath old cur opUpdate = None \<longleftrightarrow>
     kept_or_added old (sp_Path (ls_Spec cur)) \<and> (old = None \<longrightarrow> path_ok (sp_Path (ls_Spec cur)))"
  by (auto simp: validatePath_def pathValidator_def path_ok_def kept_or_added_def split: option.splits)

lemma validateLvm_update:
  "validateLvm old cur opUpdate = None \<longleftrightarrow>
     kept_or_added old (sp_Lvm (ls_Spec cur)) \<and> (old = None \<longrightarrow> lvm_ok (sp_Lvm (ls_Spec cur)))"
  by (auto simp: validateLvm_def lvmValidator_def lvm_ok_def kept_or_added_def split: option.splits)

lemma validateStorageBackend_None:
  "validateStorageBackend old cur op = None \<longleftrightarrow>
     (sp_Path (ls_Spec cur) = None \<or> sp_Lvm (ls_Spec cur) = None) \<and>
     validatePath (case old of None \<Rightarrow> None | Some l \<Rightarrow> sp_Path (ls_Spec l)) cur op = None \<and>
     validateLvm (case old of None \<Rightarrow> None | Some l \<Rightarrow> sp_Lvm (ls_Spec l)) cur op = None"
  by (simp add: validateStorageBackend_def case_error_None)

lemma ValidateCreate_None:
  "ValidateCreate V ls = None \<longleftrightarrow> validateKubeNode V ls = None \<and> backend_ok (ls_Spec ls)"
  by (simp add: ValidateCreate_def case_error_None validateStorageBackend_None validatePath_create
      validateLvm_create backend_ok_def)

lemma ValidateUpdate_None:
  "ValidateUpdate old cur = None \<longleftrightarrow>
     ls_Name cur = ls_Name old \<and> ls_APIVersion cur = ls_APIVersion old \<and> ls_Kind cur = ls_Kind old \<and>
     ls_Node cur = ls_Node old \<and>
     (sp_Path (ls_Spec cur) = None \<or> sp_Lvm (ls_Spec cur) = None) \<and>
     kept_or_added (sp_Path (ls_Spec old)) (sp_Path (ls_Spec cur)) \<and>
     (sp_Path (ls_Spec old) = None \<longrightarrow> path_ok (sp_Path (ls_Spec cur))) \<and>
     kept_or_added (sp_Lvm (ls_Spec old)) (sp_Lvm (ls_Spec cur)) \<and>
     (sp_Lvm (ls_Spec old) = None \<longrightarrow> lvm_ok (sp_Lvm (ls_Spec cur)))"
  by (auto simp: ValidateUpdate_def validateStorageBackend_None validatePath_update validateLvm_update)

lemma ValidateUpdate_backend:
  assumes "ValidateUpdate old cur = None" and "backend_ok (ls_Spec old)"
  shows "backend_ok (ls_Spec cur)"
proof -
  have "path_ok (sp_Path (ls_Spec cur))" "lvm_ok (sp_Lvm (ls_Spec cur))"
    using assms by (auto simp: ValidateUpdate_None backend_ok_def kept_or_added_def)
  with assms(1) show ?thesis by (simp add: ValidateUpdate_None backend_ok_def)
qed

section \<open>The set of objects admission lets through\<close>

text \<open>
  One admission at a time: a creation is validated against the objects that exist, an update
  against the object it replaces. The client of a step sees the current objects; the nodes may
  differ from step to step.
\<close>

inductive admission_step :: "'q LocalStorage list \<Rightarrow> 'q LocalStorage list \<Rightarrow> bool" where
  create: "vc_List V = Inr cl \<Longrightarrow> validateName V (mutate ls opCreate) = None \<Longrightarrow>
     ValidateCreate V (mutate ls opCreate) = None \<Longrightarrow>
     admission_step cl (cl @ [mutate ls opCreate])"
| update: "i < length cl \<Longrightarrow> validateName V (mutate cur opUpdate) = None \<Longrightarrow>
     ValidateUpdate (cl ! i) (mutate cur opUpdate) = None \<Longrightarrow>
     admission_step cl (cl[i := mutate cur opUpdate])"
| delete: "i < length cl \<Longrightarrow> admission_step cl (take i cl @ drop (Suc i) cl)"

inductive admitted :: "'q LocalStorage list \<Rightarrow> bool" where
  empty: "admitted []"
| step: "admitted cl \<Longrightarrow> admission_step cl cl' \<Longrightarrow> admitted cl'"

inductive_cases admission_stepE: "admission_step cl cl'"

definition admission_inv :: "'q LocalStorage list \<Rightarrow> bool" where
  "admission_inv cl \<longleftrightarrow> distinct (map ls_Node cl) \<and>
     list_all (\<lambda>l. ls_Node l \<noteq> [] \<and> backend_ok (ls_Spec l)) cl"

lemma admission_inv_create:
  assumes "admission_inv cl" and "vc_List V = Inr cl" and "ValidateCreate V l = None"
  shows "admission_inv (cl @ [l])"
  using assms by (auto simp: admission_inv_def ValidateCreate_None validateKubeNode_None)

lemma admission_inv_update:
  assumes "admission_inv cl" and i: "i < length cl" and "ValidateUpdate (cl ! i) l = None"
  shows "admission_inv (cl[i := l])"
proof -
  have n: "ls_Node l = ls_Node (cl ! i)" using assms(3) by (simp add: ValidateUpdate_None)
  then have "map ls_Node (cl[i := l]) = map ls_Node cl"
    using i by (simp add: map_update list_update_same_conv)
  moreover have "ls_Node (cl ! i) \<noteq> []" "backend_ok (ls_Spec (cl ! i))"
    using assms(1) i by (auto simp: admission_inv_def list_all_length)
  moreover have "backend_ok (ls_Spec l)"
    using ValidateUpdate_backend [OF assms(3)] calculation(3) .
  ultimately show ?thesis
    using assms(1) i n unfolding admission_inv_def
    by (auto simp: list_all_length nth_list_update)
qed

lemma admission_inv_delete:
  assumes "admission_inv cl" and "i < length cl"
  shows "admission_inv (take i cl @ drop (Suc i) cl)"
proof -
  have "cl = take i cl @ cl ! i # drop (Suc i) cl" using assms(2) by (rule id_take_nth_drop)
  with assms(1) have "admission_inv (take i cl @ cl ! i # drop (Suc i) cl)" by simp
  then show ?thesis by (auto simp: admission_inv_def)
qed

lemma admission_step_inv: "admission_step cl cl' \<Longrightarrow> admission_inv cl \<Longrightarrow> admission_inv cl'"
  by (induction rule: admission_step.induct)
    (blast intro: admission_inv_create admission_inv_update admission_inv_delete)+

lemma admitted_inv: "admitted cl \<Longrightarrow> admission_inv cl"
  by (induction rule: admitted.induct) (simp add: admission_inv_def, blast intro: admission_step_inv)

end
