(* ===== verification/LS_Endpoint.thy ===== *)
theory LS_Endpoint
  imports Go_Os
begin

text \<open>
  The gRPC endpoint of the plugin: \<open>parseEndpoint\<close> of \<^verbatim>\<open>pkg/localstorage/utils.go\<close> and \<open>serve\<close>
  of \<^verbatim>\<open>pkg/localstorage/server.go\<close>, with the part of package \<open>strings\<close> they use. A string is
  its bytes. Listening on a socket and serving are arguments; \<open>klog.Fatalf\<close> ends the process
  and is a result.
\<close>

section \<open>Package strings\<close>

text \<open>
  \<open>ToLower\<close> maps the bytes of an ASCII string; on any other string it maps runes with the
  Unicode tables, which are the argument \<open>uni\<close>.
\<close>

definition is_ascii :: "char \<Rightarrow> bool" where
  "is_ascii c \<longleftrightarrow> of_char c < (128 :: nat)"

definition lower_ascii :: "char \<Rightarrow> char" where
  "lower_ascii c = (if of_char c \<ge> (65 :: nat) \<and> of_char c \<le> (90 :: nat)
                    then char_of (of_char c + (32 :: nat)) else c)"

definition ToLower :: "(string \<Rightarrow> string) \<Rightarrow> string \<Rightarrow> string" where
  "ToLower uni s = (if list_all is_ascii s then map lower_ascii s else uni s)"

definition HasPrefix :: "string \<Rightarrow> string \<Rightarrow> bool" where
  "HasPrefix s pre \<longleftrightarrow> length pre \<le> length s \<and> take (length pre) s = pre"

text \<open>\<open>SplitN s sep 2\<close>: cut at the first occurrence of the separator.\<close>

fun SplitN2 :: "string \<Rightarrow> string \<Rightarrow> string list" where
  "SplitN2 sep [] = [[]]"
| "SplitN2 sep (c # cs) =
     (if HasPrefix (c # cs) sep then [[], drop (length sep) (c # cs)]
      else case SplitN2 sep cs of
        [] \<Rightarrow> [[c]]
      | w # ws \<Rightarrow> (c # w) # ws)"

section \<open>parseEndpoint\<close>

text \<open>Indexing past the end of a slice panics.\<close>

definition parseEndpoint :: "(string \<Rightarrow> string) \<Rightarrow> string \<Rightarrow> (string \<times> string) outcome" where
  "parseEndpoint uni ep =
     (if HasPrefix (ToLower uni ep) ''unix://'' then
        (case SplitN2 ''://'' ep of
           s0 # s1 # _ \<Rightarrow> if s1 \<noteq> [] then Ret (s0, s1)
                          else Err (FmtError (''invalid endpoint: '' @ ep))
         | _ \<Rightarrow> Panic)
      else Err (FmtError (''invalid endpoint: '' @ ep)))"

text \<open>The interceptor of every call logs and passes the handler's answer on.\<close>

definition logGRPC :: "('r \<Rightarrow> 'o outcome) \<Rightarrow> 'r \<Rightarrow> 'o outcome" where
  "logGRPC handler req =
     (case handler req of Ret resp \<Rightarrow> Ret resp | Err err \<Rightarrow> Err err | Panic \<Rightarrow> Panic)"

section \<open>serve\<close>

datatype grpc_service = IdentityService | ControllerService | NodeService

text \<open>\<open>Fatal\<close>: the process exits with a message; \<open>Served\<close>: the server ran on a network and an
  address, with the services it had, until it was stopped.\<close>

datatype serve_result = Fatal string gerror | ServePanic | Served string string "grpc_service list"

text \<open>
  \<open>listen\<close> is \<open>net.Listen\<close> (an error or nil), \<open>run\<close> is \<open>Serve\<close> of the gRPC server; the three
  flags say which service arguments are not nil.
\<close>

definition serve ::
    "(string \<Rightarrow> string) \<Rightarrow> (string \<Rightarrow> string \<Rightarrow> gerror option) \<Rightarrow> (string \<Rightarrow> string \<Rightarrow> gerror option) \<Rightarrow>
     string \<Rightarrow> bool \<Rightarrow> bool \<Rightarrow> bool \<Rightarrow> fs \<Rightarrow> serve_result \<times> fs" where
  "serve uni listen run endpoint ids cs ns f =
     (case parseEndpoint uni endpoint of
        Panic \<Rightarrow> (ServePanic, f)
      | Err err \<Rightarrow> (Fatal ''Failed to parse unix endpoint: '' err, f)
      | Ret (proto, addr0) \<Rightarrow>
          (let addr = (if proto = ''unix'' then ''/'' @ addr0 else addr0);
               r = (if proto = ''unix'' then os_Remove addr f else (None, f));
               f1 = snd r;
               services = (if ids then [IdentityService] else []) @
                          (if cs then [ControllerService] else []) @
                          (if ns then [NodeService] else [])
           in case (case fst r of Some err \<Rightarrow> if \<not> IsNotExist err then Some err else None
                                | None \<Rightarrow> None) of
                Some err \<Rightarrow> (Fatal (''Failed to remove '' @ addr @ '', error: '') err, f1)
              | None \<Rightarrow>
                  (case listen proto addr of
                     Some err \<Rightarrow> (Fatal ''Failed to listen: '' err, f1)
                   | None \<Rightarrow>
                       (case run proto addr of
                          Some err \<Rightarrow> (Fatal ''Failed to serve grpc server: '' err, f1)
                        | None \<Rightarrow> (Served proto addr services, f1)))))"

text \<open>\<open>net.Listen\<close> documents the networks it takes.\<close>

definition listen_law :: "(string \<Rightarrow> string \<Rightarrow> gerror option) \<Rightarrow> bool" where
  "listen_law listen \<longleftrightarrow>
     (\<forall>n a. listen n a = None \<longrightarrow> n \<in> {''tcp'', ''tcp4'', ''tcp6'', ''unix'', ''unixpacket''})"

section \<open>What an endpoint is split into\<close>

lemma HasPrefix_iff: "HasPrefix s pre \<longleftrightarrow> (\<exists>t. s = pre @ t)"
  by (auto simp: HasPrefix_def) (metis append_take_drop_id)

text \<open>A cut is at an occurrence, and there is none before it.\<close>

definition occurs_in :: "string \<Rightarrow> string \<Rightarrow> bool" where
  "occurs_in sep s \<longleftrightarrow> (\<exists>u v. s = u @ sep @ v)"

lemma occurs_in_Cons: "occurs_in sep (c # s) \<longleftrightarrow> HasPrefix (c # s) sep \<or> occurs_in sep s"
  (is "?l \<longleftrightarrow> ?r")
proof
  assume ?l
  then obtain u v where "c # s = u @ sep @ v" by (auto simp: occurs_in_def)
  then show ?r by (cases u) (auto simp: HasPrefix_iff occurs_in_def)
next
  assume ?r
  then show ?l
    unfolding HasPrefix_iff occurs_in_def by (metis append_Cons append_Nil)
qed

lemma SplitN2_shape:
  assumes "sep \<noteq> []"
  shows "(\<exists>a b. SplitN2 sep s = [a, b] \<and> s = a @ sep @ b) \<or> (SplitN2 sep s = [s] \<and> \<not> occurs_in sep s)"
proof (induction s)
  case Nil
  with assms show ?case by (simp add: occurs_in_def)
next
  case (Cons c s)
  show ?case
  proof (cases "HasPrefix (c # s) sep")
    case True
    then obtain t where t: "c # s = sep @ t" by (auto simp: HasPrefix_iff)
    have "SplitN2 sep (c # s) = [[], drop (length sep) (c # s)]"
      by (simp only: SplitN2.simps True if_True)
    then have "SplitN2 sep (c # s) = [[], t]" using t by simp
    with t show ?thesis by simp
  next
    case False
    with Cons show ?thesis by (auto simp: occurs_in_Cons)
  qed
qed

lemma SplitN2_first:
  assumes "\<And>u v. a = u @ v \<Longrightarrow> v \<noteq> [] \<Longrightarrow> \<not> HasPrefix (v @ sep @ b) sep" and "sep \<noteq> []"
  shows "SplitN2 sep (a @ sep @ b) = [a, b]"
  using assms(1)
proof (induction a)
  case Nil
  from assms(2) obtain x xs where "sep = x # xs" by (cases sep) auto
  then show ?case by (simp add: HasPrefix_iff)
next
  case (Cons c a)
  have "\<not> HasPrefix ((c # a) @ sep @ b) sep" using Cons.prems [of "[]" "c # a"] by simp
  moreover have "SplitN2 sep (a @ sep @ b) = [a, b]"
  proof (rule Cons.IH)
    fix u v assume "a = u @ v" "v \<noteq> []"
    then show "\<not> HasPrefix (v @ sep @ b) sep" using Cons.prems [of "c # u" v] by simp
  qed
  ultimately show ?case by simp
qed

lemma char_of_eq: "n < 256 \<Longrightarrow> char_of n = c \<longleftrightarrow> n = (of_char c :: nat)"
  by (metis char_of_char char_of_nat mod_less of_char_of)

text \<open>\<open>proto://addr\<close> with a protocol that is \<open>unix\<close> up to case.\<close>

definition unix_endpoint :: "string \<Rightarrow> string \<Rightarrow> string \<Rightarrow> bool" where
  "unix_endpoint ep p a \<longleftrightarrow> ep = p @ ''://'' @ a \<and> map lower_ascii p = ''unix''"

lemma lower_ascii_punct:
  "lower_ascii c = CHR '':'' \<longleftrightarrow> c = CHR '':''" "lower_ascii c = CHR ''/'' \<longleftrightarrow> c = CHR ''/''"
  by (auto simp: lower_ascii_def char_of_eq)

lemma map_Cons3: "map f q = x # y # z # t \<longleftrightarrow> (\<exists>u v w a. q = u # v # w # a \<and> f u = x \<and> f v = y \<and> f w = z \<and> map f a = t)"
  by (auto simp: map_eq_Cons_conv)

lemma lower_separator: "map lower_ascii q = ''://'' @ t \<longleftrightarrow> (\<exists>a. q = ''://'' @ a \<and> map lower_ascii a = t)"
  by (simp add: map_Cons3 lower_ascii_punct)

lemma HasPrefix_map_append:
  "HasPrefix (map f s) (x @ y) \<longleftrightarrow> (\<exists>p q t. s = p @ q \<and> map f p = x \<and> map f q = y @ t)"
proof
  assume "HasPrefix (map f s) (x @ y)"
  then obtain t where "map f s = x @ (y @ t)" by (auto simp: HasPrefix_iff)
  then obtain p q where "s = p @ q" "x = map f p" "y @ t = map f q"
    unfolding map_eq_append_conv by blast
  then show "\<exists>p q t. s = p @ q \<and> map f p = x \<and> map f q = y @ t" by metis
qed (auto simp: HasPrefix_iff)

lemma unix_prefix:
  "HasPrefix (map lower_ascii ep) ''unix://'' \<longleftrightarrow> (\<exists>p a. unix_endpoint ep p a)"
proof -
  have "HasPrefix (map lower_ascii ep) (''unix'' @ ''://'') \<longleftrightarrow>
      (\<exists>p q t a. ep = p @ q \<and> map lower_ascii p = ''unix'' \<and> q = ''://'' @ a \<and> map lower_ascii a = t)"
    unfolding HasPrefix_map_append lower_separator by (simp only: ex_simps)
  also have "\<dots> \<longleftrightarrow> (\<exists>p a. unix_endpoint ep p a)"
    (is "(\<exists>p q t a. ?E p q t a) \<longleftrightarrow> _")
  proof
    assume "\<exists>p q t a. ?E p q t a"
    then obtain p q t a where "?E p q t a" by (elim exE)
    then have "unix_endpoint ep p a" by (simp add: unix_endpoint_def)
    then show "\<exists>p a. unix_endpoint ep p a" by (intro exI)
  next
    assume "\<exists>p a. unix_endpoint ep p a"
    then obtain p a where "unix_endpoint ep p a" by (elim exE)
    then have "?E p (''://'' @ a) (map lower_ascii a) a" by (simp add: unix_endpoint_def)
    then show "\<exists>p q t a. ?E p q t a" by (intro exI)
  qed
  finally show ?thesis by (simp only: append_Cons append_Nil)
qed

lemma SplitN2_unix:
  assumes "unix_endpoint ep p a" shows "SplitN2 ''://'' ep = [p, a]"
proof -
  have "SplitN2 ''://'' (p @ ''://'' @ a) = [p, a]"
  proof (rule SplitN2_first)
    fix u v assume p: "p = u @ v" and v: "v \<noteq> []"
    have "map lower_ascii p = ''unix''" using assms unfolding unix_endpoint_def by (rule conjunct2)
    then have "set (map lower_ascii p) = set ''unix''" by (rule arg_cong)
    then have "CHR '':'' \<notin> lower_ascii ` set p" by simp
    then have "lower_ascii (hd v) \<noteq> CHR '':''" using p v
      by (metis hd_in_set imageI in_set_conv_decomp_first set_append UnCI)
    then have "hd v \<noteq> CHR '':''" by (simp only: lower_ascii_punct simp_thms)
    with v show "\<not> HasPrefix (v @ ''://'' @ a) ''://''" by (cases v) (simp_all add: HasPrefix_iff)
  qed simp
  moreover have "ep = p @ ''://'' @ a" using assms unfolding unix_endpoint_def by (rule conjunct1)
  ultimately show ?thesis by (simp only:)
qed

text \<open>On ASCII endpoints: exactly \<open>proto://addr\<close> with a nonempty address and a protocol that is
  \<open>unix\<close> up to case; the protocol is returned as it was written.\<close>

lemma parseEndpoint_accepted:
  assumes "list_all is_ascii ep" and "unix_endpoint ep p a"
  shows "parseEndpoint uni ep =
    (if a \<noteq> [] then Ret (p, a) else Err (FmtError (''invalid endpoint: '' @ ep)))"
proof -
  have pre: "HasPrefix (map lower_ascii ep) ''unix://''"
    unfolding unix_prefix using assms(2) by (intro exI)
  show ?thesis
    unfolding parseEndpoint_def ToLower_def if_P [OF assms(1)] if_P [OF pre]
      SplitN2_unix [OF assms(2)] list.case ..
qed

lemma parseEndpoint_refused:
  assumes "list_all is_ascii ep" and "\<nexists>p a. unix_endpoint ep p a"
  shows "parseEndpoint uni ep = Err (FmtError (''invalid endpoint: '' @ ep))"
proof -
  have pre: "\<not> HasPrefix (map lower_ascii ep) ''unix://''"
    unfolding unix_prefix using assms(2) .
  show ?thesis unfolding parseEndpoint_def ToLower_def if_P [OF assms(1)] if_not_P [OF pre] ..
qed

lemma unix_endpoint_unique:
  assumes "unix_endpoint ep p a" and "unix_endpoint ep p' a'" shows "p' = p \<and> a' = a"
  using SplitN2_unix [OF assms(1)] SplitN2_unix [OF assms(2)] by simp

lemma parseEndpoint_Ret:
  assumes "list_all is_ascii ep"
  shows "parseEndpoint uni ep = Ret (p, a) \<longleftrightarrow> unix_endpoint ep p a \<and> a \<noteq> []"
proof (cases "\<exists>p a. unix_endpoint ep p a")
  case True
  then obtain p' a' where u: "unix_endpoint ep p' a'" by (elim exE)
  show ?thesis
    using parseEndpoint_accepted [OF assms u, of uni] unix_endpoint_unique [OF u, of p a] u
    by (cases "a' = []") auto
next
  case False
  then show ?thesis using parseEndpoint_refused [OF assms False, of uni] by simp
qed

lemma parseEndpoint_no_panic:
  assumes "list_all is_ascii ep" shows "parseEndpoint uni ep \<noteq> Panic"
proof (cases "\<exists>p a. unix_endpoint ep p a")
  case True
  then obtain p a where u: "unix_endpoint ep p a" by (elim exE)
  show ?thesis unfolding parseEndpoint_accepted [OF assms u] by simp
next
  case False
  show ?thesis unfolding parseEndpoint_refused [OF assms False] by simp
qed

section \<open>Properties\<close>

text \<open>
  \<open>parseEndpoint\<close> on an ASCII endpoint never panics and accepts exactly \<open>proto://addr\<close> with a
  nonempty address and a protocol that is \<open>unix\<close> up to case; it returns both as written.
\<close>

theorem parseEndpoint_accepts:
  assumes "list_all is_ascii ep"
  shows "parseEndpoint uni ep \<noteq> Panic \<and>
    (\<forall>p a. parseEndpoint uni ep = Ret (p, a) \<longleftrightarrow>
       (ep = p @ ''://'' @ a \<and> map lower_ascii p = ''unix'') \<and> a \<noteq> [])"
  using parseEndpoint_no_panic [OF assms] parseEndpoint_Ret [OF assms] unfolding unix_endpoint_def
  by (intro conjI allI)

lemma parseEndpoint_accepts_witness:
  "parseEndpoint (\<lambda>s. s) ''Unix://s/x'' = Ret (''Unix'', ''s/x'')"
proof -
  have a: "list_all is_ascii ''Unix://s/x''" by code_simp
  have s: "''Unix://s/x'' = ''Unix'' @ ''://'' @ ''s/x''" by simp
  have l: "map lower_ascii ''Unix'' = ''unix''" by code_simp
  have n: "''s/x'' \<noteq> []" by simp
  have "parseEndpoint (\<lambda>s. s) ''Unix://s/x'' = Ret (''Unix'', ''s/x'') \<longleftrightarrow>
      (''Unix://s/x'' = ''Unix'' @ ''://'' @ ''s/x'' \<and> map lower_ascii ''Unix'' = ''unix'') \<and> ''s/x'' \<noteq> []"
    by (rule parseEndpoint_accepts [OF a, THEN conjunct2, THEN spec, THEN spec])
  with s l n show ?thesis by (simp only: simp_thms)
qed

lemma unix_network:
  assumes "map lower_ascii p = ''unix''" and "p \<in> {''tcp'', ''tcp4'', ''tcp6'', ''unix'', ''unixpacket''}"
  shows "p = ''unix''"
proof -
  have "map lower_ascii ''tcp'' \<noteq> ''unix''" "map lower_ascii ''tcp4'' \<noteq> ''unix''"
    "map lower_ascii ''tcp6'' \<noteq> ''unix''" "map lower_ascii ''unixpacket'' \<noteq> ''unix''" by code_simp+
  with assms show ?thesis by (elim insertE) (simp_all only: empty_iff)
qed

text \<open>
  The server only ever runs on a lower-case \<open>unix://\<close> endpoint, on the absolute path of its
  address, with the services that are not nil: an endpoint in another case passes
  \<open>parseEndpoint\<close>, but \<open>serve\<close> then ends the process, because \<open>net.Listen\<close> knows no such network.
\<close>

theorem serve_on_unix_path:
  assumes law: "listen_law listen" and ascii: "list_all is_ascii ep"
    and run: "serve uni listen run ep ids cs ns f = (Served proto addr services, f')"
  shows "\<exists>a. ep = ''unix'' @ ''://'' @ a \<and> a \<noteq> [] \<and> proto = ''unix'' \<and> addr = ''/'' @ a \<and>
    listen proto addr = None \<and> f' = snd (os_Remove addr f) \<and>
    set services = {x. (x = IdentityService \<and> ids) \<or> (x = ControllerService \<and> cs) \<or> (x = NodeService \<and> ns)}"
proof -
  from run obtain p a where pe: "parseEndpoint uni ep = Ret (p, a)"
    by (auto simp: serve_def split: outcome.splits)
  with parseEndpoint_Ret [OF ascii] have u: "unix_endpoint ep p a" and a: "a \<noteq> []" by blast+
  from run have l: "proto = p" "listen p addr = None" "addr = (if p = ''unix'' then ''/'' @ a else a)"
    "f' = snd (if p = ''unix'' then os_Remove addr f else (None, f))"
    "services = (if ids then [IdentityService] else []) @ (if cs then [ControllerService] else []) @
       (if ns then [NodeService] else [])"
    unfolding serve_def pe by (simp_all add: Let_def split: option.splits if_splits)
  have ep: "ep = p @ ''://'' @ a" using u unfolding unix_endpoint_def by (rule conjunct1)
  have low: "map lower_ascii p = ''unix''" using u unfolding unix_endpoint_def by (rule conjunct2)
  have p: "p = ''unix''" by (rule unix_network [OF low law [unfolded listen_law_def, rule_format, OF l(2)]])
  have svs: "set services = {x. (x = IdentityService \<and> ids) \<or> (x = ControllerService \<and> cs) \<or> (x = NodeService \<and> ns)}"
    unfolding l(5) by auto
  have addr: "addr = ''/'' @ a" "f' = snd (os_Remove addr f)" using l(3,4) p by simp_all
  show ?thesis
    by (rule exI [of _ a], intro conjI svs addr a) (simp_all only: ep p l(1) l(2) [unfolded p])
qed

lemma serve_on_unix_path_witness:
  "\<exists>addr f'. serve (\<lambda>s. s) (\<lambda>n a. if n = ''unix'' then None else Some (ExtError ''unknown network'')) (\<lambda>_ _. None)
     ''unix://x'' True True True \<lparr>fs_cwd = [], fs_umask = 0, fs_nodes = [], fs_deny = \<lambda>_ _. None\<rparr> =
     (Served ''unix'' addr [IdentityService, ControllerService, NodeService], f') \<and> addr = ''/x''"
proof -
  let ?l = "\<lambda>n a. if n = ''unix'' then None else Some (ExtError ''unknown network'')"
  let ?f = "\<lparr>fs_cwd = [], fs_umask = 0, fs_nodes = [], fs_deny = \<lambda>_ _. None\<rparr> :: fs"
  have law: "listen_law ?l" by (simp add: listen_law_def)
  have a: "list_all is_ascii ''unix://x''" by code_simp
  have "(case fst (serve (\<lambda>s. s) ?l (\<lambda>_ _. None) ''unix://x'' True True True ?f) of
      Served p addr svs \<Rightarrow> p = ''unix'' \<and> svs = [IdentityService, ControllerService, NodeService] | _ \<Rightarrow> False)"
    by code_simp
  then obtain addr f' where run: "serve (\<lambda>s. s) ?l (\<lambda>_ _. None) ''unix://x'' True True True ?f =
      (Served ''unix'' addr [IdentityService, ControllerService, NodeService], f')"
    by (cases "serve (\<lambda>s. s) ?l (\<lambda>_ _. None) ''unix://x'' True True True ?f")
      (simp split: serve_result.splits)
  from serve_on_unix_path [OF law a run] obtain b where "''unix://x'' = ''unix'' @ ''://'' @ b" "addr = ''/'' @ b"
    by (elim exE conjE)
  with run show ?thesis by simp
qed

end
