(* ===== verification/LS_Instance.thy ===== *)
theory LS_Instance
  imports LS_Controller LS_Extender LS_Webhook LS_Endpoint
begin

text \<open>
  A concrete environment, on which every law assumed of the code outside the repository holds:
  integer quantities, an API server that checks resource versions and counts them up, an
  informer cache that may lag behind it, a generator of IDs, a queue that counts requeues, and a
  clock. The witnesses of the properties run the model on it.
\<close>

section \<open>Quantities\<close>

definition int_quantity :: "int quantity_ops" where
  "int_quantity =
     \<lparr>q_New = sint, q_Add = (+), q_Sub = (-), q_Cmp = (\<lambda>a b. sgn (a - b)),
      q_Parse = (\<lambda>s. if s = ''500Gi'' then Inr (500 * 2 ^ 30) else Inl (ExtError ''quantity'')),
      q_AsFloat = (\<lambda>n. f64_round (of_int n))\<rparr>"

lemma int_quantity_laws [laws]: "quantity_laws int_quantity of_int"
  by (simp add: quantity_laws_def int_quantity_def sgn_if)

lemma int_quantity_parse: "q_Parse int_quantity ''500Gi'' = Inr (500 * 2 ^ 30)"
  by (simp add: int_quantity_def)

section \<open>API server, cache and IDs\<close>

record api =
  api_objs :: "int LocalStorage list"
  api_cache :: "int LocalStorage list"
  api_count :: nat
  api_ids :: nat

definition api_stored :: "api \<Rightarrow> string \<rightharpoonup> int LocalStorage" where
  "api_stored a n = find (\<lambda>l. ls_Name l = n) (api_objs a)"

text \<open>A cached object is the current one or carries an older version.\<close>

definition api_cached :: "api \<Rightarrow> int LocalStorage \<Rightarrow> int LocalStorage" where
  "api_cached a c =
     (case api_stored a (ls_Name c) of
        None \<Rightarrow> c
      | Some cur \<Rightarrow> if ls_Version c = ls_Version cur then cur else c)"

definition api_list :: "api \<Rightarrow> int LocalStorage list" where
  "api_list a = map (api_cached a) (api_cache a)"

definition api_replace :: "int LocalStorage \<Rightarrow> int LocalStorage list \<Rightarrow> int LocalStorage list" where
  "api_replace l ls = map (\<lambda>x. if ls_Name x = ls_Name l then l else x) ls"

definition set_Version :: "nat \<Rightarrow> 'q LocalStorage \<Rightarrow> 'q LocalStorage" where
  "set_Version n l = l\<lparr>ls_Meta := (ls_Meta l)\<lparr>om_ResourceVersion := replicate n (CHR ''v'')\<rparr>\<rparr>"

definition api_update :: "int LocalStorage \<Rightarrow> api \<Rightarrow> (gerror + int LocalStorage) \<times> api" where
  "api_update l a =
     (case api_stored a (ls_Name l) of
        None \<Rightarrow> (Inl (NotFoundError ''localstorages'' (ls_Name l)), a)
      | Some cur \<Rightarrow>
          if ls_Version cur \<noteq> ls_Version l then (Inl (ExtError ''conflict''), a)
          else (let l' = set_Version (Suc (api_count a)) l
                in (Inr l', a\<lparr>api_objs := api_replace l' (api_objs a),
                              api_count := Suc (api_count a)\<rparr>)))"

definition api_create :: "int LocalStorage \<Rightarrow> api \<Rightarrow> (gerror + int LocalStorage) \<times> api" where
  "api_create l a =
     (case api_stored a (ls_Name l) of
        Some cur \<Rightarrow> (Inl (ExtError ''already exists''), a)
      | None \<Rightarrow>
          (let l' = set_Version (Suc (api_count a)) l
           in (Inr l', a\<lparr>api_objs := api_objs a @ [l'], api_count := Suc (api_count a)\<rparr>)))"

definition api_refresh :: "api \<Rightarrow> api" where
  "api_refresh a = a\<lparr>api_cache := api_objs a\<rparr>"

definition api_services :: "(int, api) services" where
  "api_services =
     \<lparr>sv_ListAll = (\<lambda>a. (api_list a, None)),
      sv_GetByKey = (\<lambda>k a. Inr (find (\<lambda>l. ls_Name l = k) (api_list a))),
      sv_Update = api_update, sv_Create = api_create, sv_List = (\<lambda>a. Inr (api_objs a)),
      sv_NewUUID = (\<lambda>a. (CHR ''p'' # replicate (api_ids a) (CHR ''v''), a\<lparr>api_ids := Suc (api_ids a)\<rparr>)),
      sv_IsNotFound = (\<lambda>e. case e of NotFoundError _ _ \<Rightarrow> True | _ \<Rightarrow> False)\<rparr>"

lemma set_Version_object [simp]:
  "ls_Spec (set_Version n l) = ls_Spec l" "ls_Status (set_Version n l) = ls_Status l"
  "ls_Name (set_Version n l) = ls_Name l"
  by (simp_all add: set_Version_def)

lemma find_replace:
  "find (\<lambda>x. ls_Name x = n) (api_replace l ls) =
     (if n = ls_Name l \<and> find (\<lambda>x. ls_Name x = n) ls \<noteq> None then Some l
      else find (\<lambda>x. ls_Name x = n) ls)"
  by (induction ls) (auto simp: api_replace_def)

lemma api_update_contract [laws]: "update_contract api_services api_stored"
  unfolding update_contract_def
proof (intro allI impI)
  fix obj a r a'
  assume "sv_Update api_services obj a = (r, a')"
  then have u: "api_update obj a = (r, a')" by (simp add: api_services_def)
  show "(\<forall>n. n \<noteq> ls_Name obj \<longrightarrow> api_stored a' n = api_stored a n) \<and>
        ((\<exists>cur obj'. api_stored a (ls_Name obj) = Some cur \<and> ls_Version cur = ls_Version obj \<and>
            api_stored a' (ls_Name obj) = Some obj' \<and> applied obj obj') \<or>
         ((\<exists>e. r = Inl e) \<and> api_stored a' (ls_Name obj) = api_stored a (ls_Name obj)))"
  proof (cases "api_stored a (ls_Name obj)")
    case None
    with u show ?thesis by (auto simp: api_update_def)
  next
    case (Some cur)
    then show ?thesis
      using u by (auto simp: api_update_def Let_def api_stored_def find_replace applied_def split: if_splits)
  qed
qed

lemma api_cached_name [simp]: "ls_Name (api_cached a c) = ls_Name c"
  by (auto simp: api_cached_def api_stored_def split: option.split dest: find_SomeD)

lemma api_cached_current:
  "api_stored a (ls_Name c) = Some cur \<Longrightarrow> ls_Version (api_cached a c) = ls_Version cur \<Longrightarrow>
   api_cached a c = cur"
  by (auto simp: api_cached_def split: if_splits)

lemma api_cache_contract [laws]: "cache_contract api_services api_stored"
  unfolding cache_contract_def
proof (intro allI impI)
  fix a c cur
  assume c: "c \<in> set (fst (sv_ListAll api_services a)) \<or> (\<exists>k. sv_GetByKey api_services k a = Inr (Some c))"
    and "api_stored a (ls_Name c) = Some cur" and "ls_Version c = ls_Version cur"
  moreover from c have "c \<in> set (api_list a)"
    by (auto simp: api_services_def dest: find_SomeD)
  ultimately show "c = cur" by (auto simp: api_list_def api_cached_current)
qed

lemma api_uuid_contract [laws]: "uuid_contract api_services api_stored"
  by (simp add: uuid_contract_def api_services_def api_stored_def fun_eq_iff)

lemma fresh_api:
  "list_all (\<lambda>l. fst (sv_NewUUID api_services a) \<notin> v_VolID ` set (ls_Volumes l)) (api_objs a) \<Longrightarrow>
   fresh_uuid api_services api_stored a"
  by (auto simp: fresh_uuid_def api_stored_def list_all_iff dest!: find_SomeD)

lemma api_not_found_law [laws]: "not_found_law api_services"
  by (simp add: not_found_law_def api_services_def)

text \<open>The listing shows what is stored when names are unique, which a creation keeps.\<close>

definition unique_services :: "(int, api) services" where
  "unique_services = api_services\<lparr>sv_List := \<lambda>a. Inr (filter (\<lambda>l. \<exists>cur. api_stored a (ls_Name l) = Some cur \<and> cur = l)
     (api_objs a))\<rparr>"

lemma find_append: "find P (xs @ ys) = (case find P xs of Some x \<Rightarrow> Some x | None \<Rightarrow> find P ys)"
  by (induction xs) auto

lemma unique_create_contract [laws]: "create_contract unique_services api_stored"
  unfolding create_contract_def
proof (intro conjI allI impI)
  fix obj a r a'
  assume "sv_Create unique_services obj a = (r, a')"
  then have c: "api_create obj a = (r, a')" by (simp add: unique_services_def api_services_def)
  show "(\<exists>obj'. api_stored a (ls_Name obj) = None \<and> api_stored a' = (api_stored a)(ls_Name obj \<mapsto> obj') \<and>
           ls_Spec obj' = ls_Spec obj) \<or>
        ((\<exists>e. r = Inl e) \<and> api_stored a' = api_stored a)"
  proof (cases "api_stored a (ls_Name obj)")
    case None
    let ?l = "set_Version (Suc (api_count a)) obj"
    from None c have "api_objs a' = api_objs a @ [?l]" by (auto simp: api_create_def Let_def)
    then have "api_stored a' = (api_stored a)(ls_Name obj \<mapsto> ?l)"
      using None by (auto simp: fun_eq_iff api_stored_def find_append split: option.split)
    with None show ?thesis by auto
  next
    case (Some cur)
    with c show ?thesis by (auto simp: api_create_def)
  qed
next
  fix a items
  assume "sv_List unique_services a = Inr items"
  then have "set items = {l \<in> set (api_objs a). api_stored a (ls_Name l) = Some l}"
    by (auto simp: unique_services_def)
  also have "\<dots> = ran (api_stored a)"
    unfolding ran_def api_stored_def using find_SomeD by force
  finally show "set items = ran (api_stored a)" .
qed

text \<open>The same server behind a cache that has always caught up.\<close>

definition direct_services :: "(int, api) services" where
  "direct_services = api_services\<lparr>sv_GetByKey := \<lambda>k a. Inr (api_stored a k)\<rparr>"

lemma api_stored_name: "api_stored a k = Some l \<Longrightarrow> ls_Name l = k"
  by (auto simp: api_stored_def dest: find_SomeD)

lemma direct_contracts [laws]:
  "update_contract direct_services api_stored" "cache_contract direct_services api_stored"
proof -
  show "update_contract direct_services api_stored"
    using api_update_contract by (simp add: update_contract_def direct_services_def)
  show "cache_contract direct_services api_stored"
    unfolding cache_contract_def
  proof (intro allI impI)
    fix a c cur
    assume c: "c \<in> set (fst (sv_ListAll direct_services a)) \<or> (\<exists>k. sv_GetByKey direct_services k a = Inr (Some c))"
      and s: "api_stored a (ls_Name c) = Some cur" and v: "ls_Version c = ls_Version cur"
    from c consider "c \<in> set (fst (sv_ListAll api_services a))" | k where "api_stored a k = Some c"
      by (auto simp: direct_services_def)
    then show "c = cur"
    proof cases
      case 1
      with s v api_cache_contract show ?thesis unfolding cache_contract_def by blast
    next
      case 2
      with s api_stored_name [OF 2] show ?thesis by simp
    qed
  qed
qed

section \<open>Queue and clock\<close>

text \<open>The queue: pending keys, and how often each key was requeued.\<close>

record work =
  wk_keys :: "string list"
  wk_count :: "string \<Rightarrow> nat"

definition work_ops :: "work queue_ops" where
  "work_ops =
     \<lparr>qo_Get = (\<lambda>q. case wk_keys q of [] \<Rightarrow> (None, q) | k # ks \<Rightarrow> (Some k, q\<lparr>wk_keys := ks\<rparr>)),
      qo_Done = (\<lambda>k q. q),
      qo_Add = (\<lambda>k q. if k \<in> set (wk_keys q) then q else q\<lparr>wk_keys := wk_keys q @ [k]\<rparr>),
      qo_AddRateLimited = (\<lambda>k q. q\<lparr>wk_keys := wk_keys q @ [k],
                                    wk_count := (wk_count q)(k := Suc (wk_count q k))\<rparr>),
      qo_AddAfter = (\<lambda>k d q. if k \<in> set (wk_keys q) then q else q\<lparr>wk_keys := wk_keys q @ [k]\<rparr>),
      qo_Forget = (\<lambda>k q. q\<lparr>wk_count := (wk_count q)(k := 0)\<rparr>),
      qo_NumRequeues = (\<lambda>k q. wk_count q k),
      qo_Terminating = (\<lambda>e. e = ExtError ''namespace terminating'')\<rparr>"

lemma work_laws [laws]: "queue_laws work_ops"
  by (auto simp: queue_laws_def work_ops_def split: list.split)

text \<open>The queue after a shutdown: it takes no keys any more.\<close>

definition closed_ops :: "work queue_ops" where
  "closed_ops = work_ops\<lparr>qo_Add := \<lambda>k q. q, qo_AddRateLimited := \<lambda>k q. q, qo_AddAfter := \<lambda>k d q. q\<rparr>"

lemma closed_laws [laws]: "shutdown_laws closed_ops (\<lambda>_. True) (\<lambda>q. length (wk_keys q))"
  by (auto simp: shutdown_laws_def closed_ops_def work_ops_def split: list.split)

text \<open>A cluster with one storage class and claims that appear at a given time.\<close>

record cluster =
  cl_api :: api
  cl_now :: int

definition cluster_services :: "(int, cluster) services" where
  "cluster_services =
     \<lparr>sv_ListAll = (\<lambda>c. sv_ListAll api_services (cl_api c)),
      sv_GetByKey = (\<lambda>k c. sv_GetByKey api_services k (cl_api c)),
      sv_Update = (\<lambda>l c. case api_update l (cl_api c) of (r, a) \<Rightarrow> (r, c\<lparr>cl_api := a\<rparr>)),
      sv_Create = (\<lambda>l c. case api_create l (cl_api c) of (r, a) \<Rightarrow> (r, c\<lparr>cl_api := a\<rparr>)),
      sv_List = (\<lambda>c. sv_List api_services (cl_api c)),
      sv_NewUUID = (\<lambda>c. case sv_NewUUID api_services (cl_api c) of (i, a) \<Rightarrow> (i, c\<lparr>cl_api := a\<rparr>)),
      sv_IsNotFound = sv_IsNotFound api_services\<rparr>"

text \<open>The claim \<open>data\<close> asks for a number of bytes and exists from a time on; \<open>plain\<close> has no
  storage class; nothing else exists.\<close>

definition cluster_ops_of :: "int \<Rightarrow> int \<Rightarrow> (int, cluster) cluster_ops" where
  "cluster_ops_of bytes born =
     \<lparr>co_GetPVC = (\<lambda>ns name c.
        if name = ''data'' \<and> born \<le> cl_now c
        then Inr \<lparr>pvc_Name = name, pvc_StorageClassName = Some ''local'',
                  pvc_Requests = [''storage'' \<mapsto> bytes]\<rparr>
        else if name = ''plain''
        then Inr \<lparr>pvc_Name = name, pvc_StorageClassName = None, pvc_Requests = [''storage'' \<mapsto> bytes]\<rparr>
        else Inl (ExtError ''not found'')),
      co_GetSC = (\<lambda>name c. if name = ''local'' then Inr \<lparr>sc_Provisioner = ''localstorage.csi.caoyingjunz.io''\<rparr>
                            else Inl (ExtError ''not found'')),
      co_Now = (\<lambda>c. (cl_now c, c)),
      co_Sleep = (\<lambda>d c. c\<lparr>cl_now := cl_now c + d\<rparr>)\<rparr>"

lemma cluster_clock [laws]: "clock_laws (cluster_ops_of bytes born) cl_now"
  by (simp add: clock_laws_def cluster_ops_of_def)

section \<open>Sample objects\<close>

definition sample_fs :: fs where
  "sample_fs = \<lparr>fs_cwd = [], fs_umask = 0x12, fs_nodes = [], fs_deny = (\<lambda>_ _. None)\<rparr>"

definition sample_cfg :: Config where
  "sample_cfg = \<lparr>cf_DriverName = ''localstorage.csi.caoyingjunz.io'', cf_Endpoint = ''unix://tmp/csi.sock'',
                 cf_VendorVersion = ''v1'', cf_NodeId = ''n'', cf_VolumeDir = ''/d''\<rparr>"

definition sample_req :: CreateVolumeRequest where
  "sample_req = \<lparr>cv_Name = ''pvc'', cv_Capabilities = Some [''rw''], cv_RequiredBytes = 10,
                 cv_Parameters = None, cv_ContentSource = None\<rparr>"

text \<open>The localstorage of node \<open>n\<close> in a phase, with quantities and volumes.\<close>

definition sample_ls :: "LocalStoragePhase \<Rightarrow> int option \<Rightarrow> int option \<Rightarrow> Volume list \<Rightarrow> int LocalStorage" where
  "sample_ls phase al cap vs =
     \<lparr>ls_Kind = ''LocalStorage'', ls_APIVersion = ''v1'',
      ls_Meta = \<lparr>om_Name = ''ls-n'', om_ResourceVersion = ''v'', om_Annotations = Map.empty,
                 om_Finalizers = [''caoyingjunz.io/ls-protection''], om_DeletionTimestamp = None\<rparr>,
      ls_Spec = \<lparr>sp_Node = ''n'', sp_Path = Some \<lparr>ps_VolumeDir = ''/d''\<rparr>, sp_Lvm = None\<rparr>,
      ls_Status = \<lparr>st_Phase = phase, st_Allocatable = al, st_Capacity = cap, st_Volumes = vs,
                   st_Mode = [], st_Conditions = []\<rparr>\<rparr>"

definition sample_vol :: "string \<Rightarrow> int64 \<Rightarrow> Volume" where
  "sample_vol i n = zero_Volume\<lparr>v_VolID := i, v_VolPath := ''/d/'' @ i, v_VolSize := n\<rparr>"

definition sample_api :: "int LocalStorage \<Rightarrow> api" where
  "sample_api l = \<lparr>api_objs = [l], api_cache = [l], api_count = 1, api_ids = 1\<rparr>"

definition ready_world :: "api world" where
  "ready_world = \<lparr>w_fs = sample_fs,
     w_sv = sample_api (sample_ls LocalStorageReady (Some 95) (Some 100) [sample_vol ''a'' 5])\<rparr>"

lemma sample_ls_simps [simp]:
  "ls_Name (sample_ls p al cap vs) = ''ls-n''" "ls_Node (sample_ls p al cap vs) = ''n''"
  "ls_Phase (sample_ls p al cap vs) = p" "ls_Volumes (sample_ls p al cap vs) = vs"
  "st_Allocatable (ls_Status (sample_ls p al cap vs)) = al"
  "st_Capacity (ls_Status (sample_ls p al cap vs)) = cap"
  "sp_Path (ls_Spec (sample_ls p al cap vs)) = Some \<lparr>ps_VolumeDir = ''/d''\<rparr>"
  "sp_Lvm (ls_Spec (sample_ls p al cap vs)) = None"
  by (simp_all add: sample_ls_def)

lemma sample_api_list [simp]: "api_list (sample_api l) = [l]"
  by (simp add: api_list_def sample_api_def api_cached_def api_stored_def)

lemma sample_api_stored [simp]: "api_stored (sample_api l) = [ls_Name l \<mapsto> l]"
  by (simp add: api_stored_def sample_api_def fun_eq_iff)

end
