(* ===== verification/LS_System.thy ===== *)
theory LS_System
  imports LS_Controller LS_Webhook
begin

text \<open>
  The components together: the node plugins, each with its own file tree, the cluster controller
  and the admission webhooks, around one API server. A step is one handler call, one
  reconciliation, one stage of an admitted request, or a change outside that leaves the stored
  objects alone (a cache that catches up, time passing), and carries the event it handles. Steps
  are as free as the code leaves them: any volume ID may be deleted, any object a plugin sees may
  be reconciled, the validator may be answered with any listing, and a creation may be stored
  long after it was validated. A trace is a run with its events and the states they found; what a
  property needs of a run, it says of the events of its trace.
\<close>

section \<open>States, events and steps\<close>

text \<open>
  \<open>sy_admitted\<close>: the objects whose creation the webhooks have allowed and the API server has not
  stored yet.
\<close>

record ('q, 'a) system =
  sy_fs :: "string \<Rightarrow> fs"
  sy_sv :: 'a
  sy_admitted :: "'q LocalStorage list"

definition at_node :: "string \<Rightarrow> ('q, 'a) system \<Rightarrow> 'a world" where
  "at_node n s = \<lparr>w_fs = sy_fs s n, w_sv = sy_sv s\<rparr>"

definition put_node :: "string \<Rightarrow> 'a world \<Rightarrow> ('q, 'a) system \<Rightarrow> ('q, 'a) system" where
  "put_node n w s = s\<lparr>sy_fs := (sy_fs s)(n := w_fs w), sy_sv := w_sv w\<rparr>"

lemma node_world [simp]:
  "w_fs (at_node n s) = sy_fs s n" "w_sv (at_node n s) = sy_sv s"
  "sy_fs (put_node n w s) = (sy_fs s)(n := w_fs w)" "sy_sv (put_node n w s) = w_sv w"
  "sy_admitted (put_node n w s) = sy_admitted s"
  by (simp_all add: at_node_def put_node_def)

text \<open>
  \<open>CreateAt\<close> and \<open>DeleteAt\<close> are calls of a node's plugin, \<open>SyncAt\<close> and \<open>ControlAt\<close> the reconciliation
  of a key. A creation begins with the webhooks' verdict, given the listing \<open>vc_List\<close> the validator
  got, and is then stored or dropped. An object with finalizers is first marked as deleted.
\<close>

datatype 'q system_event =
    CreateAt string CreateVolumeRequest
  | DeleteAt string string
  | SyncAt string string
  | ControlAt string
  | AdmitBegin "'q validator_client" "'q LocalStorage"
  | AdmitStore "'q LocalStorage"
  | AdmitDrop "'q LocalStorage"
  | AdmitUpdate string "'q LocalStorage"
  | MarkDeleted string
  | AdmitDelete string
  | Outside

inductive system_step ::
    "'q quantity_ops \<Rightarrow> ('q, 'a) services \<Rightarrow> ('a \<Rightarrow> string \<rightharpoonup> 'q LocalStorage) \<Rightarrow>
     (string \<Rightarrow> Config) \<Rightarrow> 'q system_event \<Rightarrow> ('q, 'a) system \<Rightarrow> ('q, 'a) system \<Rightarrow> bool"
  for Q S stored C where
  create_volume: "CreateVolume Q S (C n) req (at_node n s) = (r, w) \<Longrightarrow>
     system_step Q S stored C (CreateAt n req) s (put_node n w s)"
| delete_volume: "DeleteVolume Q S (C n) volId (at_node n s) = (r, w) \<Longrightarrow>
     system_step Q S stored C (DeleteAt n volId) s (put_node n w s)"
| plugin_sync: "sync Q S dKey (at_node n s) = (e, w) \<Longrightarrow>
     system_step Q S stored C (SyncAt n dKey) s (put_node n w s)"
| controller_sync: "syncStorage S dKey \<lparr>c_sv = sy_sv s, c_events = evs\<rparr> = (e, c) \<Longrightarrow>
     system_step Q S stored C (ControlAt dKey) s (s\<lparr>sy_sv := c_sv c\<rparr>)"
| admit_begin: "ValidateCreate V (mutate l opCreate) = None \<Longrightarrow> validateName V (mutate l opCreate) = None \<Longrightarrow>
     vc_LabelMax V = 63 \<Longrightarrow>
     system_step Q S stored C (AdmitBegin V l) s (s\<lparr>sy_admitted := mutate l opCreate # sy_admitted s\<rparr>)"
| admit_store: "x \<in> set (sy_admitted s) \<Longrightarrow> stored (sy_sv s) (ls_Name x) = None \<Longrightarrow> applied x l' \<Longrightarrow>
     stored a = (stored (sy_sv s))(ls_Name x \<mapsto> l') \<Longrightarrow>
     system_step Q S stored C (AdmitStore x) s (s\<lparr>sy_sv := a, sy_admitted := remove1 x (sy_admitted s)\<rparr>)"
| admit_drop: "x \<in> set (sy_admitted s) \<Longrightarrow>
     system_step Q S stored C (AdmitDrop x) s (s\<lparr>sy_admitted := remove1 x (sy_admitted s)\<rparr>)"
| admit_update: "stored (sy_sv s) k = Some old \<Longrightarrow> ValidateUpdate old (mutate l opUpdate) = None \<Longrightarrow>
     applied (mutate l opUpdate) l' \<Longrightarrow> stored a = (stored (sy_sv s))(k \<mapsto> l') \<Longrightarrow>
     validateName V (mutate l opUpdate) = None \<Longrightarrow> vc_LabelMax V = 63 \<Longrightarrow>
     system_step Q S stored C (AdmitUpdate k l) s (s\<lparr>sy_sv := a\<rparr>)"
| mark_deleted: "stored (sy_sv s) k = Some l \<Longrightarrow> applied l l' \<Longrightarrow> stored a = (stored (sy_sv s))(k \<mapsto> l') \<Longrightarrow>
     system_step Q S stored C (MarkDeleted k) s (s\<lparr>sy_sv := a\<rparr>)"
| admit_delete: "stored a = (stored (sy_sv s))(k := None) \<Longrightarrow>
     system_step Q S stored C (AdmitDelete k) s (s\<lparr>sy_sv := a\<rparr>)"
| outside: "stored a = stored (sy_sv s) \<Longrightarrow> system_step Q S stored C Outside s (s\<lparr>sy_sv := a\<rparr>)"

text \<open>
  The trace of a run, latest event first: each event with the state it found. A cluster starts
  with no objects, and any files on its nodes.
\<close>

type_synonym ('q, 'a) moment = "'q system_event \<times> ('q, 'a) system"

inductive system_trace ::
    "'q quantity_ops \<Rightarrow> ('q, 'a) services \<Rightarrow> ('a \<Rightarrow> string \<rightharpoonup> 'q LocalStorage) \<Rightarrow>
     (string \<Rightarrow> Config) \<Rightarrow> ('q, 'a) moment list \<Rightarrow> ('q, 'a) system \<Rightarrow> bool"
  for Q S stored C where
  start: "stored (sy_sv s) = Map.empty \<Longrightarrow> sy_admitted s = [] \<Longrightarrow> system_trace Q S stored C [] s"
| step: "system_trace Q S stored C tr s \<Longrightarrow> system_step Q S stored C e s s' \<Longrightarrow>
     system_trace Q S stored C ((e, s) # tr) s'"

section \<open>What properties say of events\<close>

text \<open>The identifier a plugin generates is new, and no path of its own.\<close>

fun id_fresh :: "('q, 'a) services \<Rightarrow> ('a \<Rightarrow> string \<rightharpoonup> 'q LocalStorage) \<Rightarrow> ('q, 'a) moment \<Rightarrow> bool" where
  "id_fresh S stored (CreateAt n req, s) \<longleftrightarrow>
     fresh_uuid S stored (sy_sv s) \<and> plain_name (fst (sv_NewUUID S (sy_sv s)))"
| "id_fresh S stored _ \<longleftrightarrow> True"

text \<open>A request from outside leaves the status to the components.\<close>

fun status_kept :: "('a \<Rightarrow> string \<rightharpoonup> 'q LocalStorage) \<Rightarrow> ('q, 'a) moment \<Rightarrow> bool" where
  "status_kept stored (AdmitBegin V l, s) \<longleftrightarrow> st_Allocatable (ls_Status l) = None"
| "status_kept stored (AdmitUpdate k l, s) \<longleftrightarrow>
     (case stored (sy_sv s) k of None \<Rightarrow> True | Some old \<Rightarrow> ls_Status l = ls_Status old)"
| "status_kept stored _ \<longleftrightarrow> True"

text \<open>A plugin initialises the current object of this name although it has volumes.\<close>

fun resets :: "('q, 'a) services \<Rightarrow> ('a \<Rightarrow> string \<rightharpoonup> 'q LocalStorage) \<Rightarrow> string \<Rightarrow> ('q, 'a) moment \<Rightarrow> bool" where
  "resets S stored k (SyncAt n dKey, s) \<longleftrightarrow>
     (case lister_Get S dKey (sy_sv s) of
        Inl _ \<Rightarrow> False
      | Inr l \<Rightarrow> ls_Name l = k \<and> stored (sy_sv s) k = Some l \<and> \<not> LocalStorageIsPending l \<and>
          sp_Path (ls_Spec l) \<noteq> None \<and> ls_Volumes l \<noteq> [])"
| "resets S stored k _ \<longleftrightarrow> False"

text \<open>A deletion on this node by an ID that is a path, or while the node has two stored objects.\<close>

definition shared_node :: "(string \<rightharpoonup> 'q LocalStorage) \<Rightarrow> string \<Rightarrow> bool" where
  "shared_node m n \<longleftrightarrow>
     (\<exists>j k l l'. m j = Some l \<and> m k = Some l' \<and> ls_Node l = n \<and> ls_Node l' = n \<and> j \<noteq> k)"

fun wild_delete :: "('a \<Rightarrow> string \<rightharpoonup> 'q LocalStorage) \<Rightarrow> string \<Rightarrow> ('q, 'a) moment \<Rightarrow> bool" where
  "wild_delete stored n (DeleteAt n' i, s) \<longleftrightarrow>
     n' = n \<and> (\<not> plain_name i \<or> shared_node (stored (sy_sv s)) n)"
| "wild_delete stored n _ \<longleftrightarrow> False"

text \<open>
  A creation for this node validated while an object of the node was stored (the listing did not
  show it, or the validator would have refused) or another creation for it was on its way.
\<close>

fun blind_admission :: "('a \<Rightarrow> string \<rightharpoonup> 'q LocalStorage) \<Rightarrow> string \<Rightarrow> ('q, 'a) moment \<Rightarrow> bool" where
  "blind_admission stored n (AdmitBegin V l, s) \<longleftrightarrow>
     ls_Node l = n \<and> (n \<in> ls_Node ` ran (stored (sy_sv s)) \<or> n \<in> ls_Node ` set (sy_admitted s))"
| "blind_admission stored n _ \<longleftrightarrow> False"

section \<open>Objects, nodes and directories\<close>

definition one_per_node :: "(string \<rightharpoonup> 'q LocalStorage) \<Rightarrow> bool" where
  "one_per_node m \<longleftrightarrow>
     (\<forall>j k l l'. m j = Some l \<longrightarrow> m k = Some l' \<longrightarrow> ls_Node l = ls_Node l' \<longrightarrow> j = k)"

lemma one_per_node_replace:
  "one_per_node m \<Longrightarrow> m k = Some l \<Longrightarrow> ls_Node l' = ls_Node l \<Longrightarrow> one_per_node (m(k \<mapsto> l'))"
  unfolding one_per_node_def by (auto split: if_splits)

definition has_dir :: "Config \<Rightarrow> fs \<Rightarrow> string \<Rightarrow> bool" where
  "has_dir cfg f i \<longleftrightarrow> exists_at f (pos_of f (parseVolumePath (cf_VolumeDir cfg) i))"

lemma has_dir_grows: "f \<le> g \<Longrightarrow> has_dir cfg f i \<Longrightarrow> has_dir cfg g i"
  unfolding fs_le_iff has_dir_def by (metis same_env_pos)

lemma MkdirAll_grows: "os_MkdirAll p perm f = (r, g) \<Longrightarrow> f \<le> g"
  by (fastforce simp: fs_le_iff exists_at_def intro: os_MkdirAll_frame(1) dest: os_MkdirAll_frame(2))

lemma CreateVolumeDir_grows: "CreateVolumeDir p f = (r, g) \<Longrightarrow> f \<le> g"
  by (simp add: fs_le_iff dirs.create_env dirs.create_keeps)

lemma makeVolumeDir_grows: "makeVolumeDir p f = (r, g) \<Longrightarrow> f \<le> g"
  by (auto simp: makeVolumeDir_def intro: MkdirAll_grows split: sum.splits if_splits)

lemma path_setup_grows: "path_setup Q l p f = (r, g) \<Longrightarrow> f \<le> g"
  by (auto simp: path_setup_def split: sum.splits prod.splits option.splits intro: makeVolumeDir_grows)

lemma sync_grows: "sync Q S dKey w = (r, w') \<Longrightarrow> w_fs w \<le> w_fs w'"
  by (auto simp: sync_def split: sum.splits prod.splits option.splits if_splits intro: path_setup_grows)

lemma DeleteVolumeDir_siblings:
  assumes "DeleteVolumeDir (parseVolumePath (cf_VolumeDir cfg) i) f = (r, g)"
    and "plain_name i" and "plain_name j" and "i \<noteq> j" and "has_dir cfg f j"
  shows "has_dir cfg g j"
  using assms dirs.sibling_survives unfolding has_dir_def parseVolumePath_def by blast

text \<open>
  What an update of an object read from the cache does to the store: nothing, or the object was
  current and is replaced. It is the second when the update reports success.
\<close>

lemma update_current:
  assumes "update_contract S stored" and "sv_Update S obj a = (u, a')"
    and "\<And>cur. stored a (ls_Name obj) = Some cur \<Longrightarrow> ls_Version cur = ls_Version obj \<Longrightarrow> cur = l"
  obtains (same) e where "u = Inl e" "stored a' = stored a"
  | (replaced) obj' where "stored a (ls_Name obj) = Some l"
      "stored a' = (stored a)(ls_Name obj \<mapsto> obj')" "applied obj obj'"
  using assms(1,2)
proof (cases rule: update_cases)
  case (stored cur obj')
  have "stored a' = (stored a)(ls_Name obj \<mapsto> obj')"
  proof
    fix n show "stored a' n = ((stored a)(ls_Name obj \<mapsto> obj')) n"
      using stored by (cases "n = ls_Name obj") auto
  qed
  moreover from stored assms(3) have "stored a (ls_Name obj) = Some l" by blast
  ultimately show ?thesis using stored(4) replaced by blast
next
  case (unchanged e)
  with same show ?thesis by blast
qed

section \<open>What the handlers do to the store\<close>

text \<open>What a creation does to the store, whatever it answers.\<close>

lemma CreateVolume_effect:
  assumes S: "update_contract S stored" "cache_contract S stored" "uuid_contract S stored"
    and run: "CreateVolume Q S cfg req w = (r, w')"
  obtains (nothing) "stored (w_sv w') = stored (w_sv w)"
  | (allocated) s s' i where "stored (w_sv w) (ls_Name s) = Some s" "ls_Node s = cf_NodeId cfg"
      "stored (w_sv w') = (stored (w_sv w))(ls_Name s \<mapsto> s')"
      "applied (allocate Q (new_Volume cfg req i) s) s'"
      "i = fst (sv_NewUUID S (w_sv w))" "st_Allocatable (ls_Status s) \<noteq> None"
  using run
proof (cases rule: CreateVolume_cases)
  case (update s i a1 f1 q u a2)
  have a1: "stored a1 = stored (w_sv w)" using S(3) update(2) by (simp add: uuid_contract_def) (metis snd_conv)
  show ?thesis
    using S(1) update(5)
  proof (rule update_current)
    fix cur
    assume "stored a1 (ls_Name (allocate Q (new_Volume cfg req i) s)) = Some cur"
      and "ls_Version cur = ls_Version (allocate Q (new_Volume cfg req i) s)"
    then show "cur = s" using cached_current [OF S(2) update(1)] a1 by simp
  next
    assume "stored a2 = stored a1"
    with a1 update(6) have "stored (w_sv w') = stored (w_sv w)" by simp
    then show ?thesis by (rule nothing)
  next
    fix s' assume "stored a1 (ls_Name (allocate Q (new_Volume cfg req i) s)) = Some s"
      "stored a2 = (stored a1)(ls_Name (allocate Q (new_Volume cfg req i) s) \<mapsto> s')"
      "applied (allocate Q (new_Volume cfg req i) s) s'"
    with a1 update(2,4,6) GetLocalStorageByNode_Inr(2) [OF update(1)] show ?thesis using allocated by simp
  qed
next
  case rejected
  then have "stored (w_sv w') = stored (w_sv w)" by simp
  then show ?thesis by (rule nothing)
next
  case (mkdir s i a1 f1 e)
  with S(3) have "stored (w_sv w') = stored (w_sv w)" by (simp add: uuid_contract_def) (metis snd_conv)
  then show ?thesis by (rule nothing)
next
  case (panic s i a1 f1)
  with S(3) have "stored (w_sv w') = stored (w_sv w)" by (simp add: uuid_contract_def) (metis snd_conv)
  then show ?thesis by (rule nothing)
qed

text \<open>What a deletion does to the store, whatever it answers.\<close>

lemma DeleteVolume_effect:
  assumes S: "update_contract S stored" "cache_contract S stored"
    and run: "DeleteVolume Q S cfg i w = (r, w')"
  obtains (nothing) "stored (w_sv w') = stored (w_sv w)" "\<And>u. r \<noteq> Ret u"
  | (released) s s' where "stored (w_sv w) (ls_Name s) = Some s" "ls_Node s = cf_NodeId cfg"
      "stored (w_sv w') = (stored (w_sv w))(ls_Name s \<mapsto> s')" "applied (release Q i s) s'"
      "st_Allocatable (ls_Status s) \<noteq> None"
proof -
  have upd: thesis
    if g: "GetLocalStorageByNode S (cf_NodeId cfg) (w_sv w) = Inr s" and u: "sv_Update S (release Q i s) (w_sv w) = (o', a1)"
      and w': "w_sv w' = a1" and r: "\<And>e. o' = Inl e \<Longrightarrow> r = Err e" and q: "st_Allocatable (ls_Status s) = Some q" for s o' a1 q
    using S(1) u
  proof (rule update_current)
    fix cur
    assume "stored (w_sv w) (ls_Name (release Q i s)) = Some cur" and "ls_Version cur = ls_Version (release Q i s)"
    then show "cur = s" using cached_current [OF S(2) g] by simp
  next
    fix e assume "o' = Inl e" "stored a1 = stored (w_sv w)"
    then have "stored (w_sv w') = stored (w_sv w)" "\<And>u. r \<noteq> Ret u" using w' r [of e] by simp_all
    then show ?thesis by (rule nothing)
  next
    fix s' assume "stored (w_sv w) (ls_Name (release Q i s)) = Some s"
      "stored a1 = (stored (w_sv w))(ls_Name (release Q i s) \<mapsto> s')" "applied (release Q i s) s'"
    with w' q GetLocalStorageByNode_Inr(2) [OF g] show ?thesis by (intro released [of s s']) simp_all
  qed
  show thesis
    using run
  proof (cases rule: DeleteVolume_cases)
    case rejected
    show ?thesis by (rule nothing) (simp_all add: rejected)
  next
    case panic
    show ?thesis by (rule nothing) (simp_all add: panic)
  next
    case (refused s q e a1)
    then show ?thesis using upd [OF refused(1,3) _ _ refused(2)] by simp
  next
    case (updated s q o' a1 d f1)
    then show ?thesis using upd [OF updated(1,4) _ _ updated(2)] by simp
  qed
qed

text \<open>What a reconciliation that read an object and submits a new status does.\<close>

lemma status_update_store:
  assumes S: "update_contract S stored" "cache_contract S stored"
    and g: "lister_Get S k a = Inr l" and u: "sv_Update S obj a = (u, a')" and m: "ls_Meta obj = ls_Meta l"
  shows "stored a' = stored a \<and> (\<exists>e. u = Inl e) \<or>
    (\<exists>l'. stored a (ls_Name l) = Some l \<and> stored a' = (stored a)(ls_Name l \<mapsto> l') \<and> applied obj l')"
  using S(1) u
proof (rule update_current)
  fix cur
  assume "stored a (ls_Name obj) = Some cur" and "ls_Version cur = ls_Version obj"
  then show "cur = l" using lister_current [OF S(2) g] m by simp
qed (use m in auto)

text \<open>What a run of \<open>sync\<close> does to the store, whatever it answers.\<close>

lemma sync_effect:
  assumes S: "update_contract S stored" "cache_contract S stored" and run: "sync Q S dKey w = (e, w')"
  obtains (nothing) "stored (w_sv w') = stored (w_sv w)"
  | (moved) l l' where "lister_Get S dKey (w_sv w) = Inr l" "stored (w_sv w) (ls_Name l) = Some l"
      "stored (w_sv w') = (stored (w_sv w))(ls_Name l \<mapsto> l')" "ls_Spec l' = ls_Spec l" "ls_Name l' = ls_Name l"
  using run
proof (cases rule: sync_cases)
  case (idle f1)
  then have "stored (w_sv w') = stored (w_sv w)" by simp
  then show ?thesis by (rule nothing)
next
  case (promote l u a1)
  from status_update_store [OF S promote(1,3)]
  consider (same) "stored a1 = stored (w_sv w)"
    | (new) l' where "stored (w_sv w) (ls_Name l) = Some l" "stored a1 = (stored (w_sv w))(ls_Name l \<mapsto> l')"
      "applied (set_Phase LocalStorageInitiating l) l'" by auto
  then show ?thesis
  proof cases
    case same
    with promote have "stored (w_sv w') = stored (w_sv w)" by simp
    then show ?thesis by (rule nothing)
  next
    case (new l')
    then show ?thesis using promote by (intro moved [of l l']) (simp_all add: applied_def)
  qed
next
  case (initialise l p quantity f1 u a1)
  from status_update_store [OF S initialise(1,7)]
  consider (same) "stored a1 = stored (w_sv w)"
    | (new) l' where "stored (w_sv w) (ls_Name l) = Some l" "stored a1 = (stored (w_sv w))(ls_Name l \<mapsto> l')"
      "applied (initialised quantity l) l'" by auto
  then show ?thesis
  proof cases
    case same
    with initialise have "stored (w_sv w') = stored (w_sv w)" by simp
    then show ?thesis by (rule nothing)
  next
    case (new l')
    then show ?thesis using initialise by (intro moved [of l l']) (simp_all add: applied_def)
  qed
qed

section \<open>What a step does to the stored objects\<close>

text \<open>
  Whatever a handler answers, a step leaves the stored objects alone or changes one of them. The
  plugins and the controller replace an object only by one made from it: a cached copy is either
  current, or its update is refused.
\<close>

inductive store_change ::
    "'q quantity_ops \<Rightarrow> ('q, 'a) services \<Rightarrow> ('a \<Rightarrow> string \<rightharpoonup> 'q LocalStorage) \<Rightarrow>
     (string \<Rightarrow> Config) \<Rightarrow> 'q system_event \<Rightarrow> ('q, 'a) system \<Rightarrow> (string \<rightharpoonup> 'q LocalStorage) \<Rightarrow> bool"
  for Q S stored C where
  unchanged: "store_change Q S stored C e s (stored (sy_sv s))"
| allocated: "stored (sy_sv s) (ls_Name l) = Some l \<Longrightarrow> ls_Node l = n \<Longrightarrow>
     st_Allocatable (ls_Status l) \<noteq> None \<Longrightarrow>
     applied (allocate Q (new_Volume (C n) req (fst (sv_NewUUID S (sy_sv s)))) l) l' \<Longrightarrow>
     store_change Q S stored C (CreateAt n req) s ((stored (sy_sv s))(ls_Name l \<mapsto> l'))"
| released: "stored (sy_sv s) (ls_Name l) = Some l \<Longrightarrow> ls_Node l = n \<Longrightarrow>
     st_Allocatable (ls_Status l) \<noteq> None \<Longrightarrow> applied (release Q i l) l' \<Longrightarrow>
     store_change Q S stored C (DeleteAt n i) s ((stored (sy_sv s))(ls_Name l \<mapsto> l'))"
| promoted: "stored (sy_sv s) (ls_Name l) = Some l \<Longrightarrow> LocalStorageIsPending l \<Longrightarrow>
     applied (set_Phase LocalStorageInitiating l) l' \<Longrightarrow>
     store_change Q S stored C e s ((stored (sy_sv s))(ls_Name l \<mapsto> l'))"
| terminated: "stored (sy_sv s) (ls_Name l) = Some l \<Longrightarrow> \<not> LocalStorageIsTerminating l \<Longrightarrow>
     applied (set_Phase LocalStorageTerminating l) l' \<Longrightarrow>
     store_change Q S stored C e s ((stored (sy_sv s))(ls_Name l \<mapsto> l'))"
| opened: "lister_Get S dKey (sy_sv s) = Inr l \<Longrightarrow> stored (sy_sv s) (ls_Name l) = Some l \<Longrightarrow>
     \<not> LocalStorageIsPending l \<Longrightarrow> sp_Path (ls_Spec l) \<noteq> None \<Longrightarrow> applied (initialised q l) l' \<Longrightarrow>
     store_change Q S stored C (SyncAt n dKey) s ((stored (sy_sv s))(ls_Name l \<mapsto> l'))"
| created: "x \<in> set (sy_admitted s) \<Longrightarrow> stored (sy_sv s) (ls_Name x) = None \<Longrightarrow> applied x l' \<Longrightarrow>
     store_change Q S stored C (AdmitStore x) s ((stored (sy_sv s))(ls_Name x \<mapsto> l'))"
| edited: "stored (sy_sv s) k = Some old \<Longrightarrow> ValidateUpdate old (mutate l opUpdate) = None \<Longrightarrow>
     applied (mutate l opUpdate) l' \<Longrightarrow>
     store_change Q S stored C (AdmitUpdate k l) s ((stored (sy_sv s))(k \<mapsto> l'))"
| marked: "stored (sy_sv s) k = Some l \<Longrightarrow> applied l l' \<Longrightarrow>
     store_change Q S stored C (MarkDeleted k) s ((stored (sy_sv s))(k \<mapsto> l'))"
| removed: "store_change Q S stored C (AdmitDelete k) s ((stored (sy_sv s))(k := None))"

lemma sync_change:
  assumes S: "update_contract S stored" "cache_contract S stored"
    and run: "sync Q S dKey (at_node n s) = (e, w)"
  shows "store_change Q S stored C (SyncAt n dKey) s (stored (w_sv w))"
  using run
proof (cases rule: sync_cases)
  case (idle f1)
  then show ?thesis by (simp add: store_change.unchanged)
next
  case (promote l u a1)
  then show ?thesis
    using status_update_store [OF S, of dKey "sy_sv s" l "set_Phase LocalStorageInitiating l" u a1]
    by (auto intro: store_change.unchanged store_change.promoted)
next
  case (initialise l p quantity f1 u a1)
  then have "stored a1 = stored (sy_sv s) \<or>
    (\<exists>l'. stored (sy_sv s) (ls_Name l) = Some l \<and> stored a1 = (stored (sy_sv s))(ls_Name l \<mapsto> l') \<and>
       applied (initialised quantity l) l')"
    using status_update_store [OF S, of dKey "sy_sv s" l "initialised quantity l" u a1] by auto
  then show ?thesis
  proof (elim disjE exE conjE)
    fix l' assume c: "stored (sy_sv s) (ls_Name l) = Some l" "applied (initialised quantity l) l'"
      and a1: "stored a1 = (stored (sy_sv s))(ls_Name l \<mapsto> l')"
    have "store_change Q S stored C (SyncAt n dKey) s ((stored (sy_sv s))(ls_Name l \<mapsto> l'))"
      using initialise(1-3) c by (intro store_change.opened) simp_all
    with a1 initialise show ?thesis by simp
  qed (use initialise in \<open>simp add: store_change.unchanged\<close>)
qed

lemma syncStorage_change:
  assumes S: "update_contract S stored" "cache_contract S stored"
    and run: "syncStorage S dKey \<lparr>c_sv = sy_sv s, c_events = evs\<rparr> = (e, c)"
  shows "store_change Q S stored C (ControlAt dKey) s (stored (c_sv c))"
  using run
proof (cases rule: syncStorage_cases)
  case idle
  then show ?thesis by (simp add: store_change.unchanged)
next
  case (move l p u a1)
  then have "p = LocalStorageTerminating \<and> \<not> LocalStorageIsTerminating l \<or>
      p = LocalStorageInitiating \<and> LocalStorageIsPending l"
    by (auto simp: next_phase_def split: if_splits)
  with move show ?thesis
    using status_update_store [OF S, of dKey "sy_sv s" l "set_Phase p l" u a1]
    by (auto intro: store_change.unchanged store_change.promoted store_change.terminated)
qed

lemma system_step_change:
  assumes S: "update_contract S stored" "cache_contract S stored" "uuid_contract S stored"
    and C: "\<And>n. cf_NodeId (C n) = n" and step: "system_step Q S stored C e s s'"
  shows "store_change Q S stored C e s (stored (sy_sv s'))"
  using step
proof (cases rule: system_step.cases)
  case (create_volume n req r w)
  from S create_volume(3) show ?thesis
  proof (cases rule: CreateVolume_effect)
    case (allocated l l' i)
    then show ?thesis using C [of n] create_volume by (auto intro: store_change.allocated)
  qed (use create_volume in \<open>simp add: store_change.unchanged\<close>)
next
  case (delete_volume n volId r w)
  from S(1,2) delete_volume(3) show ?thesis
  proof (cases rule: DeleteVolume_effect)
    case (released l l')
    then show ?thesis using C [of n] delete_volume by (auto intro: store_change.released)
  qed (use delete_volume in \<open>simp add: store_change.unchanged\<close>)
next
  case (plugin_sync dKey n e w)
  then show ?thesis using sync_change [OF S(1,2)] by simp
next
  case (controller_sync dKey evs e c)
  then show ?thesis using syncStorage_change [OF S(1,2)] by simp
qed (auto intro: store_change.intros)

text \<open>An object on its way into the store was found valid.\<close>

lemma admitted_valid:
  assumes "system_trace Q S stored C tr s" and "x \<in> set (sy_admitted s)"
  obtains V l s0 where "(AdmitBegin V l, s0) \<in> set tr" "x = mutate l opCreate"
    "ValidateCreate V x = None" "validateName V x = None" "vc_LabelMax V = 63"
proof -
  have "\<exists>V l s0. (AdmitBegin V l, s0) \<in> set tr \<and> x = mutate l opCreate \<and>
      ValidateCreate V x = None \<and> validateName V x = None \<and> vc_LabelMax V = 63"
    using assms
  proof (induction rule: system_trace.induct)
    case (step tr s e s')
    show ?case
    proof (cases "x \<in> set (sy_admitted s)")
      case True
      with step.IH show ?thesis by (metis list.set_intros(2))
    next
      case False
      from step.hyps(2) this step.prems show ?thesis
        by (cases rule: system_step.cases) (auto dest: notin_set_remove1)
    qed
  qed simp
  with that show thesis by blast
qed

section \<open>Identifiers and quantities\<close>

text \<open>
  Volume IDs are unique in an object; one without an allocatable quantity (not initialised yet)
  has no volumes; one with it has a capacity.
\<close>

definition tidy :: "'q LocalStorage \<Rightarrow> bool" where
  "tidy l \<longleftrightarrow> distinct (map v_VolID (ls_Volumes l)) \<and>
     (case st_Allocatable (ls_Status l) of
        None \<Rightarrow> ls_Volumes l = []
      | Some a \<Rightarrow> st_Capacity (ls_Status l) \<noteq> None)"

definition all_tidy :: "(string \<rightharpoonup> 'q LocalStorage) \<Rightarrow> bool" where
  "all_tidy m \<longleftrightarrow> (\<forall>k l. m k = Some l \<longrightarrow> tidy l)"

lemma all_tidyD: "all_tidy m \<Longrightarrow> m k = Some l \<Longrightarrow> tidy l"
  by (simp add: all_tidy_def)

lemma tidy_distinct: "tidy l \<Longrightarrow> distinct (map v_VolID (ls_Volumes l))"
  by (simp add: tidy_def)

lemma all_tidy_upd: "all_tidy m \<Longrightarrow> tidy l \<Longrightarrow> all_tidy (m(k \<mapsto> l))"
  by (simp add: all_tidy_def)

lemma tidy_status: "ls_Status l' = ls_Status l \<Longrightarrow> tidy l' = tidy l"
  by (auto simp: tidy_def split: option.splits)

lemma balanced_tidy: "balanced val l \<Longrightarrow> tidy l"
  by (auto simp: balanced_def tidy_def split: option.splits)

lemma allocate_tidy:
  "tidy l \<Longrightarrow> st_Allocatable (ls_Status l) \<noteq> None \<Longrightarrow> v_VolID v \<notin> v_VolID ` set (ls_Volumes l) \<Longrightarrow>
   tidy (allocate Q v l)"
  by (auto simp: tidy_def allocate_def AddVolume_new split: option.splits)

lemma release_tidy: "tidy l \<Longrightarrow> st_Allocatable (ls_Status l) \<noteq> None \<Longrightarrow> tidy (release Q i l)"
  by (auto simp: tidy_def release_def RemoveVolume_distinct distinct_map_filter_keep split: option.splits)

lemma set_Phase_tidy: "tidy (set_Phase p l) = tidy l"
  by (auto simp: tidy_def split: option.splits)

lemma initialised_tidy: "tidy l \<Longrightarrow> tidy (initialised q l)"
  by (simp add: tidy_def)

text \<open>What the webhooks let in has no volumes and no allocatable quantity.\<close>

definition clean_admissions :: "('q, 'a) system \<Rightarrow> bool" where
  "clean_admissions s \<longleftrightarrow>
     (\<forall>x \<in> set (sy_admitted s). ls_Volumes x = [] \<and> st_Allocatable (ls_Status x) = None)"

lemma step_admitted:
  assumes "system_step Q S stored C e s s'"
  shows "sy_admitted s' = (case e of AdmitBegin V l \<Rightarrow> mutate l opCreate # sy_admitted s
    | AdmitStore x \<Rightarrow> remove1 x (sy_admitted s) | AdmitDrop x \<Rightarrow> remove1 x (sy_admitted s) | _ \<Rightarrow> sy_admitted s)"
  using assms by (cases rule: system_step.cases) simp_all

lemma step_clean:
  assumes "system_step Q S stored C e s s'" and "status_kept stored (e, s)" and "clean_admissions s"
  shows "clean_admissions s'"
  using assms(2,3) set_remove1_subset
  by (cases e) (auto simp: step_admitted [OF assms(1)] clean_admissions_def mutate_status dest: notin_set_remove1)

lemma trace_clean:
  assumes "system_trace Q S stored C tr s" and "\<And>y. y \<in> set tr \<Longrightarrow> status_kept stored y"
  shows "clean_admissions s"
  using assms
proof (induction rule: system_trace.induct)
  case (step tr s e s')
  with step_clean [OF step.hyps(2)] show ?case by simp
qed (simp add: clean_admissions_def)

lemma admitted_empty:
  assumes "clean_admissions s" and "x \<in> set (sy_admitted s)" and "applied x l'"
  shows "ls_Volumes l' = []" and "st_Allocatable (ls_Status l') = None"
  using assms by (simp_all add: clean_admissions_def applied_def)

lemma edited_status:
  assumes "status_kept stored (AdmitUpdate k l, s)" and "stored (sy_sv s) k = Some old"
    and "applied (mutate l opUpdate) l'"
  shows "ls_Status l' = ls_Status old"
  using assms by (simp add: applied_def mutate_status)

text \<open>
  An invariant of single objects: admission establishes it, and each way in which an object is
  replaced keeps it.
\<close>

lemma change_tidy:
  assumes clean: "clean_admissions s" and kept: "status_kept stored (e, s)"
    and fresh: "id_fresh S stored (e, s)" and inv: "all_tidy (stored (sy_sv s))"
    and change: "store_change Q S stored C e s m"
  shows "all_tidy m"
  using change
proof (cases rule: store_change.cases)
  case (allocated l n req l')
  have "fst (sv_NewUUID S (sy_sv s)) \<notin> v_VolID ` set (ls_Volumes l)"
    using fresh allocated by (auto simp: fresh_uuid_def)
  then have "tidy l'"
    using allocate_tidy [of l "new_Volume (C n) req (fst (sv_NewUUID S (sy_sv s)))" Q] allocated
      all_tidyD [OF inv] tidy_status [of l'] by (auto simp: applied_def)
  with allocated inv show ?thesis by (simp add: all_tidy_upd)
next
  case (released l n i l')
  then have "tidy l'" using release_tidy [of l Q i] all_tidyD [OF inv] tidy_status [of l'] by (auto simp: applied_def)
  with released inv show ?thesis by (simp add: all_tidy_upd)
next
  case (promoted l l')
  then have "tidy l'" using all_tidyD [OF inv] tidy_status [of l'] set_Phase_tidy by (metis applied_def)
  with promoted inv show ?thesis by (simp add: all_tidy_upd)
next
  case (terminated l l')
  then have "tidy l'" using all_tidyD [OF inv] tidy_status [of l'] set_Phase_tidy by (metis applied_def)
  with terminated inv show ?thesis by (simp add: all_tidy_upd)
next
  case (opened dKey l q l' n)
  then have "tidy l'" using all_tidyD [OF inv] tidy_status [of l'] initialised_tidy by (metis applied_def)
  with opened inv show ?thesis by (simp add: all_tidy_upd)
next
  case (created x l')
  have "tidy l'" using admitted_empty [OF clean created(3,5)] by (simp add: tidy_def)
  with created inv show ?thesis by (simp add: all_tidy_upd)
next
  case (edited k old l l')
  then have "ls_Status l' = ls_Status old" using edited_status kept by metis
  with edited inv all_tidyD [OF inv edited(3)] tidy_status [of l' old] show ?thesis by (simp add: all_tidy_upd)
next
  case (marked k l l')
  then have "tidy l'" using all_tidyD [OF inv] tidy_status [of l'] by (metis applied_def)
  with marked inv show ?thesis by (simp add: all_tidy_upd)
qed (use inv in \<open>auto simp: all_tidy_def\<close>)

lemma trace_tidy:
  assumes S: "update_contract S stored" "cache_contract S stored" "uuid_contract S stored"
    and C: "\<And>n. cf_NodeId (C n) = n" and tr: "system_trace Q S stored C tr s"
    and "\<And>y. y \<in> set tr \<Longrightarrow> status_kept stored y \<and> id_fresh S stored y"
  shows "all_tidy (stored (sy_sv s))"
  using tr assms(6)
proof (induction rule: system_trace.induct)
  case (step tr s e s')
  have "clean_admissions s" using step.hyps(1) by (rule trace_clean) (use step.prems in simp)
  then show ?case
    by (rule change_tidy [OF _ _ _ _ system_step_change [OF S C step.hyps(2)]]) (use step in auto)
qed (simp add: all_tidy_def)

end
