(* ===== verification/Prop_Volumes.thy ===== *)
theory Prop_Volumes
  imports LS_Instance LS_System
begin

text \<open>
  What the two volume handlers of the plugin guarantee: how a successful call changes the
  object in the API server and the node's file tree, what an error leaves behind, and where the
  paths of volumes lie. Each property with hypotheses has a run of the model on the environment
  of \<open>LS_Instance\<close> at which they hold.
\<close>

section \<open>Auxiliary facts\<close>

lemma outcome_split:
  assumes "is_Ret (fst p)" obtains v w' where "p = (Ret v, w')"
  using assms by (cases p) (auto simp: is_Ret_iff)

lemma sample_balanced:
  "distinct (map v_VolID vs) \<Longrightarrow> al + volume_total vs = cap \<Longrightarrow>
   balanced of_int (sample_ls p (Some al) (Some cap) vs)"
  by (auto simp: balanced_def simp flip: of_int_add)

lemma ready_world_balanced: "all_balanced of_int (api_stored (w_sv ready_world))"
  by (auto simp: all_balanced_def ready_world_def sample_vol_def volume_total_def zero_Volume_def
      intro!: sample_balanced split: if_splits)

lemma ready_world_fresh: "fresh_uuid api_services api_stored (w_sv ready_world)"
  by (auto simp: fresh_uuid_def ready_world_def api_services_def sample_api_def [of l] api_stored_def
      sample_vol_def sample_api_def split: if_splits)

lemma create_runs: "is_Ret (fst (CreateVolume int_quantity api_services sample_cfg sample_req ready_world))"
  by code_simp

lemma delete_runs: "is_Ret (fst (DeleteVolume int_quantity api_services sample_cfg ''a'' ready_world))"
  by code_simp

lemma plain_sample: "plain_name ''a''" "plain_name ''pv''"
  by (simp_all add: plain_name_def)

section \<open>CreateVolume\<close>

lemma CreateVolume_store:
  assumes S: "update_contract S stored" "cache_contract S stored" "uuid_contract S stored"
    and run: "CreateVolume Q S cfg req w = (Ret v, w')"
  obtains s s' q where "GetLocalStorageByNode S (cf_NodeId cfg) (w_sv w) = Inr s"
    "fst (sv_NewUUID S (w_sv w)) = cs_VolumeId v" "st_Allocatable (ls_Status s) = Some q"
    "stored (w_sv w) (ls_Name s) = Some s"
    "stored (w_sv w') = (stored (w_sv w))(ls_Name s \<mapsto> s')"
    "applied (allocate Q (new_Volume cfg req (cs_VolumeId v)) s) s'"
    "CreateVolumeDir (parseVolumePath (cf_VolumeDir cfg) (cs_VolumeId v)) (w_fs w) = (None, w_fs w')"
  using run
proof (cases rule: CreateVolume_cases)
  case (update s i a1 f1 q u a2)
  have a1: "stored a1 = stored (w_sv w)"
    using S(3) update(2) unfolding uuid_contract_def by (metis snd_conv)
  from update(7) obtain o' where o': "u = Inr o'" and i: "i = cs_VolumeId v" by auto
  show ?thesis
    using S(1) update(5)
  proof (rule update_current)
    fix cur
    assume "stored a1 (ls_Name (allocate Q (new_Volume cfg req i) s)) = Some cur"
      and "ls_Version cur = ls_Version (allocate Q (new_Volume cfg req i) s)"
    then show "cur = s" using cached_current [OF S(2) update(1)] a1 by simp
  next
    fix e assume "u = Inl e"
    with o' show ?thesis by simp
  next
    fix obj'
    assume "stored a1 (ls_Name (allocate Q (new_Volume cfg req i) s)) = Some s"
      and "stored a2 = (stored a1)(ls_Name (allocate Q (new_Volume cfg req i) s) \<mapsto> obj')"
      and "applied (allocate Q (new_Volume cfg req i) s) obj'"
    with update a1 i show ?thesis by (intro that [of s q obj']) simp_all
  qed
qed simp_all

text \<open>
  C12. A successful \<open>CreateVolume\<close> implements the ledger's allocation: the object of the node was
  current, it is replaced in the server by one whose ledger has the new volume with the
  requested size (and the same total), and no other object changes.
\<close>

theorem CreateVolume_allocates:
  assumes Q: "quantity_laws Q val"
    and S: "update_contract S stored" "cache_contract S stored" "uuid_contract S stored"
    and fresh: "fresh_uuid S stored (w_sv w)"
    and run: "CreateVolume Q S cfg req w = (Ret v, w')"
  shows "\<exists>k s s'. stored (w_sv w) k = Some s \<and> ls_Node s = cf_NodeId cfg \<and>
           stored (w_sv w') = (stored (w_sv w))(k \<mapsto> s') \<and>
           abs_ledger val s' =
             ledger_alloc (cs_VolumeId v) (sint (cv_RequiredBytes req)) (abs_ledger val s) \<and>
           (\<exists>a a'. st_Allocatable (ls_Status s) = Some a \<and> st_Allocatable (ls_Status s') = Some a' \<and>
              val a' = val a - of_int (sint (cv_RequiredBytes req)))"
  using S run
proof (rule CreateVolume_store)
  fix s s' q
  assume s: "GetLocalStorageByNode S (cf_NodeId cfg) (w_sv w) = Inr s"
    and i: "fst (sv_NewUUID S (w_sv w)) = cs_VolumeId v" and q: "st_Allocatable (ls_Status s) = Some q"
    and cur: "stored (w_sv w) (ls_Name s) = Some s"
    and st: "stored (w_sv w') = (stored (w_sv w))(ls_Name s \<mapsto> s')"
    and ap: "applied (allocate Q (new_Volume cfg req (cs_VolumeId v)) s) s'"
  have "cs_VolumeId v \<notin> v_VolID ` set (ls_Volumes s)"
    using fresh cur i by (auto simp: fresh_uuid_def)
  then have "abs_ledger val (allocate Q (new_Volume cfg req (cs_VolumeId v)) s) =
      ledger_alloc (cs_VolumeId v) (sint (cv_RequiredBytes req)) (abs_ledger val s)"
    using allocate_refines [of "new_Volume cfg req (cs_VolumeId v)" s val Q] by simp
  moreover have "abs_ledger val s' = abs_ledger val (allocate Q (new_Volume cfg req (cs_VolumeId v)) s)"
    using ap by (simp add: applied_def abs_ledger_def)
  moreover have "st_Allocatable (ls_Status s') = Some (q_Sub Q q (q_New Q (cv_RequiredBytes req)))"
    using ap q by (simp add: applied_def allocate_def)
  ultimately show ?thesis
    using cur st q GetLocalStorageByNode_Inr(2) [OF s] Q
    by (intro exI [of _ "ls_Name s"] exI [of _ s] exI [of _ s']) (simp add: quantity_laws_simps)
qed

lemma CreateVolume_allocates_witness:
  "\<exists>v w' s'. CreateVolume int_quantity api_services sample_cfg sample_req ready_world = (Ret v, w') \<and>
     api_stored (w_sv w') ''ls-n'' = Some s' \<and> st_Allocatable (ls_Status s') = Some 85"
proof -
  obtain v w' where run: "CreateVolume int_quantity api_services sample_cfg sample_req ready_world = (Ret v, w')"
    by (rule outcome_split [OF create_runs])
  have st: "api_stored (w_sv ready_world) = [''ls-n'' \<mapsto>
      sample_ls LocalStorageReady (Some 95) (Some 100) [sample_vol ''a'' 5]]"
    by (simp add: ready_world_def)
  have "cv_RequiredBytes sample_req = 10" by (simp add: sample_req_def)
  then show ?thesis
    using CreateVolume_allocates [OF int_quantity_laws api_update_contract api_cache_contract
        api_uuid_contract ready_world_fresh run] run
    by (auto simp: st split: if_splits simp flip: of_int_diff intro!: exI [of _ v])
qed

text \<open>
  C14. What a successful \<open>CreateVolume\<close> answers and leaves on the node: the reply has the new ID,
  the requested size and the parameters with the path added; the path leads to one element below
  the volume directory, and there is a directory with all permission bits, whatever the umask;
  nothing that existed is gone and nothing changed beside the path.
\<close>

theorem CreateVolume_directory:
  assumes run: "CreateVolume Q S cfg req w = (Ret v, w')"
    and plain: "plain_name (fst (sv_NewUUID S (w_sv w)))"
  shows "cs_VolumeId v = fst (sv_NewUUID S (w_sv w)) \<and> cs_CapacityBytes v = cv_RequiredBytes req \<and>
    cs_VolumeContext v = (case cv_Parameters req of None \<Rightarrow> Map.empty | Some m \<Rightarrow> m)
      (''localPath.caoyingjunz.io'' \<mapsto> parseVolumePath (cf_VolumeDir cfg) (cs_VolumeId v)) \<and>
    (let p = pos_of (w_fs w) (cf_VolumeDir cfg) @ [cs_VolumeId v] in
       pos_of (w_fs w) (parseVolumePath (cf_VolumeDir cfg) (cs_VolumeId v)) = p \<and>
       fs_find (w_fs w') p = Some (Dir ModePerm) \<and>
       (\<forall>q. exists_at (w_fs w) q \<longrightarrow> exists_at (w_fs w') q) \<and>
       (\<forall>q. \<not> prefix q p \<longrightarrow> fs_find (w_fs w') q = fs_find (w_fs w) q))"
  using run
proof (cases rule: CreateVolume_cases)
  case (update s i a1 f1 q u a2)
  let ?path = "parseVolumePath (cf_VolumeDir cfg) i"
  from update(7) have v: "cs_VolumeId v = i" "cs_CapacityBytes v = cv_RequiredBytes req"
    "cs_VolumeContext v = (case cv_Parameters req of None \<Rightarrow> Map.empty | Some m \<Rightarrow> m)
      (''localPath.caoyingjunz.io'' \<mapsto> ?path)" by auto
  have i: "fst (sv_NewUUID S (w_sv w)) = i" using update(2) by simp
  then have p: "pos_of (w_fs w) ?path = pos_of (w_fs w) (cf_VolumeDir cfg) @ [i]"
    using plain by (simp add: pos_of_def parseVolumePath_def resolve_below)
  then have mode: "fs_find f1 (pos_of (w_fs w) (cf_VolumeDir cfg) @ [i]) = Some (Dir ModePerm)"
    using CreateVolumeDir_mode [OF update(3)] by simp
  have keep: "exists_at (w_fs w) q \<longrightarrow> exists_at f1 q" for q
    using dirs.create_keeps [OF update(3)] by simp
  have beside: "\<not> prefix q (pos_of (w_fs w) (cf_VolumeDir cfg) @ [i]) \<longrightarrow> fs_find f1 q = fs_find (w_fs w) q" for q
    using CreateVolumeDir_find(3) [OF update(3), of q] p by simp
  show ?thesis
    unfolding Let_def v i using update(6) p mode keep beside by simp
qed simp_all

lemma CreateVolume_directory_witness:
  "\<exists>v w'. CreateVolume int_quantity api_services sample_cfg sample_req ready_world = (Ret v, w') \<and>
     cs_VolumeId v = ''pv'' \<and> fs_find (w_fs w') [''d'', ''pv''] = Some (Dir ModePerm)"
proof -
  obtain v w' where run: "CreateVolume int_quantity api_services sample_cfg sample_req ready_world = (Ret v, w')"
    by (rule outcome_split [OF create_runs])
  have i: "fst (sv_NewUUID api_services (w_sv ready_world)) = ''pv''"
    by (simp add: api_services_def ready_world_def sample_api_def)
  have p: "pos_of (w_fs ready_world) (cf_VolumeDir sample_cfg) = [''d'']" by code_simp
  show ?thesis
    using CreateVolume_directory [OF run] run plain_sample(2) unfolding i p
    by (intro exI [of _ v] exI [of _ w']) (auto simp: Let_def)
qed

text \<open>
  C38. \<open>CreateVolume\<close> panics exactly when the node's localstorage has no allocatable quantity (it
  is not initialised yet) and the volume's directory could be made; it then leaves that
  directory behind, recorded nowhere.
\<close>

theorem CreateVolume_panics_iff:
  "fst (CreateVolume Q S cfg req w) = Panic \<longleftrightarrow>
     cv_Name req \<noteq> [] \<and> cv_Capabilities req \<noteq> None \<and>
     (\<exists>s i a f. GetLocalStorageByNode S (cf_NodeId cfg) (w_sv w) = Inr s \<and>
        st_Allocatable (ls_Status s) = None \<and> sv_NewUUID S (w_sv w) = (i, a) \<and>
        CreateVolumeDir (parseVolumePath (cf_VolumeDir cfg) i) (w_fs w) = (None, f) \<and>
        snd (CreateVolume Q S cfg req w) = \<lparr>w_fs = f, w_sv = a\<rparr> \<and>
        exists_at f (pos_of (w_fs w) (parseVolumePath (cf_VolumeDir cfg) i)))"
  (is "?l \<longleftrightarrow> ?r")
proof
  assume l: ?l
  obtain w' where run: "CreateVolume Q S cfg req w = (Panic, w')" using l by (metis prod.collapse)
  then have "cv_Name req \<noteq> []" "cv_Capabilities req \<noteq> None"
    by (auto simp: CreateVolume_def split: if_splits)
  moreover from run have "\<exists>s i a f. GetLocalStorageByNode S (cf_NodeId cfg) (w_sv w) = Inr s \<and>
        st_Allocatable (ls_Status s) = None \<and> sv_NewUUID S (w_sv w) = (i, a) \<and>
        CreateVolumeDir (parseVolumePath (cf_VolumeDir cfg) i) (w_fs w) = (None, f) \<and>
        snd (CreateVolume Q S cfg req w) = \<lparr>w_fs = f, w_sv = a\<rparr> \<and>
        exists_at f (pos_of (w_fs w) (parseVolumePath (cf_VolumeDir cfg) i))"
    by (cases rule: CreateVolume_cases) (auto simp: run intro: dirs.create_ok)
  ultimately show ?r by blast
next
  assume ?r
  then obtain s i a f caps where "cv_Name req \<noteq> []" "cv_Capabilities req = Some caps"
    "GetLocalStorageByNode S (cf_NodeId cfg) (w_sv w) = Inr s"
    "st_Allocatable (ls_Status s) = None" "sv_NewUUID S (w_sv w) = (i, a)"
    "CreateVolumeDir (parseVolumePath (cf_VolumeDir cfg) i) (w_fs w) = (None, f)" by auto
  then show ?l by (simp add: CreateVolume_def Let_def calculate_sub)
qed

text \<open>
  The free space is no condition: a request larger than what is left succeeds.
\<close>

definition big_req :: CreateVolumeRequest where
  "big_req = sample_req\<lparr>cv_RequiredBytes := 1000\<rparr>"

lemma big_runs: "is_Ret (fst (CreateVolume int_quantity api_services sample_cfg big_req ready_world))"
  by code_simp

text \<open>
  The plugin itself does not check the capacity: on a ready localstorage with 95 bytes free, a
  volume of 1000 bytes is created, and the stored object then offers minus 905 bytes.
\<close>

theorem CreateVolume_overcommits:
  "\<exists>v w' s'. CreateVolume int_quantity api_services sample_cfg big_req ready_world = (Ret v, w') \<and>
     api_stored (w_sv w') ''ls-n'' = Some s' \<and> st_Allocatable (ls_Status s') = Some (- 905)"
proof -
  obtain v w' where run: "CreateVolume int_quantity api_services sample_cfg big_req ready_world = (Ret v, w')"
    by (rule outcome_split [OF big_runs])
  show ?thesis
    using api_update_contract api_cache_contract api_uuid_contract run
  proof (rule CreateVolume_store)
    fix s s' q
    assume "GetLocalStorageByNode api_services (cf_NodeId sample_cfg) (w_sv ready_world) = Inr s"
      and q: "st_Allocatable (ls_Status s) = Some q"
      and cur: "api_stored (w_sv ready_world) (ls_Name s) = Some s"
      and st: "api_stored (w_sv w') = (api_stored (w_sv ready_world))(ls_Name s \<mapsto> s')"
      and ap: "applied (allocate int_quantity (new_Volume sample_cfg big_req (cs_VolumeId v)) s) s'"
    have "s = sample_ls LocalStorageReady (Some 95) (Some 100) [sample_vol ''a'' 5]"
      using cur by (auto simp: ready_world_def split: if_splits)
    moreover from this ap q have "st_Allocatable (ls_Status s') = Some (- 905)"
      by (simp add: applied_def allocate_def int_quantity_def big_req_def)
    ultimately show ?thesis using st run by auto
  qed
qed

section \<open>DeleteVolume\<close>

lemma DeleteVolume_store:
  assumes S: "update_contract S stored" "cache_contract S stored"
    and run: "DeleteVolume Q S cfg volId w = (Ret u, w')"
  obtains s s' q where "GetLocalStorageByNode S (cf_NodeId cfg) (w_sv w) = Inr s"
    "st_Allocatable (ls_Status s) = Some q" "stored (w_sv w) (ls_Name s) = Some s"
    "stored (w_sv w') = (stored (w_sv w))(ls_Name s \<mapsto> s')" "applied (release Q volId s) s'"
    "DeleteVolumeDir (parseVolumePath (cf_VolumeDir cfg) volId) (w_fs w) = (None, w_fs w')"
  using run
proof (cases rule: DeleteVolume_cases)
  case (updated s q o' a1 d f1)
  then have d: "d = None" by (cases d) simp_all
  show ?thesis
    using S(1) updated(4)
  proof (rule update_current)
    fix cur
    assume "stored (w_sv w) (ls_Name (release Q volId s)) = Some cur"
      and "ls_Version cur = ls_Version (release Q volId s)"
    then show "cur = s" using cached_current [OF S(2) updated(1)] by simp
  next
    fix obj'
    assume "stored (w_sv w) (ls_Name (release Q volId s)) = Some s"
      and "stored a1 = (stored (w_sv w))(ls_Name (release Q volId s) \<mapsto> obj')"
      and "applied (release Q volId s) obj'"
    with updated d show ?thesis by (intro that [of s q obj']) simp_all
  qed simp
qed simp_all

text \<open>
  A successful \<open>DeleteVolume\<close> implements the ledger's release: the object of the node is
  replaced by one whose ledger no longer has the volume, the allocatable quantity grows by what
  the volume used (by nothing when the object had no such volume, so a repeated deletion is
  harmless), and no other object changes.
\<close>

theorem DeleteVolume_releases:
  assumes Q: "quantity_laws Q val"
    and S: "update_contract S stored" "cache_contract S stored"
    and bal: "all_balanced val (stored (w_sv w))"
    and run: "DeleteVolume Q S cfg volId w = (Ret u, w')"
  shows "\<exists>k s s'. stored (w_sv w) k = Some s \<and> ls_Node s = cf_NodeId cfg \<and>
           stored (w_sv w') = (stored (w_sv w))(k \<mapsto> s') \<and>
           abs_ledger val s' = ledger_release volId (abs_ledger val s) \<and>
           (\<exists>a a'. st_Allocatable (ls_Status s) = Some a \<and> st_Allocatable (ls_Status s') = Some a' \<and>
              val a' = val a + of_int (case nl_used (abs_ledger val s) volId of None \<Rightarrow> 0 | Some n \<Rightarrow> n))"
  using S run
proof (rule DeleteVolume_store)
  fix s s' q
  assume s: "GetLocalStorageByNode S (cf_NodeId cfg) (w_sv w) = Inr s"
    and q: "st_Allocatable (ls_Status s) = Some q" and cur: "stored (w_sv w) (ls_Name s) = Some s"
    and st: "stored (w_sv w') = (stored (w_sv w))(ls_Name s \<mapsto> s')" and ap: "applied (release Q volId s) s'"
  have d: "distinct (map v_VolID (ls_Volumes s))"
    using bal cur balanced_distinct unfolding all_balanced_def by blast
  have "abs_ledger val s' = ledger_release volId (abs_ledger val s)"
    using ap release_refines [OF d, of val Q volId] by (simp add: applied_def abs_ledger_def)
  moreover have "(case nl_used (abs_ledger val s) volId of None \<Rightarrow> 0 | Some n \<Rightarrow> n) =
      sint (v_VolSize (case find (\<lambda>v. v_VolID v = volId) (ls_Volumes s) of None \<Rightarrow> zero_Volume | Some v \<Rightarrow> v))"
    by (simp add: abs_ledger_def used_of_find zero_Volume_def split: option.split)
  moreover have "st_Allocatable (ls_Status s') = Some (q_Add Q q (q_New Q
      (v_VolSize (case find (\<lambda>v. v_VolID v = volId) (ls_Volumes s) of None \<Rightarrow> zero_Volume | Some v \<Rightarrow> v))))"
    using ap q by (simp add: applied_def release_def RemoveVolume_distinct [OF d])
  ultimately show ?thesis
    using cur st q GetLocalStorageByNode_Inr(2) [OF s] Q
    by (intro exI [of _ "ls_Name s"] exI [of _ s] exI [of _ s']) (simp add: quantity_laws_simps)
qed

lemma DeleteVolume_releases_witness:
  "\<exists>w' s'. DeleteVolume int_quantity api_services sample_cfg ''a'' ready_world = (Ret (), w') \<and>
     api_stored (w_sv w') ''ls-n'' = Some s' \<and> st_Allocatable (ls_Status s') = Some 100"
proof -
  obtain v w' where run: "DeleteVolume int_quantity api_services sample_cfg ''a'' ready_world = (Ret v, w')"
    by (rule outcome_split [OF delete_runs])
  have st: "api_stored (w_sv ready_world) = [''ls-n'' \<mapsto>
      sample_ls LocalStorageReady (Some 95) (Some 100) [sample_vol ''a'' 5]]"
    by (simp add: ready_world_def)
  show ?thesis
    using DeleteVolume_releases [OF int_quantity_laws api_update_contract api_cache_contract
        ready_world_balanced run] run
    by (auto simp: st abs_ledger_def used_of_def sample_vol_def split: if_splits simp flip: of_int_add)
qed

text \<open>
  C15. What a successful \<open>DeleteVolume\<close> of a proper ID does to the files: nothing is left at or
  below the volume's directory, and everything else is as it was, the directories of the other
  volumes among it.
\<close>

theorem DeleteVolume_removes_directory:
  assumes run: "DeleteVolume Q S cfg volId w = (Ret u, w')" and plain: "plain_name volId"
  shows "let p = pos_of (w_fs w) (cf_VolumeDir cfg) @ [volId] in
    (\<forall>q. prefix p q \<longrightarrow> \<not> exists_at (w_fs w') q) \<and>
    (\<forall>q. \<not> prefix p q \<longrightarrow> exists_at (w_fs w') q = exists_at (w_fs w) q) \<and>
    (\<forall>i. plain_name i \<longrightarrow> i \<noteq> volId \<longrightarrow> has_dir cfg (w_fs w) i \<longrightarrow> has_dir cfg (w_fs w') i)"
  using run
proof (cases rule: DeleteVolume_cases)
  case (updated s q o' a1 d f1)
  then have d: "DeleteVolumeDir (Join (cf_VolumeDir cfg) volId) (w_fs w) = (None, w_fs w')"
    by (cases d) (simp_all add: parseVolumePath_def)
  have p: "pos_of (w_fs w) (Join (cf_VolumeDir cfg) volId) = pos_of (w_fs w) (cf_VolumeDir cfg) @ [volId]"
    using plain by (simp add: pos_of_def resolve_below)
  have sib: "has_dir cfg (w_fs w') i" if "plain_name i" "i \<noteq> volId" "has_dir cfg (w_fs w) i" for i
    using DeleteVolumeDir_siblings [OF _ plain that(1) _ that(3)] d that(2) by (simp add: parseVolumePath_def)
  have ne: "Join (cf_VolumeDir cfg) volId \<noteq> []"
    using plain by (intro Join_nonempty) (simp add: plain_name_def)
  show ?thesis
    unfolding Let_def using dirs.delete_ok [OF d] dirs.delete_keeps [OF d] p ne sib by auto
qed simp_all

lemma DeleteVolume_removes_directory_witness:
  "\<exists>w'. DeleteVolume int_quantity api_services sample_cfg ''a'' ready_world = (Ret (), w') \<and>
     \<not> exists_at (w_fs w') [''d'', ''a'']"
proof -
  obtain v w' where run: "DeleteVolume int_quantity api_services sample_cfg ''a'' ready_world = (Ret v, w')"
    by (rule outcome_split [OF delete_runs])
  have p: "pos_of (w_fs ready_world) (cf_VolumeDir sample_cfg) = [''d'']" by code_simp
  show ?thesis
    using DeleteVolume_removes_directory [OF run plain_sample(1)] run unfolding p by (auto simp: Let_def)
qed

text \<open>
  C37. The ID of a \<open>DeleteVolume\<close> request is not checked to be one path element: a successful
  deletion of the volume \<open>..\<close>, which no object lists, removes the parent of the volume directory
  with everything in it.
\<close>

theorem DeleteVolume_parent_escape:
  assumes run: "DeleteVolume Q S cfg ''..'' w = (Ret u, w')"
    and base: "cf_VolumeDir cfg \<noteq> []" and cwd: "list_all not_parent (fs_cwd (w_fs w))"
    and deep: "1 < length (pos_of (w_fs w) (cf_VolumeDir cfg))"
    and q: "prefix (butlast (pos_of (w_fs w) (cf_VolumeDir cfg))) q"
  shows "\<not> exists_at (w_fs w') q"
  using run
proof (cases rule: DeleteVolume_cases)
  case (updated s q' o' a1 d f1)
  then have d: "DeleteVolumeDir (Join (cf_VolumeDir cfg) ''..'') (w_fs w) = (None, w_fs w')"
    by (cases d) (simp_all add: parseVolumePath_def)
  have p: "pos_of (w_fs w) (Join (cf_VolumeDir cfg) ''..'') = butlast (pos_of (w_fs w) (cf_VolumeDir cfg))"
    unfolding pos_of_def by (rule resolve_parent [OF base cwd])
  have ne: "butlast (pos_of (w_fs w) (cf_VolumeDir cfg)) \<noteq> []"
    using deep by (cases "pos_of (w_fs w) (cf_VolumeDir cfg)" rule: rev_cases) auto
  have "Join (cf_VolumeDir cfg) ''..'' \<noteq> []"
    using base by (intro Join_nonempty disjI1)
  then show ?thesis using dirs.delete_ok [OF d] p ne q by simp
qed simp_all

text \<open>A node whose volume directory is \<open>/s/d\<close>, with other data in \<open>/s\<close>.\<close>

definition deep_world :: "api world" where
  "deep_world = ready_world\<lparr>w_fs := sample_fs\<lparr>fs_nodes :=
     [([''s''], Dir ModePerm), ([''s'', ''d''], Dir ModePerm), ([''s'', ''x''], File ''data'')]\<rparr>\<rparr>"

definition deep_cfg :: Config where
  "deep_cfg = sample_cfg\<lparr>cf_VolumeDir := ''/s/d''\<rparr>"

lemma escape_runs: "is_Ret (fst (DeleteVolume int_quantity api_services deep_cfg ''..'' deep_world))"
  by code_simp

lemma DeleteVolume_parent_escape_witness:
  "exists_at (w_fs deep_world) [''s'', ''x''] \<and>
   (\<exists>w'. DeleteVolume int_quantity api_services deep_cfg ''..'' deep_world = (Ret (), w') \<and>
     \<not> exists_at (w_fs w') [''s'', ''x''])"
proof -
  obtain v w' where run: "DeleteVolume int_quantity api_services deep_cfg ''..'' deep_world = (Ret v, w')"
    by (rule outcome_split [OF escape_runs])
  have p: "pos_of (w_fs deep_world) (cf_VolumeDir deep_cfg) = [''s'', ''d'']" by code_simp
  have x: "exists_at (w_fs deep_world) [''s'', ''x'']"
    by (simp add: exists_at_def fs_find_def deep_world_def)
  have c: "cf_VolumeDir deep_cfg \<noteq> []" "list_all not_parent (fs_cwd (w_fs deep_world))"
    by (simp_all add: deep_cfg_def deep_world_def sample_fs_def)
  have "\<not> exists_at (w_fs w') [''s'', ''x'']"
    by (rule DeleteVolume_parent_escape [OF run c]) (simp_all add: p)
  with run x show ?thesis by auto
qed

section \<open>Paths\<close>

text \<open>
  Proper IDs have distinct paths, and each leads to exactly one element below the volume
  directory, however the directory is written (relative, with empty, \<open>.\<close> or \<open>..\<close> elements).
\<close>

theorem parseVolumePath_confined:
  assumes "plain_name i"
  shows "pos_of f (parseVolumePath base i) = pos_of f base @ [i] \<and>
    (\<forall>j. base \<noteq> [] \<longrightarrow> plain_name j \<longrightarrow> parseVolumePath base i = parseVolumePath base j \<longrightarrow> i = j)"
  using assms by (auto simp: pos_of_def parseVolumePath_def resolve_below dest: Join_plain_inj)

lemma parseVolumePath_confined_witness:
  "pos_of sample_fs (parseVolumePath ''x/../d//'' ''a'') = pos_of sample_fs ''x/../d//'' @ [''a'']"
  using parseVolumePath_confined [OF plain_sample(1)] by blast

section \<open>The list of volumes\<close>

text \<open>
  \<open>RemoveVolume\<close> on an object whose volumes have distinct IDs removes exactly the volume with
  the ID, keeps the order of the others, and returns the removed volume, or the zero volume when
  there is none.
\<close>

theorem RemoveVolume_correct:
  assumes "distinct (map v_VolID (ls_Volumes s))"
  shows "RemoveVolume s i =
    (s\<lparr>ls_Status := (ls_Status s)\<lparr>st_Volumes := filter (\<lambda>v. v_VolID v \<noteq> i) (ls_Volumes s)\<rparr>\<rparr>,
     case find (\<lambda>v. v_VolID v = i) (ls_Volumes s) of None \<Rightarrow> zero_Volume | Some v \<Rightarrow> v)"
  using RemoveVolume_distinct [OF assms, of i] by (simp add: set_Volumes_def)

lemma RemoveVolume_correct_witness:
  "RemoveVolume (sample_ls [] None None [sample_vol ''a'' 5, sample_vol ''b'' 7]) ''a'' =
    (sample_ls [] None None [sample_vol ''b'' 7], sample_vol ''a'' 5)"
  by (subst RemoveVolume_correct) (simp_all add: sample_ls_def sample_vol_def)

text \<open>
  With duplicate IDs the loop of \<open>RemoveVolume\<close> is not a filter: after a deletion the index
  still advances, so of two adjacent volumes with the ID the second one stays.
\<close>

theorem RemoveVolume_skips_adjacent:
  assumes "v_VolID v = i" "v_VolID v' = i" and "i \<notin> v_VolID ` set pre" and "i \<notin> v_VolID ` set post"
    and "ls_Volumes s = pre @ v # v' # post"
  shows "RemoveVolume s i = (set_Volumes (pre @ v' # post) s, v)"
proof -
  have "RemoveVolume_loop i (pre @ v # v' # post) k vol = (pre @ v' # post, v)" if "k \<le> length pre" for k vol
    using that
  proof (induction "length pre - k" arbitrary: k)
    case 0
    then have k: "k = length pre" by simp
    have "RemoveVolume_loop i (pre @ v' # post) (Suc (length pre)) v = (pre @ v' # post, v)"
      using assms(4) by (intro RemoveVolume_loop_skip) simp
    then show ?case
      using assms(1) k by (simp add: RemoveVolume_loop.simps [of i "pre @ v # v' # post"])
  next
    case (Suc n)
    then have k: "k < length pre" by simp
    then have "v_VolID (pre ! k) \<noteq> i" using assms(3) by force
    with Suc k show ?case
      by (simp add: RemoveVolume_loop.simps [of i "pre @ v # v' # post" k] nth_append)
  qed
  from this [of 0 zero_Volume] show ?thesis
    by (simp add: RemoveVolume_def GetVolumes_def SetVolume_def assms(5))
qed

lemma RemoveVolume_skips_adjacent_witness:
  "ls_Volumes (fst (RemoveVolume (sample_ls [] None None [sample_vol ''a'' 1, sample_vol ''a'' 2]) ''a'')) =
   [sample_vol ''a'' 2]"
  by (subst RemoveVolume_skips_adjacent [of "sample_vol ''a'' 1" _ "sample_vol ''a'' 2" "[]" "[]"])
    (simp_all add: sample_vol_def)

text \<open>
  \<open>RemoveFinalizer\<close> removes every occurrence of the finalizer (its loop steps back after a
  deletion), keeps the rest in order, and reports whether there was one.
\<close>

theorem RemoveFinalizer_correct:
  "RemoveFinalizer s x =
     (x \<in> set (GetFinalizers s),
      s\<lparr>ls_Meta := (ls_Meta s)\<lparr>om_Finalizers := filter (\<lambda>e. e \<noteq> x) (GetFinalizers s)\<rparr>\<rparr>)"
  by (simp add: RemoveFinalizer_eq ContainsFinalizer_iff set_Finalizers_def)

section \<open>What the services answer\<close>

text \<open>The call that a capability announces.\<close>

fun capability_calls :: "csi_capability \<Rightarrow> controller_method list" where
  "capability_calls GET_VOLUME = [ControllerGetVolume]"
| "capability_calls GET_CAPACITY = [GetCapacity]"
| "capability_calls LIST_VOLUMES = [ListVolumes]"
| "capability_calls PUBLISH_UNPUBLISH_VOLUME = [ControllerPublishVolume, ControllerUnpublishVolume]"
| "capability_calls _ = []"

text \<open>
  Of the calls that the advertised capabilities announce, only \<open>ListVolumes\<close> is implemented
  (with an empty answer): the others are advertised and answer \<open>Unimplemented\<close>.
\<close>

theorem advertised_unimplemented:
  "controller_call ControllerGetCapabilities = Ret (ControllerCapabilities getControllerServiceCapabilities) \<and>
   {(c, m). c \<in> set getControllerServiceCapabilities \<and> m \<in> set (capability_calls c) \<and>
      controller_call m = Err (StatusError Unimplemented [])} =
   {(GET_VOLUME, ControllerGetVolume), (GET_CAPACITY, GetCapacity),
     (PUBLISH_UNPUBLISH_VOLUME, ControllerPublishVolume), (PUBLISH_UNPUBLISH_VOLUME, ControllerUnpublishVolume)}"
  by (auto simp: getControllerServiceCapabilities_def)

end
