(* ===== verification/Prop_Reconcile.thy ===== *)
theory Prop_Reconcile
  imports LS_Instance LS_System
begin

text \<open>
  What the two reconciliation loops do to a localstorage object: the phase machine
  (\<open>Pending\<close>, \<open>Initiating\<close>, \<open>Ready\<close>; \<open>Terminating\<close> under deletion), the errors, convergence to
  \<open>Ready\<close>, and the bound on retries.
\<close>

section \<open>The plugin's sync\<close>

text \<open>
  C16. All a run of \<open>sync\<close> can do to the stored objects: nothing, or move one object from \<open>Pending\<close>
  to \<open>Initiating\<close>, or set one object with a path backend (and not pending) to \<open>Ready\<close> with
  capacity and allocatable both at the node's size. Specification and volumes stay.
\<close>

theorem sync_transition:
  assumes S: "update_contract S stored" "cache_contract S stored"
    and run: "sync Q S dKey w = (e, w')"
  shows "stored (w_sv w') = stored (w_sv w) \<or>
    (\<exists>k cur l'. stored (w_sv w) k = Some cur \<and> stored (w_sv w') = (stored (w_sv w))(k \<mapsto> l') \<and>
       ls_Spec l' = ls_Spec cur \<and>
       (LocalStorageIsPending cur \<and> ls_Status l' = (ls_Status cur)\<lparr>st_Phase := LocalStorageInitiating\<rparr> \<or>
        \<not> LocalStorageIsPending cur \<and> sp_Path (ls_Spec cur) \<noteq> None \<and> sp_Lvm (ls_Spec cur) = None \<and>
        (\<exists>q. q_Parse Q (node_size cur) = Inr q \<and>
           ls_Status l' = (ls_Status cur)\<lparr>st_Phase := LocalStorageReady, st_Allocatable := Some q,
                                           st_Capacity := Some q\<rparr>)))"
  using run
proof (cases rule: sync_cases)
  case (idle f1)
  then show ?thesis by simp
next
  case (promote l u a1)
  from status_update_store [OF S promote(1,3)]
  consider "stored a1 = stored (w_sv w)"
    | l' where "stored (w_sv w) (ls_Name l) = Some l" "stored a1 = (stored (w_sv w))(ls_Name l \<mapsto> l')"
      "applied (set_Phase LocalStorageInitiating l) l'"
    by auto
  then show ?thesis
  proof cases
    case 2
    with promote show ?thesis
      by (intro disjI2 exI [of _ "ls_Name l"] exI [of _ l] exI [of _ l'])
        (simp add: applied_def set_Phase_def)
  qed (use promote in simp)
next
  case (initialise l p quantity f1 u a1)
  from status_update_store [OF S initialise(1,7)]
  consider "stored a1 = stored (w_sv w)"
    | l' where "stored (w_sv w) (ls_Name l) = Some l" "stored a1 = (stored (w_sv w))(ls_Name l \<mapsto> l')"
      "applied (initialised quantity l) l'"
    by auto
  then show ?thesis
  proof cases
    case 2
    with initialise show ?thesis
      by (intro disjI2 exI [of _ "ls_Name l"] exI [of _ l] exI [of _ l'])
        (simp add: applied_def initialised_def field_defs)
  qed (use initialise in simp)
qed

definition initiating_world :: "api world" where
  "initiating_world = \<lparr>w_fs = sample_fs, w_sv = sample_api (sample_ls LocalStorageInitiating None None [])\<rparr>"

definition pending_world :: "api world" where
  "pending_world = \<lparr>w_fs = sample_fs, w_sv = sample_api (sample_ls LocalStoragePending None None [])\<rparr>"

lemma sync_transition_witness:
  "\<exists>cur. api_stored (w_sv initiating_world) ''ls-n'' = Some cur \<and>
     (api_stored (w_sv (snd (sync int_quantity api_services ''ls-n'' initiating_world))) ''ls-n'' = Some cur \<or>
      (\<exists>l'. api_stored (w_sv (snd (sync int_quantity api_services ''ls-n'' initiating_world))) ''ls-n'' = Some l' \<and>
        ls_Phase l' = LocalStorageReady))"
proof -
  obtain e w' where run: "sync int_quantity api_services ''ls-n'' initiating_world = (e, w')" by fastforce
  have st: "api_stored (w_sv initiating_world) = [''ls-n'' \<mapsto> sample_ls LocalStorageInitiating None None []]"
    by (simp add: initiating_world_def)
  have "\<not> LocalStorageIsPending (sample_ls LocalStorageInitiating None None ([] :: Volume list))"
    by (simp add: phase_tests phase_defs)
  with sync_transition [OF api_update_contract api_cache_contract run] show ?thesis
    by (auto simp: st run split: if_splits)
qed

lemma makeVolumeDir_ok: "makeVolumeDir p f = (None, g) \<Longrightarrow> exists_at g (pos_of f p)"
  by (auto simp: makeVolumeDir_def os_Stat_def exists_at_def is_dir_def split: sum.splits if_splits option.splits
      dest!: os_MkdirAll_ok)

text \<open>
  C17. A successful \<open>sync\<close> of an object with a path backend that is not pending makes it ready: the
  object read was current, the stored one is \<open>Ready\<close> with capacity and allocatable equal to the
  size in its annotation (or the default), and the base directory exists on the node, where no
  file has gone.
\<close>

theorem sync_makes_ready:
  assumes S: "update_contract S stored" "cache_contract S stored"
    and l: "lister_Get S dKey (w_sv w) = Inr l" "\<not> LocalStorageIsPending l"
    and p: "sp_Path (ls_Spec l) = Some p" "sp_Lvm (ls_Spec l) = None"
    and run: "sync Q S dKey w = (None, w')"
  shows "\<exists>q l'. q_Parse Q (case om_Annotations (ls_Meta l) ''volume.caoyingjunz.io/node-size'' of
                     None \<Rightarrow> ''500Gi'' | Some s \<Rightarrow> s) = Inr q \<and>
           stored (w_sv w) (ls_Name l) = Some l \<and> stored (w_sv w') = (stored (w_sv w))(ls_Name l \<mapsto> l') \<and>
           ls_Phase l' = LocalStorageReady \<and> st_Capacity (ls_Status l') = Some q \<and>
           st_Allocatable (ls_Status l') = Some q \<and> ls_Volumes l' = ls_Volumes l \<and>
           exists_at (w_fs w') (pos_of (w_fs w) (ps_VolumeDir p)) \<and>
           (\<forall>r. exists_at (w_fs w) r \<longrightarrow> exists_at (w_fs w') r)"
proof -
  from l p run obtain q f1 where s: "path_setup Q l p (w_fs w) = (Inr q, f1)"
    by (auto simp: sync_def split: prod.splits sum.splits)
  then have q: "q_Parse Q (node_size l) = Inr q" "makeVolumeDir (ps_VolumeDir p) (w_fs w) = (None, f1)"
    by (auto simp: path_setup_def split: sum.splits prod.splits option.splits)
  obtain u a1 where u: "sv_Update S (initialised q l) (w_sv w) = (u, a1)" by fastforce
  with l p run s have w': "w' = \<lparr>w_fs = f1, w_sv = a1\<rparr>" and ok: "\<exists>o'. u = Inr o'"
    by (auto simp: sync_def initialised_def UpdateLocalStoragePhase_def TryUpdateLocalStorage_def
        split: sum.splits)
  from status_update_store [OF S l(1) u] ok obtain l' where
    "stored (w_sv w) (ls_Name l) = Some l" "stored a1 = (stored (w_sv w))(ls_Name l \<mapsto> l')"
    "applied (initialised q l) l'" by auto
  moreover have "exists_at f1 (pos_of (w_fs w) (ps_VolumeDir p))" using q(2) by (rule makeVolumeDir_ok)
  moreover have "\<forall>r. exists_at (w_fs w) r \<longrightarrow> exists_at f1 r"
    using makeVolumeDir_grows [OF q(2)] by (simp add: fs_le_iff)
  ultimately show ?thesis
    using q(1) w' unfolding node_size_def annNodeSize_def defaultPathSize_def
    by (intro exI [of _ q] exI [of _ l']) (simp add: applied_def)
qed

lemma initiating_runs: "fst (sync int_quantity api_services ''ls-n'' initiating_world) = None"
  by code_simp

lemma sync_makes_ready_witness:
  "\<exists>l'. api_stored (w_sv (snd (sync int_quantity api_services ''ls-n'' initiating_world))) ''ls-n'' = Some l' \<and>
     ls_Phase l' = LocalStorageReady \<and> st_Allocatable (ls_Status l') = Some (500 * 2 ^ 30)"
proof -
  let ?l = "sample_ls LocalStorageInitiating None None []"
  have g: "lister_Get api_services ''ls-n'' (w_sv initiating_world) = Inr ?l"
    by (simp add: lister_Get_Inr api_services_def initiating_world_def)
  have np: "\<not> LocalStorageIsPending ?l" by (simp add: phase_tests phase_defs)
  obtain w' where run: "sync int_quantity api_services ''ls-n'' initiating_world = (None, w')"
    using initiating_runs by (cases "sync int_quantity api_services ''ls-n'' initiating_world") auto
  have "om_Annotations (ls_Meta ?l) = Map.empty" by (simp add: sample_ls_def)
  then show ?thesis
    using sync_makes_ready [OF api_update_contract api_cache_contract g np _ _ run]
    by (auto simp: run int_quantity_parse)
qed

text \<open>
  The runs of \<open>sync\<close> on an object that is not pending, up to the update: no backend and an
  lvm backend are left alone; two backends, a size that does not parse and a base directory that
  cannot be made are errors, and in all five cases nothing is written to the server.
\<close>

theorem sync_refusals:
  assumes l: "lister_Get S dKey (w_sv w) = Inr l" "\<not> LocalStorageIsPending l"
  shows "(case (sp_Path (ls_Spec l), sp_Lvm (ls_Spec l)) of
      (None, _) \<Rightarrow> sync Q S dKey w = (None, w)
    | (Some p, Some g) \<Rightarrow>
        sync Q S dKey w = (Some (FmtError ''spec.path and spec.lvm can only be used at most one''), w)
    | (Some p, None) \<Rightarrow>
        (case q_Parse Q (node_size l) of
           Inl e \<Rightarrow> sync Q S dKey w = (Some (FmtErrorV ''failed to parse node quantity: '' e), w)
         | Inr q \<Rightarrow>
             (\<forall>e f. makeVolumeDir (ps_VolumeDir p) (w_fs w) = (Some e, f) \<longrightarrow>
                sync Q S dKey w = (Some e, w\<lparr>w_fs := f\<rparr>))))"
  using l by (cases "sp_Path (ls_Spec l)"; cases "sp_Lvm (ls_Spec l)"; cases "q_Parse Q (node_size l)")
    (simp_all add: sync_def path_setup_def)

lemma sync_refusals_witness:
  "fst (sync int_quantity api_services ''ls-n'' (initiating_world\<lparr>w_sv := sample_api
     ((sample_ls LocalStorageInitiating None None [])\<lparr>ls_Spec := \<lparr>sp_Node = ''n'', sp_Path = None, sp_Lvm = None\<rparr>\<rparr>)\<rparr>)) = None"
proof -
  let ?l = "(sample_ls LocalStorageInitiating None None [])\<lparr>ls_Spec := \<lparr>sp_Node = ''n'', sp_Path = None, sp_Lvm = None\<rparr>\<rparr>
    :: int LocalStorage"
  have "lister_Get api_services ''ls-n'' (w_sv (initiating_world\<lparr>w_sv := sample_api ?l\<rparr>)) = Inr ?l"
    by (simp add: lister_Get_Inr api_services_def sample_ls_def)
  moreover have "\<not> LocalStorageIsPending ?l"
    by (simp add: phase_tests phase_defs sample_ls_def)
  ultimately show ?thesis
    using sync_refusals [of api_services "''ls-n''" "initiating_world\<lparr>w_sv := sample_api ?l\<rparr>" ?l int_quantity] by simp
qed

text \<open>
  C35. \<open>sync\<close> tests only for \<open>Pending\<close>: run on an object in any other phase (a key queued twice is
  enough), \<open>Ready\<close> or \<open>Terminating\<close> among them, it initialises it again. The volumes stay, the
  allocatable quantity goes back to the full size, so the object stops balancing whenever its
  volumes hold bytes.
\<close>

theorem sync_forgets_usage:
  assumes Q: "quantity_laws Q val" and S: "update_contract S stored" "cache_contract S stored"
    and l: "lister_Get S dKey (w_sv w) = Inr l" "ls_Phase l = LocalStorageReady \<or> ls_Phase l = LocalStorageTerminating"
    and p: "sp_Path (ls_Spec l) = Some p" "sp_Lvm (ls_Spec l) = None"
    and used: "volume_total (ls_Volumes l) \<noteq> 0" and run: "sync Q S dKey w = (None, w')"
  shows "\<exists>l'. stored (w_sv w') (ls_Name l) = Some l' \<and> ls_Phase l' = LocalStorageReady \<and>
           ls_Volumes l' = ls_Volumes l \<and> st_Allocatable (ls_Status l') = st_Capacity (ls_Status l') \<and>
           \<not> balanced val l'"
proof -
  have np: "\<not> LocalStorageIsPending l" using l(2) by (auto simp: phase_tests phase_defs)
  from p run l(1) np obtain q f1 where s: "path_setup Q l p (w_fs w) = (Inr q, f1)"
    by (auto simp: sync_def split: prod.splits sum.splits)
  obtain u a1 where u: "sv_Update S (initialised q l) (w_sv w) = (u, a1)" by fastforce
  with l np p run s have w': "w_sv w' = a1" and ok: "\<exists>o'. u = Inr o'"
    by (auto simp: sync_def initialised_def UpdateLocalStoragePhase_def TryUpdateLocalStorage_def
        split: sum.splits)
  from status_update_store [OF S l(1) u] ok obtain l' where
    l': "stored a1 (ls_Name l) = Some l'" "applied (initialised q l) l'" by auto
  then have "\<not> balanced val l'" using used by (simp add: balanced_def applied_def)
  with l' w' show ?thesis by (auto simp: applied_def)
qed

lemma ready_runs: "fst (sync int_quantity api_services ''ls-n'' ready_world) = None"
  by code_simp

lemma sync_forgets_usage_witness:
  "balanced of_int (sample_ls LocalStorageReady (Some 95) (Some 100) [sample_vol ''a'' 5]) \<and>
   (\<exists>l'. api_stored (w_sv (snd (sync int_quantity api_services ''ls-n'' ready_world))) ''ls-n'' = Some l' \<and>
     ls_Volumes l' = [sample_vol ''a'' 5] \<and> \<not> balanced of_int l')"
proof -
  let ?l = "sample_ls LocalStorageReady (Some 95) (Some 100) [sample_vol ''a'' 5]"
  have g: "lister_Get api_services ''ls-n'' (w_sv ready_world) = Inr ?l"
    by (simp add: lister_Get_Inr api_services_def ready_world_def)
  obtain w' where run: "sync int_quantity api_services ''ls-n'' ready_world = (None, w')"
    using ready_runs by (cases "sync int_quantity api_services ''ls-n'' ready_world") auto
  have v: "volume_total [sample_vol ''a'' 5] = 5" by (simp add: volume_total_def sample_vol_def)
  have "balanced of_int ?l" by (simp add: balanced_def v)
  moreover have "\<exists>l'. api_stored (w_sv w') ''ls-n'' = Some l' \<and> ls_Volumes l' = [sample_vol ''a'' 5] \<and>
      \<not> balanced of_int l'"
    using sync_forgets_usage [OF int_quantity_laws api_update_contract api_cache_contract g _ _ _ _ run]
    by (auto simp: v)
  ultimately show ?thesis by (simp add: run)
qed

text \<open>
  Convergence: a pending object with a path backend is ready after two runs of \<open>sync\<close>, when the
  cache shows the stored object, updates go through, sizes parse and the base directory can be made.
\<close>

theorem sync_converges:
  assumes S: "update_contract S stored" "cache_contract S stored"
    and fresh: "\<And>a k l. stored a k = Some l \<Longrightarrow> ls_Name l = k \<and> lister_Get S k a = Inr l"
    and up: "\<And>a l cur. stored a (ls_Name l) = Some cur \<Longrightarrow> ls_Version cur = ls_Version l \<Longrightarrow>
               \<exists>o' a'. sv_Update S l a = (Inr o', a')"
    and parse: "\<And>x. \<exists>q. q_Parse Q x = Inr q"
    and mk: "\<exists>f. makeVolumeDir (ps_VolumeDir p) (w_fs w) = (None, f)"
    and l: "stored (w_sv w) k = Some l" "LocalStorageIsPending l"
      "sp_Path (ls_Spec l) = Some p" "sp_Lvm (ls_Spec l) = None"
  shows "\<exists>w1 w2 l2 q. sync Q S k w = (None, w1) \<and> sync Q S k w1 = (None, w2) \<and>
           stored (w_sv w2) k = Some l2 \<and> ls_Phase l2 = LocalStorageReady \<and>
           st_Allocatable (ls_Status l2) = Some q \<and> st_Capacity (ls_Status l2) = Some q"
proof -
  let ?l1 = "set_Phase LocalStorageInitiating l"
  have n: "ls_Name l = k" and g: "lister_Get S k (w_sv w) = Inr l" using fresh [OF l(1)] by auto
  obtain o1 a1 where u1: "sv_Update S ?l1 (w_sv w) = (Inr o1, a1)"
    using up [of "w_sv w" ?l1] l(1) n by auto
  define w1 where "w1 = w\<lparr>w_sv := a1\<rparr>"
  have r1: "sync Q S k w = (None, w1)"
    using g l(2) u1 by (simp add: sync_def UpdateLocalStoragePhase_def TryUpdateLocalStorage_def w1_def)
  obtain l1 where l1: "stored a1 k = Some l1" "applied ?l1 l1"
    using status_update_store [OF S g u1] n by auto
  then have g1: "lister_Get S k (w_sv w1) = Inr l1" and n1: "ls_Name l1 = k"
    using fresh by (auto simp: w1_def)
  have np: "\<not> LocalStorageIsPending l1" "sp_Path (ls_Spec l1) = Some p" "sp_Lvm (ls_Spec l1) = None"
    using l1(2) l by (auto simp: applied_def phase_tests phase_defs)
  obtain q where q: "q_Parse Q (node_size l1) = Inr q" using parse by blast
  obtain f where f: "makeVolumeDir (ps_VolumeDir p) (w_fs w1) = (None, f)" using mk by (auto simp: w1_def)
  obtain o2 a2 where u2: "sv_Update S (initialised q l1) a1 = (Inr o2, a2)"
    using up [of a1 "initialised q l1"] l1(1) n1 by auto
  define w2 where "w2 = \<lparr>w_fs = f, w_sv = a2\<rparr>"
  have r2: "sync Q S k w1 = (None, w2)"
    using g1 np q f u2 by (simp add: sync_def path_setup_def initialised_def UpdateLocalStoragePhase_def
        TryUpdateLocalStorage_def w1_def w2_def)
  have "w_sv w1 = a1" by (simp add: w1_def)
  with status_update_store [OF S g1, of "initialised q l1"] u2 n1 obtain l2 where
    "stored a2 k = Some l2" "applied (initialised q l1) l2" by auto
  then show ?thesis using r1 r2 by (auto simp: applied_def w2_def)
qed

definition total_quantity :: "int quantity_ops" where
  "total_quantity = int_quantity\<lparr>q_Parse := \<lambda>_. Inr 100\<rparr>"

lemma sync_converges_witness:
  "\<exists>w1 w2 l2. sync total_quantity direct_services ''ls-n'' pending_world = (None, w1) \<and>
     sync total_quantity direct_services ''ls-n'' w1 = (None, w2) \<and>
     api_stored (w_sv w2) ''ls-n'' = Some l2 \<and> ls_Phase l2 = LocalStorageReady"
proof -
  let ?l = "sample_ls LocalStoragePending None None []"
  have fresh: "ls_Name l = k \<and> lister_Get direct_services k a = Inr l" if "api_stored a k = Some l" for a k l
    using that api_stored_name [OF that] by (simp add: lister_Get_Inr direct_services_def)
  have up: "\<exists>o' a'. sv_Update direct_services l a = (Inr o', a')"
    if "api_stored a (ls_Name l) = Some cur" "ls_Version cur = ls_Version l" for a l cur
    using that by (simp add: direct_services_def api_services_def api_update_def Let_def)
  have mk: "\<exists>f. makeVolumeDir (ps_VolumeDir \<lparr>ps_VolumeDir = ''/d''\<rparr>) (w_fs pending_world) = (None, f)"
  proof -
    have "fst (makeVolumeDir ''/d'' (w_fs pending_world)) = None" by code_simp
    then show ?thesis by (cases "makeVolumeDir ''/d'' (w_fs pending_world)") simp
  qed
  have st: "api_stored (w_sv pending_world) ''ls-n'' = Some ?l" by (simp add: pending_world_def)
  have pen: "LocalStorageIsPending ?l" by (simp add: phase_tests)
  have "\<exists>w1 w2 l2 q. sync total_quantity direct_services ''ls-n'' pending_world = (None, w1) \<and>
     sync total_quantity direct_services ''ls-n'' w1 = (None, w2) \<and>
     api_stored (w_sv w2) ''ls-n'' = Some l2 \<and> ls_Phase l2 = LocalStorageReady \<and>
     st_Allocatable (ls_Status l2) = Some q \<and> st_Capacity (ls_Status l2) = Some q"
  proof (rule sync_converges [OF direct_contracts _ _ _ mk st pen])
    show "ls_Name l = k \<and> lister_Get direct_services k a = Inr l" if "api_stored a k = Some l" for a k l
      using that by (rule fresh)
    show "\<exists>o' a'. sv_Update direct_services l a = (Inr o', a')"
      if "api_stored a (ls_Name l) = Some cur" "ls_Version cur = ls_Version l" for a l cur
      using that by (rule up)
  qed (simp_all add: total_quantity_def)
  then show ?thesis by blast
qed

section \<open>The controller's syncStorage\<close>

text \<open>
  C18. All a run of \<open>syncStorage\<close> can do: nothing, or set the phase of one current object, to
  \<open>Terminating\<close> when it is under deletion and not there yet, to \<open>Initiating\<close> when it is pending
  and not under deletion. An event is recorded exactly with a successful move to \<open>Initiating\<close>.
\<close>

theorem syncStorage_transition:
  assumes S: "update_contract S stored" "cache_contract S stored"
    and run: "syncStorage S dKey c = (e, c')"
  shows "(stored (c_sv c') = stored (c_sv c) \<or>
      (\<exists>k cur l' p. stored (c_sv c) k = Some cur \<and> stored (c_sv c') = (stored (c_sv c))(k \<mapsto> l') \<and>
         ls_Spec l' = ls_Spec cur \<and> ls_Status l' = (ls_Status cur)\<lparr>st_Phase := p\<rparr> \<and>
         (being_deleted cur \<and> ls_Phase cur \<noteq> LocalStorageTerminating \<and> p = LocalStorageTerminating \<or>
          \<not> being_deleted cur \<and> ls_Phase cur = LocalStoragePending \<and> p = LocalStorageInitiating))) \<and>
    (c_events c' = (if e = None \<and> (\<exists>l. lister_Get S dKey (c_sv c) = Inr l \<and> next_phase l = Some LocalStorageInitiating)
       then c_events c @ [(''initialize'', ''waiting for plugin to initialize '' @
              (case lister_Get S dKey (c_sv c) of Inr l \<Rightarrow> ls_Name l | Inl _ \<Rightarrow> []) @ '' localstorage'')]
       else c_events c))"
proof
  show "stored (c_sv c') = stored (c_sv c) \<or>
      (\<exists>k cur l' p. stored (c_sv c) k = Some cur \<and> stored (c_sv c') = (stored (c_sv c))(k \<mapsto> l') \<and>
         ls_Spec l' = ls_Spec cur \<and> ls_Status l' = (ls_Status cur)\<lparr>st_Phase := p\<rparr> \<and>
         (being_deleted cur \<and> ls_Phase cur \<noteq> LocalStorageTerminating \<and> p = LocalStorageTerminating \<or>
          \<not> being_deleted cur \<and> ls_Phase cur = LocalStoragePending \<and> p = LocalStorageInitiating))"
    using run
  proof (cases rule: syncStorage_cases)
    case idle
    then show ?thesis by simp
  next
    case (move l p u a1)
    from status_update_store [OF S move(1,3)]
    consider "stored a1 = stored (c_sv c)"
      | l' where "stored (c_sv c) (ls_Name l) = Some l" "stored a1 = (stored (c_sv c))(ls_Name l \<mapsto> l')"
        "applied (set_Phase p l) l'"
      by auto
    then show ?thesis
    proof cases
      case 2
      with move show ?thesis
        by (intro disjI2 exI [of _ "ls_Name l"] exI [of _ l] exI [of _ l'] exI [of _ p])
          (auto simp: applied_def set_Phase_def next_phase_def phase_tests split: if_splits)
    qed (use move in simp)
  qed
  have tests: "LocalStorageTerminating \<noteq> LocalStorageInitiating" by (simp add: phase_defs)
  show "c_events c' = (if e = None \<and> (\<exists>l. lister_Get S dKey (c_sv c) = Inr l \<and> next_phase l = Some LocalStorageInitiating)
       then c_events c @ [(''initialize'', ''waiting for plugin to initialize '' @
              (case lister_Get S dKey (c_sv c) of Inr l \<Rightarrow> ls_Name l | Inl _ \<Rightarrow> []) @ '' localstorage'')]
       else c_events c)"
  proof (cases "lister_Get S dKey (c_sv c)")
    case (Inl x)
    with run show ?thesis by (auto simp: syncStorage_def split: if_splits)
  next
    case (Inr l)
    with run tests show ?thesis
      by (auto simp: syncStorage_def next_phase_def being_deleted_def split: if_splits prod.splits option.splits)
  qed
qed

definition pending_control :: "api control" where
  "pending_control = \<lparr>c_sv = w_sv pending_world, c_events = []\<rparr>"

lemma syncStorage_transition_witness:
  "\<exists>l' e. api_stored (c_sv (snd (syncStorage api_services ''ls-n'' pending_control))) ''ls-n'' = Some l' \<and>
     (ls_Phase l' = LocalStoragePending \<or> ls_Phase l' = LocalStorageInitiating) \<and>
     c_events (snd (syncStorage api_services ''ls-n'' pending_control)) = [(''initialize'', e)]"
proof -
  let ?l = "sample_ls LocalStoragePending None None []"
  obtain e c' where run: "syncStorage api_services ''ls-n'' pending_control = (e, c')" by fastforce
  have "fst (syncStorage api_services ''ls-n'' pending_control) = None" by code_simp
  then have e: "e = None" by (simp add: run)
  have st: "api_stored (c_sv pending_control) = [''ls-n'' \<mapsto> ?l]"
    by (simp add: pending_control_def pending_world_def)
  have g: "lister_Get api_services ''ls-n'' (c_sv pending_control) = Inr ?l"
    by (simp add: lister_Get_Inr api_services_def pending_control_def pending_world_def)
  have ev: "c_events pending_control = []" by (simp add: pending_control_def)
  have nd: "\<not> being_deleted ?l" by (simp add: being_deleted_def IsZero_def sample_ls_def)
  then have np: "next_phase ?l = Some LocalStorageInitiating" by (simp add: next_phase_def phase_tests)
  show ?thesis
    using syncStorage_transition [OF api_update_contract api_cache_contract run] g nd np
    by (auto simp: st run e ev split: if_splits)
qed

section \<open>Retries\<close>

text \<open>
  C31. A key that keeps failing is queued again exactly 15 times by either error handler, each time
  with the rate-limited delay, and the sixteenth failure in a row drops it and clears its counter.
\<close>

theorem retries_bounded:
  assumes "queue_laws O'" and "\<not> qo_Terminating O' e" and "qo_NumRequeues O' key q = 0"
  shows "(\<forall>n \<le> 15. (plugin_handleErr O' (Some e) key ^^ n) q = (qo_AddRateLimited O' key ^^ n) q) \<and>
    (\<forall>n \<le> 15. (controller_handleErr O' (Some e) key ^^ n) q = (qo_AddRateLimited O' key ^^ n) q) \<and>
    (plugin_handleErr O' (Some e) key ^^ 16) q = qo_Forget O' key ((qo_AddRateLimited O' key ^^ 15) q) \<and>
    (controller_handleErr O' (Some e) key ^^ 16) q = qo_Forget O' key ((qo_AddRateLimited O' key ^^ 15) q)"
  using plugin_retry.failures_counted [OF assms] controller_retry.failures_counted [OF assms]
    plugin_retry.dropped_after_limit [OF assms] controller_retry.dropped_after_limit [OF assms]
  by (simp add: retry_limit_def numeral_eq_Suc)

lemma retries_bounded_witness:
  "wk_keys ((plugin_handleErr work_ops (Some (ExtError ''x'')) ''k'' ^^ 16) \<lparr>wk_keys = [], wk_count = \<lambda>_. 0\<rparr>) =
   replicate 15 ''k''"
proof -
  let ?q = "\<lparr>wk_keys = [], wk_count = \<lambda>_. 0\<rparr> :: work"
  have "(plugin_handleErr work_ops (Some (ExtError ''x'')) ''k'' ^^ 16) ?q =
      qo_Forget work_ops ''k'' ((qo_AddRateLimited work_ops ''k'' ^^ 15) ?q)"
    using retries_bounded [of work_ops "ExtError ''x''" "''k''" ?q] work_laws by (simp add: work_ops_def)
  moreover have "wk_keys (qo_Forget work_ops ''k'' q) = wk_keys q" for q by (simp add: work_ops_def)
  moreover have "wk_keys ((qo_AddRateLimited work_ops ''k'' ^^ n) ?q) = replicate n ''k''" for n
    by (induction n) (simp_all add: work_ops_def replicate_append_same)
  ultimately show ?thesis by (simp only:)
qed

text \<open>
  One iteration of either worker keeps every requeue counter at 15 or less, whatever the
  reconciliation returned, and leaves the counters of the other keys alone; it reports that the
  loop goes on unless the queue was shut down, when nothing is reconciled.
\<close>

theorem iteration_bounded:
  assumes O': "queue_laws O'" and b: "\<And>k. qo_NumRequeues O' k q \<le> 15"
  shows "(case plugin_processNextWorkItem Q S O' (w, q) of (cont, w', q') \<Rightarrow>
      cont = (fst (qo_Get O' q) \<noteq> None) \<and> (\<not> cont \<longrightarrow> w' = w) \<and>
      (\<forall>k. qo_NumRequeues O' k q' \<le> 15 \<and>
         (fst (qo_Get O' q) \<noteq> Some k \<longrightarrow> qo_NumRequeues O' k q' = qo_NumRequeues O' k q))) \<and>
    (case controller_processNextWorkItem S O' (c, q) of (cont, c', q') \<Rightarrow>
      cont = (fst (qo_Get O' q) \<noteq> None) \<and> (\<not> cont \<longrightarrow> c' = c) \<and>
      (\<forall>k. qo_NumRequeues O' k q' \<le> 15 \<and>
         (fst (qo_Get O' q) \<noteq> Some k \<longrightarrow> qo_NumRequeues O' k q' = qo_NumRequeues O' k q)))"
proof -
  obtain r q1 where get: "qo_Get O' q = (r, q1)" by fastforce
  then have q1: "qo_NumRequeues O' k q1 = qo_NumRequeues O' k q" for k
    using O' unfolding queue_laws_def by (metis snd_conv)
  have don: "qo_NumRequeues O' k (qo_Done O' key x) = qo_NumRequeues O' k x" for k key x
    using O' by (simp add: queue_laws_def)
  have kept: "qo_NumRequeues O' k (plugin_handleErr O' e key q1) \<le> 15 \<and>
      (key \<noteq> k \<longrightarrow> qo_NumRequeues O' k (plugin_handleErr O' e key q1) = qo_NumRequeues O' k q)"
    "qo_NumRequeues O' k (controller_handleErr O' e key q1) \<le> 15 \<and>
      (key \<noteq> k \<longrightarrow> qo_NumRequeues O' k (controller_handleErr O' e key q1) = qo_NumRequeues O' k q)" for k e key
    using plugin_retry.requeues_bounded [OF O', of key q1 e] plugin_retry.other_keys [OF O', of k key e q1]
      controller_retry.requeues_bounded [OF O', of key q1 e] controller_retry.other_keys [OF O', of k key e q1] b q1
    by (cases "k = key"; simp add: retry_limit_def)+
  show ?thesis
    by (cases r) (simp_all add: plugin_processNextWorkItem_def controller_processNextWorkItem_def get q1 b
        don kept split: prod.split)
qed

lemma iteration_bounded_witness:
  "case plugin_processNextWorkItem int_quantity api_services work_ops
     (ready_world, \<lparr>wk_keys = [''ls-n''], wk_count = \<lambda>_. 15\<rparr>) of (cont, w', q') \<Rightarrow> cont \<and> wk_count q' ''ls-n'' \<le> 15"
  using iteration_bounded [where Q = int_quantity and S = api_services and w = ready_world and c = pending_control
      and q = "\<lparr>wk_keys = [''ls-n''], wk_count = \<lambda>_. 15\<rparr>", OF work_laws]
  by (auto simp: work_ops_def split: prod.splits)

text \<open>
  C32. Once its queue is shut down, a worker of the plugin or of the controller returns: after at most
  one iteration for every key that was waiting, and one that finds the queue empty, no key is
  left, whatever the reconciliations returned.
\<close>

theorem workers_drain:
  assumes "shutdown_laws O' shut waiting" and "shut q"
  shows "(\<exists>n \<le> waiting q.
      plugin_worker Q S O' (w, q) = Some (((snd \<circ> plugin_processNextWorkItem Q S O') ^^ Suc n) (w, q)) \<and>
      waiting (snd (((snd \<circ> plugin_processNextWorkItem Q S O') ^^ Suc n) (w, q))) = 0) \<and>
    (\<exists>n \<le> waiting q.
      controller_worker S O' (c, q) = Some (((snd \<circ> controller_processNextWorkItem S O') ^^ Suc n) (c, q)) \<and>
      waiting (snd (((snd \<circ> controller_processNextWorkItem S O') ^^ Suc n) (c, q))) = 0)"
  using plugin_loop.drains [OF assms] controller_loop.drains [OF assms] by (rule conjI)

lemma workers_drain_witness:
  "\<exists>c q. controller_worker api_services closed_ops (pending_control, \<lparr>wk_keys = [''ls-n'', ''x''], wk_count = \<lambda>_. 0\<rparr>) = Some (c, q) \<and>
     wk_keys q = []"
proof -
  let ?q = "\<lparr>wk_keys = [''ls-n'', ''x''], wk_count = \<lambda>_. 0\<rparr> :: work"
  obtain n where "controller_worker api_services closed_ops (pending_control, ?q) =
      Some (((snd \<circ> controller_processNextWorkItem api_services closed_ops) ^^ Suc n) (pending_control, ?q))"
    "length (wk_keys (snd (((snd \<circ> controller_processNextWorkItem api_services closed_ops) ^^ Suc n) (pending_control, ?q)))) = 0"
    using workers_drain [OF closed_laws TrueI, of ?q int_quantity api_services ready_world pending_control] by blast
  then show ?thesis
    by (cases "((snd \<circ> controller_processNextWorkItem api_services closed_ops) ^^ Suc n) (pending_control, ?q)")
      (simp del: funpow.simps)
qed

end
