(* ===== verification/LS_Process.thy ===== *)
theory LS_Process
  imports LS_Extender LS_Controller LS_Endpoint
begin

text \<open>
  The processes around the components: the life of the gRPC server (\<^verbatim>\<open>pkg/localstorage/server.go\<close>)
  and of \<open>Run\<close>, the signal handler (\<^verbatim>\<open>pkg/signals\<close>), the choice of a client configuration
  (\<^verbatim>\<open>pkg/util/util.go\<close>), the configuration of the plugin and the job in \<^verbatim>\<open>cmd\<close>, and the routes of
  the scheduler extender. What client libraries do is an argument.
\<close>

section \<open>pkg/localstorage/server.go: the server's life\<close>

text \<open>
  The wait group's counter, whether the field \<open>server\<close> is set, how many \<open>serve\<close> goroutines run,
  and whether the server was told to stop.
\<close>

record grpc_server =
  gs_wg :: int
  gs_server :: bool
  gs_serving :: nat
  gs_stopped :: bool

definition NewNonBlockingGRPCServer :: grpc_server where
  "NewNonBlockingGRPCServer = \<lparr>gs_wg = 0, gs_server = False, gs_serving = 0, gs_stopped = False\<rparr>"

definition Start :: "grpc_server \<Rightarrow> grpc_server" where
  "Start s = s\<lparr>gs_wg := gs_wg s + 1, gs_serving := gs_serving s + 1\<rparr>"

text \<open>\<open>Wait\<close> returns when the counter is zero. \<open>Stop\<close> and \<open>ForceStop\<close> dereference the field.\<close>

definition Wait_returns_now :: "grpc_server \<Rightarrow> bool" where
  "Wait_returns_now s \<longleftrightarrow> gs_wg s = 0"

definition Stop :: "grpc_server \<Rightarrow> grpc_server outcome" where
  "Stop s = (if gs_server s then Ret (s\<lparr>gs_stopped := True\<rparr>) else Panic)"

definition ForceStop :: "grpc_server \<Rightarrow> grpc_server outcome" where
  "ForceStop s = (if gs_server s then Ret (s\<lparr>gs_stopped := True\<rparr>) else Panic)"

text \<open>
  What can happen to a started server: a goroutine sets the field, a goroutine whose server was
  stopped returns from \<open>serve\<close>, a stop, another start.
\<close>

inductive server_step :: "grpc_server \<Rightarrow> grpc_server \<Rightarrow> bool" where
  assign: "0 < gs_serving s \<Longrightarrow> server_step s (s\<lparr>gs_server := True\<rparr>)"
| finish: "0 < gs_serving s \<Longrightarrow> gs_server s \<Longrightarrow> gs_stopped s \<Longrightarrow>
     server_step s (s\<lparr>gs_serving := gs_serving s - 1\<rparr>)"
| stop: "Stop s = Ret t \<Longrightarrow> server_step s t"
| force_stop: "ForceStop s = Ret t \<Longrightarrow> server_step s t"
| start_again: "server_step s (Start s)"

section \<open>Run\<close>

datatype run_state = RunReturned "gerror option" | RunWaiting grpc_server

text \<open>\<open>synced\<close> is the answer of \<open>WaitForNamedCacheSync\<close>.\<close>

definition plugin_Run :: "bool \<Rightarrow> run_state" where
  "plugin_Run synced =
     (if \<not> synced then RunReturned (Some (FmtError ''failed to WaitForNamedCacheSync''))
      else RunWaiting (Start NewNonBlockingGRPCServer))"

fun run_step :: "run_state \<Rightarrow> run_state" where
  "run_step (RunReturned e) = RunReturned e"
| "run_step (RunWaiting s) = (if Wait_returns_now s then RunReturned None else RunWaiting s)"

text \<open>The controller's \<open>Run\<close> starts its workers once the cache is synced, and none otherwise.\<close>

definition controller_Run :: "bool \<Rightarrow> nat \<Rightarrow> nat" where
  "controller_Run synced workers = (if \<not> synced then 0 else workers)"

section \<open>pkg/signals/signal.go\<close>

text \<open>
  Closing a closed channel panics. The first signal cancels the context, the second one ends the
  process with code 1.
\<close>

record signal_state =
  sg_installed :: bool
  sg_cancelled :: bool
  sg_exit :: "int option"

definition SetupSignalHandler :: "signal_state \<Rightarrow> signal_state outcome" where
  "SetupSignalHandler s =
     (if sg_installed s then Panic
      else Ret \<lparr>sg_installed = True, sg_cancelled = False, sg_exit = None\<rparr>)"

definition on_signal :: "signal_state \<Rightarrow> signal_state" where
  "on_signal s =
     (if \<not> sg_installed s \<or> sg_exit s \<noteq> None then s
      else if \<not> sg_cancelled s then s\<lparr>sg_cancelled := True\<rparr>
      else s\<lparr>sg_exit := Some 1\<rparr>)"

section \<open>pkg/util/util.go: clients\<close>

text \<open>\<open>filepath.Join\<close> of any number of elements.\<close>

definition Join_list :: "string list \<Rightarrow> string" where
  "Join_list es =
     (case dropWhile (\<lambda>e. e = []) es of [] \<Rightarrow> [] | rest \<Rightarrow> Clean (join_slash rest))"

text \<open>\<open>flags\<close> is \<open>clientcmd.BuildConfigFromFlags\<close>, \<open>home\<close> is \<open>homedir.HomeDir()\<close>, \<open>inCluster\<close> is
  \<open>rest.InClusterConfig()\<close>.\<close>

definition BuildClientConfig ::
    "(string \<Rightarrow> string \<Rightarrow> gerror + 'c) \<Rightarrow> string \<Rightarrow> gerror + 'c \<Rightarrow> string \<Rightarrow> gerror + 'c" where
  "BuildClientConfig flags home inCluster configFile =
     (if length configFile \<noteq> 0 then flags [] configFile
      else case flags [] (Join_list [home, ''.kube'', ''config'']) of
        Inr kubeConfig \<Rightarrow> Inr kubeConfig
      | Inl _ \<Rightarrow> inCluster)"

definition NewClientSets ::
    "('c \<Rightarrow> gerror + 'k) \<Rightarrow> ('c \<Rightarrow> gerror + 'v) \<Rightarrow> 'c \<Rightarrow> gerror + 'k \<times> 'v" where
  "NewClientSets newKube newLs kubeConfig =
     (case newKube kubeConfig of
        Inl err \<Rightarrow> Inl err
      | Inr kubeClient \<Rightarrow>
          (case newLs kubeConfig of Inl err \<Rightarrow> Inl err | Inr lsClientSet \<Rightarrow> Inr (kubeClient, lsClientSet)))"

definition NewClientSetsFromConfig ::
    "(string \<Rightarrow> string \<Rightarrow> gerror + 'c) \<Rightarrow> string \<Rightarrow> gerror + 'c \<Rightarrow> ('c \<Rightarrow> gerror + 'k) \<Rightarrow>
     ('c \<Rightarrow> gerror + 'v) \<Rightarrow> string \<Rightarrow> gerror + 'k \<times> 'v" where
  "NewClientSetsFromConfig flags home inCluster newKube newLs configFile =
     (case BuildClientConfig flags home inCluster configFile of
        Inl err \<Rightarrow> Inl err
      | Inr kubeConfig \<Rightarrow> NewClientSets newKube newLs kubeConfig)"

section \<open>cmd: the plugin's configuration and the job\<close>

text \<open>The node ID comes from the flag, or from the environment when the flag is empty.\<close>

definition plugin_config :: "string \<Rightarrow> string \<Rightarrow> string \<Rightarrow> string \<Rightarrow> string \<Rightarrow> Config" where
  "plugin_config driverName endpoint nodeId volumeDir env_NODE_NAME =
     (let cfg = \<lparr>cf_DriverName = driverName, cf_Endpoint = endpoint, cf_VendorVersion = ''v1.0.0'',
                 cf_NodeId = nodeId, cf_VolumeDir = volumeDir\<rparr>
      in if length (cf_NodeId cfg) = 0 then cfg\<lparr>cf_NodeId := env_NODE_NAME\<rparr> else cfg)"

text \<open>
  \<open>clients\<close> is the result of building the client sets, \<open>nodes\<close> lists the nodes with a label
  selector. The flag \<open>create-localstorage\<close> is an argument that is not used.
\<close>

datatype job_result = JobFatal string gerror | JobCompleted

definition job_main ::
    "gerror + 'c \<Rightarrow> (string \<Rightarrow> gerror + node list) \<Rightarrow> ('q, 'a) services \<Rightarrow> bool \<Rightarrow> 'a \<Rightarrow> job_result \<times> 'a" where
  "job_main clients nodes S createLocalstorage a =
     (case clients of
        Inl err \<Rightarrow> (JobFatal ''Failed to build clientSets: '' err, a)
      | Inr _ \<Rightarrow>
          (case nodes ''storage.caoyingjunz.io/node'' of
             Inl err \<Rightarrow> (JobFatal ''Failed to get localstorage nodes: '' err, a)
           | Inr items \<Rightarrow>
               (case CreateLocalStorages S (fold (\<lambda>n names. names @ [nd_Name n]) items []) a of
                  (Some err, a1) \<Rightarrow> (JobFatal ''Failed to create localstorage nodes: '' err, a1)
                | (None, a1) \<Rightarrow> (JobCompleted, a1))))"

section \<open>pkg/scheduler/scheduler.go: routes\<close>

definition version :: string where "version = ''v1.0.1''"
definition versionPath :: string where "versionPath = ''/version''"
definition apiPrefix :: string where "apiPrefix = ''/localstorage-scheduler''"
definition predicatePrefix :: string where "predicatePrefix = apiPrefix @ ''/filter''"
definition prioritizePrefix :: string where "prioritizePrefix = apiPrefix @ ''/prioritize''"

datatype route = VersionRoute | PredicateRoute | PrioritizeRoute

text \<open>The routes in the order they are registered; the router matches method and path exactly.\<close>

definition routes :: "((string \<times> string) \<times> route) list" where
  "routes = [((''GET'', versionPath), VersionRoute), ((''POST'', predicatePrefix), PredicateRoute),
             ((''POST'', prioritizePrefix), PrioritizeRoute)]"

text \<open>\<open>fmt.Fprint\<close> on a response writer sends the text with status 200 and a sniffed type.\<close>

definition http_version :: http_response where
  "http_version = \<lparr>hr_ContentType = ''text/plain; charset=utf-8'', hr_Status = 200, hr_Body = Encoded version\<rparr>"

text \<open>\<open>other\<close> is the router's answer to a request without a route.\<close>

definition http_dispatch ::
    "'q quantity_ops \<Rightarrow> ('q, 'a) services \<Rightarrow> ('q, 'a) cluster_ops \<Rightarrow> extender_codec \<Rightarrow> http_response \<Rightarrow>
     string \<Rightarrow> string \<Rightarrow> string \<Rightarrow> 'a \<Rightarrow> (http_response outcome \<times> 'a) option" where
  "http_dispatch Q S K C other httpMethod path body a =
     (case map_of routes (httpMethod, path) of
        None \<Rightarrow> Some (Ret other, a)
      | Some VersionRoute \<Rightarrow> Some (Ret http_version, a)
      | Some PredicateRoute \<Rightarrow> http_Predicate Q S K C body a
      | Some PrioritizeRoute \<Rightarrow> http_Prioritize Q S K C body a)"

section \<open>The counter never comes down\<close>

inductive_cases server_stepE: "server_step s t"

lemma server_step_wg: "server_step s t \<Longrightarrow> gs_wg s \<le> gs_wg t"
  by (erule server_stepE) (auto simp: Stop_def ForceStop_def Start_def split: if_splits)

lemma server_steps_wg: "server_step\<^sup>*\<^sup>* s t \<Longrightarrow> gs_wg s \<le> gs_wg t"
  by (induction rule: rtranclp_induct) (auto dest: server_step_wg)

lemma fold_names: "fold (\<lambda>n names. names @ [nd_Name n]) items acc = acc @ map nd_Name items"
  by (induction items arbitrary: acc) auto

lemma routes_distinct: "distinct (map fst routes)"
  by (simp add: routes_def versionPath_def predicatePrefix_def prioritizePrefix_def apiPrefix_def)

end
