(* ===== verification/Prop_Scheduler.thy ===== *)
theory Prop_Scheduler
  imports LS_Instance
begin

text \<open>
  What the scheduler extender and the storage helpers guarantee: \<open>Filter\<close> keeps exactly the
  nodes that can hold the claim, scores are between 0 and 100, both calls return, the two lookups
  of a node's localstorage agree, and the batch creation covers its nodes.
\<close>

section \<open>Filter\<close>

text \<open>A node can hold a request when it has a ready localstorage with enough left.\<close>

definition can_hold :: "('q \<Rightarrow> rat) \<Rightarrow> 'q LocalStorage list \<Rightarrow> rat \<Rightarrow> string \<Rightarrow> bool" where
  "can_hold val ls r n \<longleftrightarrow>
     (\<exists>l \<in> set ls. ls_Node l = n \<and> ls_Phase l = LocalStorageReady \<and>
        (\<exists>a. st_Allocatable (ls_Status l) = Some a \<and> r \<le> val a))"

lemma find_distinct_iff:
  assumes "distinct (map f xs)"
  shows "find (\<lambda>x. f x = k) xs = Some y \<longleftrightarrow> y \<in> set xs \<and> f y = k"
proof
  assume "find (\<lambda>x. f x = k) xs = Some y"
  then show "y \<in> set xs \<and> f y = k" by (auto dest: find_SomeD)
next
  assume y: "y \<in> set xs \<and> f y = k"
  then show "find (\<lambda>x. f x = k) xs = Some y"
    using filter_key_single [OF assms, of y] by (auto simp: find_Some_filter)
qed

lemma refusal_None:
  assumes "quantity_laws Q val" and "distinct (map ls_Node ls)" and "\<forall>l \<in> set ls. ready_complete l"
  shows "refusal Q r (node_map ls) n = None \<longleftrightarrow> can_hold val ls (val r) n"
proof -
  have m: "node_map ls n = Some l \<longleftrightarrow> l \<in> set ls \<and> ls_Node l = n" for l
    using node_map_distinct [OF assms(2)] find_distinct_iff [OF assms(2)] by simp
  show ?thesis
  proof (cases "node_map ls n")
    case None
    then have "\<not> (\<exists>l \<in> set ls. ls_Node l = n)" using m by auto
    with None show ?thesis by (auto simp: refusal_def can_hold_def)
  next
    case (Some l)
    then have l: "l \<in> set ls" "ls_Node l = n" using m by auto
    have u: "x = l" if "x \<in> set ls" "ls_Node x = n" for x using m [of x] that Some by simp
    have "can_hold val ls (val r) n \<longleftrightarrow> ls_Phase l = LocalStorageReady \<and>
        (\<exists>a. st_Allocatable (ls_Status l) = Some a \<and> val r \<le> val a)"
      using l u unfolding can_hold_def by blast
    moreover have "ready_complete l" using assms(3) l(1) by simp
    ultimately show ?thesis
      using Some assms(1)
      by (auto simp: refusal_def ready_complete_def quantity_laws_simps split: option.split)
  qed
qed

text \<open>
  C19. For a pod with a local claim that asks for \<open>r\<close>, \<open>Filter\<close> answers the candidate nodes that
  can hold \<open>r\<close>, in their order, and every other candidate is reported as failed. (The listed
  localstorages name distinct nodes, which admission ensures, and a ready one has its
  quantities.)
\<close>

theorem Filter_correct:
  assumes Q: "quantity_laws Q val"
    and args: "ea_Pod args = Some p" "ea_NodeNames args = Some names"
    and claim: "GetLocalStoragePersistentVolumeClaimFromPod K p a = Some (Inr (Some c), a1)"
      "pvc_Requests c ''storage'' = Some r"
    and ls: "sv_ListAll S a1 = (ls, None)" "distinct (map ls_Node ls)" "\<forall>l \<in> set ls. ready_complete l"
  shows "\<exists>res. Filter Q S K args a = Some (Ret res, a1) \<and> fr_Error res = None \<and>
    fr_Nodes res = ea_Nodes args \<and>
    fr_NodeNames res = Some (filter (can_hold val ls (val r)) names) \<and>
    dom (fr_FailedNodes res) = {n \<in> set names. \<not> can_hold val ls (val r) n}"
proof -
  have rc: "ready_complete l" if "node_map ls n = Some l" for n l
    using that ls(3) by (auto simp: node_map_last dest: find_SomeD)
  have f: "(refusal Q r (node_map ls) n = None) = can_hold val ls (val r) n" for n
    by (rule refusal_None [OF Q ls(2,3)])
  have "filter_loop Q r (node_map ls) names ([], Map.empty) =
      Ret (filter (can_hold val ls (val r)) names,
           \<lambda>n. if n \<in> set names then refusal Q r (node_map ls) n else None)"
    using filter_loop_eq [where m = "node_map ls" and names = names and sch = "[]" and failed = Map.empty] rc
    by (simp add: f)
  moreover have "dom (\<lambda>n. if n \<in> set names then refusal Q r (node_map ls) n else None) =
      {n \<in> set names. \<not> can_hold val ls (val r) n}"
    by (auto simp: dom_def f [symmetric])
  ultimately show ?thesis
    using args claim ls(1)
    by (simp add: Filter_def GetLocalStorageMap_eq ResourceStorage_def)
qed

definition sample_pod :: "string option list \<Rightarrow> pod" where
  "sample_pod vs = \<lparr>pod_Name = ''p'', pod_Namespace = ''default'', pod_Volumes = vs\<rparr>"

definition sample_args :: "string option list \<Rightarrow> extender_args" where
  "sample_args vs = \<lparr>ea_Pod = Some (sample_pod vs), ea_Nodes = None, ea_NodeNames = Some [''m'', ''n'']\<rparr>"

definition sample_cluster :: cluster where
  "sample_cluster = \<lparr>cl_api = w_sv ready_world, cl_now = 0\<rparr>"

lemma data_claim:
  "GetLocalStoragePersistentVolumeClaimFromPod (cluster_ops_of b 0) (sample_pod (Some ''data'' # vs)) sample_cluster =
     Some (Inr (Some \<lparr>pvc_Name = ''data'', pvc_StorageClassName = Some ''local'', pvc_Requests = [''storage'' \<mapsto> b]\<rparr>),
           sample_cluster)"
  by (simp add: GetLocalStoragePersistentVolumeClaimFromPod_def sample_pod_def cluster_ops_of_def sample_cluster_def
      WaitUntilPersistentVolumeClaimIsCreated_def DefaultDriverName_def)

lemma cluster_list: "sv_ListAll cluster_services sample_cluster =
    ([sample_ls LocalStorageReady (Some 95) (Some 100) [sample_vol ''a'' 5]], None)"
  by (simp add: cluster_services_def api_services_def sample_cluster_def ready_world_def)

lemma Filter_correct_witness:
  "\<exists>res. Filter int_quantity cluster_services (cluster_ops_of 50 0) (sample_args [Some ''data'']) sample_cluster =
     Some (Ret res, sample_cluster) \<and> fr_NodeNames res = Some [''n''] \<and> dom (fr_FailedNodes res) = {''m''}"
proof -
  have ne: "can_hold of_int [sample_ls LocalStorageReady (Some 95) (Some 100) [sample_vol ''a'' 5]]
      (of_int 50) n = (n = ''n'')" for n
    by (auto simp: can_hold_def)
  have d: "{n \<in> set [''m'', ''n'']. n \<noteq> ''n''} = {''m''}" by auto
  have args: "ea_Pod (sample_args [Some ''data'']) = Some (sample_pod [Some ''data''])"
    "ea_NodeNames (sample_args [Some ''data'']) = Some [''m'', ''n'']"
    by (simp_all add: sample_args_def)
  obtain res where "Filter int_quantity cluster_services (cluster_ops_of 50 0) (sample_args [Some ''data'']) sample_cluster =
      Some (Ret res, sample_cluster)"
    and n: "fr_NodeNames res = Some (filter (can_hold of_int [sample_ls LocalStorageReady (Some 95) (Some 100) [sample_vol ''a'' 5]]
      (of_int 50)) [''m'', ''n''])"
    and f: "dom (fr_FailedNodes res) = {n \<in> set [''m'', ''n'']. \<not> can_hold of_int
      [sample_ls LocalStorageReady (Some 95) (Some 100) [sample_vol ''a'' 5]] (of_int 50) n}"
    using Filter_correct [OF int_quantity_laws args data_claim [of 50 "[]"] _ cluster_list, of 50]
    by (auto simp: ready_complete_def)
  moreover have "fr_NodeNames res = Some [''n'']" unfolding n ne by simp
  moreover have "dom (fr_FailedNodes res) = {''m''}" unfolding f ne by (rule d)
  ultimately show ?thesis by blast
qed

text \<open>
  Only the first local claim of a pod counts: when the claim of the first volume exists and its
  class is the driver's, the answer does not depend on the other volumes, whatever they ask for.
\<close>

theorem Filter_first_claim_only:
  assumes "co_GetPVC K (pod_Namespace p) c a = Inr pv" and "pvc_StorageClassName pv = Some n" and "n \<noteq> []"
    and "co_GetSC K n a = Inr sc" and "sc_Provisioner sc = ''localstorage.csi.caoyingjunz.io''"
  shows "Filter Q S K (args\<lparr>ea_Pod := Some (p\<lparr>pod_Volumes := Some c # vs\<rparr>)\<rparr>) a =
         Filter Q S K (args\<lparr>ea_Pod := Some (p\<lparr>pod_Volumes := [Some c]\<rparr>)\<rparr>) a"
proof -
  have "GetLocalStoragePersistentVolumeClaimFromPod K (p\<lparr>pod_Volumes := Some c # ws\<rparr>) a = Some (Inr (Some pv), a)" for ws
    using assms by (simp add: GetLocalStoragePersistentVolumeClaimFromPod_def
        WaitUntilPersistentVolumeClaimIsCreated_def DefaultDriverName_def)
  then show ?thesis by (simp add: Filter_def split: option.split sum.split outcome.split prod.split)
qed

lemma Filter_first_claim_only_witness:
  "Filter int_quantity cluster_services (cluster_ops_of 50 0)
     ((sample_args [])\<lparr>ea_Pod := Some ((sample_pod [])\<lparr>pod_Volumes := [Some ''data'', Some ''data'']\<rparr>)\<rparr>) sample_cluster =
   Filter int_quantity cluster_services (cluster_ops_of 50 0)
     ((sample_args [])\<lparr>ea_Pod := Some ((sample_pod [])\<lparr>pod_Volumes := [Some ''data'']\<rparr>)\<rparr>) sample_cluster"
  by (rule Filter_first_claim_only [of _ _ _ _ "\<lparr>pvc_Name = ''data'', pvc_StorageClassName = Some ''local'',
        pvc_Requests = [''storage'' \<mapsto> 50]\<rparr>" "''local''" "\<lparr>sc_Provisioner = ''localstorage.csi.caoyingjunz.io''\<rparr>"])
    (simp_all add: cluster_ops_of_def sample_cluster_def sample_pod_def)

text \<open>
  C34. \<open>Filter\<close> and \<open>Score\<close> return, for every pod and every behaviour of the listers: the waits for
  claims end, because each round of a wait sleeps 200 ms of its 2 seconds.
\<close>

theorem extender_returns:
  assumes "clock_laws K tm"
  shows "Filter Q S K args a \<noteq> None \<and> Score Q S K args a \<noteq> None"
proof -
  have r: "\<exists>r. GetLocalStoragePersistentVolumeClaimFromPod K p a = Some r" for p
    using assms by (rule pod_claim_returns)
  show ?thesis
  proof (cases "ea_Pod args")
    case None
    then show ?thesis by (simp add: Filter_def Score_def)
  next
    case (Some p)
    obtain x a1 where x: "GetLocalStoragePersistentVolumeClaimFromPod K p a = Some (x, a1)"
      using r [of p] by auto
    show ?thesis
      using Some x by (auto simp: Filter_def Score_def PodIsUseLocalStorage_def
          split: sum.split option.split outcome.split)
  qed
qed

lemma extender_returns_witness:
  "Filter int_quantity cluster_services (cluster_ops_of 50 (10 ^ 12)) (sample_args [Some ''data'']) sample_cluster \<noteq> None"
  using extender_returns [OF cluster_clock] by blast

section \<open>Score\<close>

text \<open>Quantities within the range a disk has, the free part at most the whole.\<close>

definition float_fit :: "'q quantity_ops \<Rightarrow> 'q LocalStorage \<Rightarrow> bool" where
  "float_fit Q l \<longleftrightarrow>
     (\<exists>al cp x y. st_Allocatable (ls_Status l) = Some al \<and> st_Capacity (ls_Status l) = Some cp \<and>
        q_AsFloat Q al = Fin x \<and> q_AsFloat Q cp = Fin y \<and> 0 \<le> x \<and> x \<le> y \<and> 1 \<le> y \<and> y \<le> 2 ^ 64)"

lemma round_pos_disk:
  assumes "0 \<le> x" and "x \<le> 2 ^ 64" shows "round_pos (100 * x) < 2 ^ 1024"
proof (cases "x = 0")
  case True
  then show ?thesis by (simp add: round_pos_def round_even_def)
next
  case False
  with assms(1) have "0 < 100 * x" by simp
  then have "round_pos (100 * x) \<le> 100 * x + 100 * x / 2 ^ 53 + 1 / 2 ^ 1075" by (rule round_pos_bound)
  also have "\<dots> \<le> 100 * 2 ^ 64 + 100 * 2 ^ 64 / 2 ^ 53 + 1 / 2 ^ 1075"
    using assms(2) by (intro add_mono divide_right_mono mult_left_mono order_refl) simp_all
  also have "\<dots> < 2 ^ 1024" by simp
  finally show ?thesis .
qed

lemma score_fit:
  "float_fit Q l \<Longrightarrow> \<exists>s. score Q l = Ret (Some (word_of_int s)) \<and> 0 \<le> s \<and> s \<le> 100"
proof -
  assume "float_fit Q l"
  then obtain al cp x y where f: "st_Allocatable (ls_Status l) = Some al" "st_Capacity (ls_Status l) = Some cp"
    "q_AsFloat Q al = Fin x" "q_AsFloat Q cp = Fin y" "0 \<le> x" "x \<le> y" "1 \<le> y" "y \<le> 2 ^ 64"
    unfolding float_fit_def by blast
  have "round_pos (100 * x) < 2 ^ 1024" using f by (intro round_pos_disk) auto
  from score_value_bound [OF f(5-7) this] obtain s where
    "f64_to_int64 (f64_div (f64_mul (Fin 100) (Fin x)) (Fin y)) = Some (word_of_int s)" "0 \<le> s" "s \<le> 100"
    by blast
  with f have "score Q l = Ret (Some (word_of_int s)) \<and> 0 \<le> s \<and> s \<le> 100"
    by (simp add: score_def)
  then show ?thesis by (rule exI)
qed

text \<open>A localstorage without one of its quantities, which \<open>score\<close> dereferences.\<close>

definition lacks_quantity :: "'q LocalStorage \<Rightarrow> bool" where
  "lacks_quantity l \<longleftrightarrow> st_Allocatable (ls_Status l) = None \<or> st_Capacity (ls_Status l) = None"

definition score_in_range :: "'q quantity_ops \<Rightarrow> (string \<rightharpoonup> 'q LocalStorage) \<Rightarrow> host_priority \<Rightarrow> bool" where
  "score_in_range Q m h \<longleftrightarrow>
     (case m (hp_Host h) of
        None \<Rightarrow> hp_Score h = Some 0
      | Some l \<Rightarrow> float_fit Q l \<longrightarrow> (\<exists>s. hp_Score h = Some (word_of_int s) \<and> 0 \<le> s \<and> s \<le> 100))"

lemma score_lacks: "lacks_quantity l \<Longrightarrow> score Q l = Panic"
  by (auto simp: score_def lacks_quantity_def split: option.splits)

lemma score_has: "\<not> lacks_quantity l \<Longrightarrow> \<exists>s. score Q l = Ret s"
  by (auto simp: score_def lacks_quantity_def split: option.splits)

lemma score_loop_range:
  "if \<exists>n \<in> set names. \<exists>l. m n = Some l \<and> lacks_quantity l then score_loop Q m names = Panic
   else \<exists>hps. score_loop Q m names = Ret hps \<and> map hp_Host hps = names \<and> list_all (score_in_range Q m) hps"
proof (induction names)
  case Nil
  then show ?case by simp
next
  case (Cons n names)
  show ?case
  proof (cases "\<exists>l. m n = Some l \<and> lacks_quantity l")
    case True
    then obtain l where "m n = Some l" "lacks_quantity l" by blast
    then show ?thesis using score_lacks [of l Q] by auto
  next
    case False
    then obtain s where s: "(case m n of None \<Rightarrow> Ret (Some 0) | Some ls \<Rightarrow> score Q ls) = Ret s"
      using score_has by (cases "m n") fastforce+
    have r: "score_in_range Q m \<lparr>hp_Host = n, hp_Score = s\<rparr>"
      using s by (auto simp: score_in_range_def split: option.splits dest!: score_fit)
    show ?thesis
    proof (cases "\<exists>n \<in> set names. \<exists>l. m n = Some l \<and> lacks_quantity l")
      case True
      with Cons.IH s show ?thesis by simp
    next
      case none: False
      with Cons.IH obtain hps where "score_loop Q m names = Ret hps" "map hp_Host hps = names" "list_all (score_in_range Q m) hps"
        by auto
      with s r have "score_loop Q m (n # names) = Ret (\<lparr>hp_Host = n, hp_Score = s\<rparr> # hps) \<and>
          map hp_Host (\<lparr>hp_Host = n, hp_Score = s\<rparr> # hps) = n # names \<and>
          list_all (score_in_range Q m) (\<lparr>hp_Host = n, hp_Score = s\<rparr> # hps)" by simp
      with False none show ?thesis by auto
    qed
  qed
qed

text \<open>
  C33. For a pod with a local claim, \<open>Score\<close> panics exactly when the localstorage of a candidate (the
  last listed for its node) lacks a quantity. Otherwise it answers one entry per candidate, in
  order: 0 for a node without a localstorage, and, in spite of the rounding of the floating-point
  product and quotient, a number from 0 to 100 for each node whose localstorage has
  \<open>0 \<le> allocatable \<le> capacity\<close> and a capacity from 1 to 2 to the 64th, read as floating-point numbers.
  For a node whose object is out of that range (an overcommitted one has a negative allocatable
  quantity) nothing is said of the number.
\<close>

theorem Score_in_range:
  assumes args: "ea_Pod args = Some p" "ea_NodeNames args = Some names"
    and claim: "PodIsUseLocalStorage K p a = Some (Inr True, a1)"
    and ls: "sv_ListAll S a1 = (ls, None)"
  shows "if \<exists>n \<in> set names. \<exists>l. node_map ls n = Some l \<and> lacks_quantity l
    then Score Q S K args a = Some (Panic, a1)
    else \<exists>hps. Score Q S K args a = Some (Ret (Some hps), a1) \<and> map hp_Host hps = names \<and>
      (\<forall>h \<in> set hps. case node_map ls (hp_Host h) of
         None \<Rightarrow> hp_Score h = Some 0
       | Some l \<Rightarrow> float_fit Q l \<longrightarrow> (\<exists>s. hp_Score h = Some (word_of_int s) \<and> 0 \<le> s \<and> s \<le> 100))"
proof -
  have S: "Score Q S K args a = (case score_loop Q (node_map ls) names of
      Ret hps \<Rightarrow> Some (Ret (Some hps), a1) | Err err \<Rightarrow> Some (Err err, a1) | Panic \<Rightarrow> Some (Panic, a1))"
    using args claim ls by (simp add: Score_def GetLocalStorageMap_eq)
  show ?thesis
  proof (cases "\<exists>n \<in> set names. \<exists>l. node_map ls n = Some l \<and> lacks_quantity l")
    case True
    then have "score_loop Q (node_map ls) names = Panic" using score_loop_range [of names "node_map ls" Q] by simp
    with True show ?thesis unfolding S by simp
  next
    case False
    then have "\<exists>hps. score_loop Q (node_map ls) names = Ret hps \<and> map hp_Host hps = names \<and>
        list_all (score_in_range Q (node_map ls)) hps"
      using score_loop_range [of names "node_map ls" Q] unfolding if_not_P [OF False] by blast
    then obtain hps where "score_loop Q (node_map ls) names = Ret hps" "map hp_Host hps = names"
        "list_all (score_in_range Q (node_map ls)) hps" by blast
    then show ?thesis
      unfolding S if_not_P [OF False] by (intro exI [of _ hps]) (simp add: list_all_iff score_in_range_def)
  qed
qed

lemma Score_in_range_witness:
  "\<exists>hps. Score int_quantity cluster_services (cluster_ops_of 50 0) (sample_args [Some ''data'']) sample_cluster =
     Some (Ret (Some hps), sample_cluster) \<and> map hp_Host hps = [''m'', ''n''] \<and> hp_Score (hd hps) = Some 0 \<and>
     (\<exists>s. hp_Score (hps ! 1) = Some (word_of_int s) \<and> 0 \<le> s \<and> s \<le> 100)"
proof -
  have args: "ea_Pod (sample_args [Some ''data'']) = Some (sample_pod [Some ''data''])"
    "ea_NodeNames (sample_args [Some ''data'']) = Some [''m'', ''n'']"
    by (simp_all add: sample_args_def)
  have used: "PodIsUseLocalStorage (cluster_ops_of 50 0) (sample_pod [Some ''data'']) sample_cluster =
      Some (Inr True, sample_cluster)"
    by (simp add: PodIsUseLocalStorage_def data_claim)
  have q: "q_AsFloat int_quantity 95 = Fin 95" "q_AsFloat int_quantity 100 = Fin 100" by code_simp+
  then have fit: "float_fit int_quantity (sample_ls LocalStorageReady (Some 95) (Some 100) [sample_vol ''a'' 5])"
    by (simp add: float_fit_def)
  let ?l = "sample_ls LocalStorageReady (Some 95) (Some 100) [sample_vol ''a'' 5] :: int LocalStorage"
  have m: "node_map [?l] = [''n'' \<mapsto> ?l]" by (simp add: node_map_def)
  have none: "\<not> (\<exists>n \<in> set [''m'', ''n'']. \<exists>l. node_map [?l] n = Some l \<and> lacks_quantity l)"
    by (auto simp: m lacks_quantity_def)
  obtain hps where h: "Score int_quantity cluster_services (cluster_ops_of 50 0) (sample_args [Some ''data'']) sample_cluster =
     Some (Ret (Some hps), sample_cluster)" "map hp_Host hps = [''m'', ''n'']"
    "\<forall>h \<in> set hps. case node_map [?l] (hp_Host h) of None \<Rightarrow> hp_Score h = Some 0
       | Some l \<Rightarrow> float_fit int_quantity l \<longrightarrow> (\<exists>s. hp_Score h = Some (word_of_int s) \<and> 0 \<le> s \<and> s \<le> 100)"
    using Score_in_range [OF args used cluster_list, of int_quantity] unfolding if_not_P [OF none]
    by (elim exE conjE) (rule that)
  from h(2) obtain x y where x: "hps = [x, y]" "hp_Host x = ''m''" "hp_Host y = ''n''"
    by (cases hps; cases "tl hps") auto
  with h(3) fit have "hp_Score x = Some 0" "\<exists>s. hp_Score y = Some (word_of_int s) \<and> 0 \<le> s \<and> s \<le> 100"
    unfolding m by simp_all
  with h(1,2) x show ?thesis by auto
qed

section \<open>Lookups\<close>

text \<open>
  C40. When the listed localstorages name distinct nodes, the lookup by node and the map of all nodes
  give the same object; without that, the lookup takes the first in the list and the map the last.
\<close>

theorem lookups_agree:
  assumes "sv_ListAll S a = (ls, None)"
  shows "GetLocalStorageMap S a = Inr (\<lambda>n. find (\<lambda>l. ls_Node l = n) (rev ls)) \<and>
    GetLocalStorageByNode S n a =
      (case find (\<lambda>l. ls_Node l = n) ls of Some l \<Rightarrow> Inr l
       | None \<Rightarrow> Inl (FmtError (''failed to found localstorage with node '' @ n))) \<and>
    (distinct (map ls_Node ls) \<longrightarrow>
       find (\<lambda>l. ls_Node l = n) (rev ls) = find (\<lambda>l. ls_Node l = n) ls)"
proof -
  have "node_map ls = (\<lambda>n. find (\<lambda>l. ls_Node l = n) (rev ls))" by (rule ext) (rule node_map_last)
  with assms show ?thesis
    using node_map_distinct [of ls n] node_map_last [of ls n]
    by (auto simp: GetLocalStorageMap_eq GetLocalStorageByNode_def first_on_node_find split: option.split)
qed

lemma lookups_agree_witness:
  "GetLocalStorageByNode cluster_services ''n'' sample_cluster =
     Inr (sample_ls LocalStorageReady (Some 95) (Some 100) [sample_vol ''a'' 5])"
  using lookups_agree [OF cluster_list, of "''n''"] by simp

section \<open>The batch creation\<close>

lemma create_cases:
  assumes "create_contract S stored" and "sv_Create S obj a = (Inr o', a')"
  obtains obj' where "stored a (ls_Name obj) = None" "stored a' = (stored a)(ls_Name obj \<mapsto> obj')"
    "ls_Spec obj' = ls_Spec obj"
  using assms unfolding create_contract_def by blast

definition covers :: "(string \<rightharpoonup> 'q LocalStorage) \<Rightarrow> string \<Rightarrow> bool" where
  "covers m n \<longleftrightarrow> (\<exists>k l. m k = Some l \<and> ls_Node l = n)"

lemma create_loop:
  assumes S: "create_contract S stored"
    and run: "CreateLocalStorages_loop S old names a = (None, a')" and old: "\<And>n. n \<in> old \<Longrightarrow> covers (stored a) n"
  shows "(\<forall>n \<in> set names. covers (stored a') n) \<and> stored a \<subseteq>\<^sub>m stored a' \<and>
    (\<forall>k. k \<in> dom (stored a') - dom (stored a) \<longrightarrow> (\<exists>n \<in> set names - old. k = ''ls-'' @ n))"
  using run old
proof (induction names arbitrary: a)
  case Nil
  then show ?case by simp
next
  case (Cons n names)
  show ?case
  proof (cases "n \<in> old")
    case True
    with Cons.prems have IH: "(\<forall>n \<in> set names. covers (stored a') n) \<and> stored a \<subseteq>\<^sub>m stored a' \<and>
        (\<forall>k. k \<in> dom (stored a') - dom (stored a) \<longrightarrow> (\<exists>n \<in> set names - old. k = ''ls-'' @ n))"
      by (intro Cons.IH) simp_all
    moreover have "covers (stored a') n"
      using Cons.prems(2) [OF True] IH unfolding covers_def map_le_def by (metis domI)
    ultimately show ?thesis by auto
  next
    case False
    then obtain o1 a1 where c: "sv_Create S (new_LocalStorage n) a = (Inr o1, a1)"
      and r: "CreateLocalStorages_loop S old names a1 = (None, a')"
      using Cons.prems(1) by (auto split: prod.splits sum.splits)
    from S c obtain l' where l': "stored a (''ls-'' @ n) = None" "stored a1 = (stored a)(''ls-'' @ n \<mapsto> l')"
        "ls_Node l' = n"
      by (rule create_cases) (simp add: new_LocalStorage_def)
    have le: "stored a \<subseteq>\<^sub>m stored a1" using l' by (auto simp: map_le_def)
    have "covers (stored a1) j" if "j \<in> old" for j
      using Cons.prems(2) [OF that] le unfolding covers_def map_le_def by (metis domI)
    from Cons.IH [OF r this]
    have IH: "\<forall>n \<in> set names. covers (stored a') n" "stored a1 \<subseteq>\<^sub>m stored a'"
      "\<forall>k. k \<in> dom (stored a') - dom (stored a1) \<longrightarrow> (\<exists>n \<in> set names - old. k = ''ls-'' @ n)" by auto
    have "stored a' (''ls-'' @ n) = Some l'" using IH(2) l'(2) by (auto simp: map_le_def)
    with l'(3) have "covers (stored a') n" by (auto simp: covers_def)
    moreover have "stored a \<subseteq>\<^sub>m stored a'" using le IH(2) by (rule map_le_trans)
    moreover have "\<exists>j \<in> set (n # names) - old. k = ''ls-'' @ j" if "k \<in> dom (stored a') - dom (stored a)" for k
    proof (cases "k = ''ls-'' @ n")
      case True
      with False show ?thesis by (intro bexI [of _ n]) auto
    next
      case k: False
      with that l'(2) have "k \<in> dom (stored a') - dom (stored a1)" by auto
      with IH(3) obtain j where "j \<in> set names - old" "k = ''ls-'' @ j" by blast
      then show ?thesis by (intro bexI [of _ j]) simp_all
    qed
    ultimately show ?thesis using IH(1) by auto
  qed
qed

lemma CreateLocalStorages_ok:
  assumes S: "create_contract S stored" and run: "CreateLocalStorages S names a = (None, a')"
  shows "(\<forall>n \<in> set names. covers (stored a') n) \<and> stored a \<subseteq>\<^sub>m stored a' \<and>
    (\<forall>k. k \<in> dom (stored a') - dom (stored a) \<longrightarrow> (\<exists>n \<in> set names. \<not> covers (stored a) n \<and> k = ''ls-'' @ n))"
proof (cases "names = []")
  case True
  with run show ?thesis by (simp add: CreateLocalStorages_def)
next
  case False
  with run obtain items where i: "sv_List S a = Inr items"
    and r: "CreateLocalStorages_loop S (fold (\<lambda>ls names. insert (ls_Node ls) names) items {}) names a = (None, a')"
    by (auto simp: CreateLocalStorages_def split: sum.splits)
  have f: "fold (\<lambda>ls names. insert (ls_Node ls) names) items A = ls_Node ` set items \<union> A" for A
    by (induction items arbitrary: A) auto
  have "set items = ran (stored a)" using S i unfolding create_contract_def by blast
  then have old: "n \<in> ls_Node ` set items \<longleftrightarrow> covers (stored a) n" for n
    by (auto simp: covers_def ran_def)
  show ?thesis
    using create_loop [OF S r] unfolding f Un_empty_right by (auto simp: old)
qed

text \<open>
  When \<open>CreateLocalStorages\<close> returns no error, every node of the list has a localstorage, no
  object that was there changed, and what is new is named \<open>ls-\<close> and the name of a node of the list
  that had none.
\<close>

theorem CreateLocalStorages_covers:
  assumes S: "create_contract S stored" and run: "CreateLocalStorages S names a = (None, a')"
  shows "(\<forall>n \<in> set names. covers (stored a') n) \<and> stored a \<subseteq>\<^sub>m stored a' \<and>
    (\<forall>k. k \<in> dom (stored a') - dom (stored a) \<longrightarrow> (\<exists>n \<in> set names. \<not> covers (stored a) n \<and> k = ''ls-'' @ n))"
  using CreateLocalStorages_ok [OF assms] .

lemma CreateLocalStorages_covers_witness:
  "covers (api_stored (snd (CreateLocalStorages unique_services [''n'', ''m''] (w_sv ready_world)))) ''m''"
proof -
  have l: "sv_List unique_services (w_sv ready_world) = Inr [sample_ls LocalStorageReady (Some 95) (Some 100) [sample_vol ''a'' 5]]"
    by (simp add: unique_services_def ready_world_def) (simp add: sample_api_def)
  have "fst (CreateLocalStorages unique_services [''n'', ''m''] (w_sv ready_world)) = None"
    unfolding CreateLocalStorages_def l
    by (simp add: unique_services_def api_services_def api_create_def new_LocalStorage_def ready_world_def Let_def)
  then obtain a' where run: "CreateLocalStorages unique_services [''n'', ''m''] (w_sv ready_world) = (None, a')"
    by (metis prod.collapse)
  from CreateLocalStorages_covers [OF unique_create_contract run] show ?thesis by (simp add: run)
qed

text \<open>
  \<open>UpdateNodeIDInNode\<close> replaces a node ID that is there and never adds one: on a node without
  the annotation it returns a node without it.
\<close>

theorem UpdateNodeIDInNode_effect:
  "GetNameFromNode (UpdateNodeIDInNode n i) = (if IsNodeIDInNode n then i else []) \<and>
   IsNodeIDInNode (UpdateNodeIDInNode n i) = IsNodeIDInNode n \<and>
   nd_Name (UpdateNodeIDInNode n i) = nd_Name n"
  using UpdateNodeIDInNode_present [of n i] UpdateNodeIDInNode_absent [of n i]
  by (auto simp: UpdateNodeIDInNode_def IsNodeIDInNode_def GetNameFromNode_def Let_def split: option.splits)

end
