(* ===== verification/Prop_Process.thy ===== *)
theory Prop_Process
  imports LS_Process Prop_Scheduler
begin

text \<open>
  What holds of the processes around the components: the plugin's configuration, the job that
  creates the localstorages, and the life of the plugin's server.
\<close>

text \<open>
  The plugin starts exactly when it has a driver name and a node ID, from the flag or else from
  the environment; the flag wins, and the other settings are taken as they are.
\<close>

theorem plugin_configuration:
  "NewLocalStorage (plugin_config driver ep nid dir env) = Inr cfg \<longleftrightarrow>
     driver \<noteq> [] \<and> cf_NodeId cfg \<noteq> [] \<and>
     cfg = \<lparr>cf_DriverName = driver, cf_Endpoint = ep, cf_VendorVersion = ''v1.0.0'',
            cf_NodeId = (if nid \<noteq> [] then nid else env), cf_VolumeDir = dir\<rparr>"
  by (auto simp: NewLocalStorage_def plugin_config_def Let_def)

text \<open>
  When the job completes, every node that carries the label has a localstorage, no object that
  was there changed, and only labelled nodes without one got one, whatever the flag
  \<open>create-localstorage\<close> says.
\<close>

theorem job_covers:
  assumes S: "create_contract S stored" and run: "job_main clients nodes S flag a = (JobCompleted, a')"
  shows "\<exists>items. nodes ''storage.caoyingjunz.io/node'' = Inr items \<and>
    (\<forall>n \<in> set items. covers (stored a') (nd_Name n)) \<and> stored a \<subseteq>\<^sub>m stored a' \<and>
    (\<forall>k \<in> dom (stored a') - dom (stored a).
       \<exists>n \<in> set items. \<not> covers (stored a) (nd_Name n) \<and> k = ''ls-'' @ nd_Name n) \<and>
    job_main clients nodes S (\<not> flag) a = (JobCompleted, a')"
proof -
  from run obtain items where i: "nodes ''storage.caoyingjunz.io/node'' = Inr items"
    and c: "CreateLocalStorages S (map nd_Name items) a = (None, a')"
    by (auto simp: job_main_def fold_names split: sum.splits prod.splits option.splits)
  have "job_main clients nodes S (\<not> flag) a = (JobCompleted, a')"
    using run by (simp add: job_main_def)
  with i CreateLocalStorages_ok [OF S c] show ?thesis by auto
qed

lemma job_covers_witness:
  "covers (api_stored (snd (job_main (Inr ()) (\<lambda>_. Inr [\<lparr>nd_Name = ''m'', nd_Annotations = None\<rparr>])
     unique_services False (w_sv ready_world)))) ''m''"
proof -
  let ?job = "job_main (Inr ()) (\<lambda>_. Inr [\<lparr>nd_Name = ''m'', nd_Annotations = None\<rparr>]) unique_services False (w_sv ready_world)"
  have l: "sv_List unique_services (w_sv ready_world) = Inr [sample_ls LocalStorageReady (Some 95) (Some 100) [sample_vol ''a'' 5]]"
    by (simp add: unique_services_def ready_world_def) (simp add: sample_api_def)
  have "fst ?job = JobCompleted"
    unfolding job_main_def CreateLocalStorages_def l
    by (simp add: unique_services_def api_services_def api_create_def new_LocalStorage_def ready_world_def Let_def)
  then obtain a' where run: "?job = (JobCompleted, a')" by (metis prod.collapse)
  from job_covers [OF unique_create_contract run] show ?thesis by (simp add: run)
qed

text \<open>
  Once the cache is synced, \<open>Run\<close> of the plugin never returns: nothing takes the wait group's
  counter down again, not even stopping the server and the end of its goroutine, so the deferred
  shutdown of the queue does not happen. It returns an error when the cache does not sync.
\<close>

theorem run_never_returns:
  assumes "server_step\<^sup>*\<^sup>* (Start NewNonBlockingGRPCServer) s"
  shows "plugin_Run True = RunWaiting (Start NewNonBlockingGRPCServer) \<and>
    run_step (RunWaiting s) = RunWaiting s \<and> \<not> Wait_returns_now s \<and>
    plugin_Run False = RunReturned (Some (FmtError ''failed to WaitForNamedCacheSync''))"
proof -
  have "1 \<le> gs_wg s"
    using server_steps_wg [OF assms] by (simp add: Start_def NewNonBlockingGRPCServer_def)
  then show ?thesis by (simp add: plugin_Run_def Wait_returns_now_def)
qed

lemma run_never_returns_witness:
  "run_step (RunWaiting \<lparr>gs_wg = 1, gs_server = True, gs_serving = 0, gs_stopped = True\<rparr>) =
     RunWaiting \<lparr>gs_wg = 1, gs_server = True, gs_serving = 0, gs_stopped = True\<rparr>"
proof -
  let ?s0 = "Start NewNonBlockingGRPCServer"
  let ?s1 = "\<lparr>gs_wg = 1, gs_server = True, gs_serving = 1, gs_stopped = False\<rparr>"
  let ?s2 = "\<lparr>gs_wg = 1, gs_server = True, gs_serving = 1, gs_stopped = True\<rparr>"
  let ?s3 = "\<lparr>gs_wg = 1, gs_server = True, gs_serving = 0, gs_stopped = True\<rparr>"
  have "server_step ?s0 ?s1"
    using server_step.assign [of ?s0] by (simp add: Start_def NewNonBlockingGRPCServer_def)
  moreover have "server_step ?s1 ?s2" by (rule server_step.stop) (simp add: Stop_def)
  moreover have "server_step ?s2 ?s3" using server_step.finish [of ?s2] by simp
  ultimately have "server_step\<^sup>*\<^sup>* ?s0 ?s3" by (meson rtranclp.rtrancl_refl rtranclp.rtrancl_into_rtrancl)
  from run_never_returns [OF this] show ?thesis by blast
qed

end
