(* ===== verification/Prop_Admission.thy ===== *)
theory Prop_Admission
  imports LS_Instance
begin

text \<open>
  What the admission webhooks accept and change: the exact conditions for a creation and an
  update, the invariant of the admitted objects, and the defaults the mutating handler sets.
\<close>

section \<open>Creation\<close>

text \<open>
  C22. A creation is allowed exactly when the object decodes, its name has 1 to \<open>LabelMax - 11\<close>
  characters, its node is named, exists and has no localstorage yet (by a listing that works), it
  has at most one backend, a path backend has a directory, and an lvm backend has a volume group
  and at least one disk.
\<close>

theorem create_allowed_iff:
  "validate_Handle C V (req\<lparr>rq_Operation := ''CREATE''\<rparr>) = Allowed [] \<longleftrightarrow>
     (\<exists>l items. cd_Decode C (req\<lparr>rq_Operation := ''CREATE''\<rparr>) = Inr l \<and>
        0 < length (ls_Name l) \<and> int (length (ls_Name l)) \<le> vc_LabelMax V - 11 \<and>
        ls_Node l \<noteq> [] \<and> vc_GetNode V (ls_Node l) = None \<and>
        vc_List V = Inr items \<and> ls_Node l \<notin> ls_Node ` set items \<and>
        \<not> (sp_Path (ls_Spec l) \<noteq> None \<and> sp_Lvm (ls_Spec l) \<noteq> None) \<and>
        (case sp_Path (ls_Spec l) of None \<Rightarrow> True | Some p \<Rightarrow> ps_VolumeDir p \<noteq> []) \<and>
        (case sp_Lvm (ls_Spec l) of None \<Rightarrow> True
         | Some g \<Rightarrow> lv_VolumeGroup g \<noteq> [] \<and> (\<exists>d ds. lv_Disks g = Some (d # ds))))"
proof -
  have op: "validate_Handle C V (req\<lparr>rq_Operation := ''CREATE''\<rparr>) = Allowed [] \<longleftrightarrow>
     (\<exists>l. cd_Decode C (req\<lparr>rq_Operation := ''CREATE''\<rparr>) = Inr l \<and> validateName V l = None \<and>
        ValidateCreate V l = None)"
    by (auto simp: validate_Handle_def respond_def opCreate_def split: sum.splits option.splits)
  have name: "validateName V l = None \<longleftrightarrow>
      0 < length (ls_Name l) \<and> int (length (ls_Name l)) \<le> vc_LabelMax V - 11" for l
    by (auto simp: validateName_def)
  have lvm: "lvm_ok g \<longleftrightarrow> (case g of None \<Rightarrow> True
      | Some g \<Rightarrow> lv_VolumeGroup g \<noteq> [] \<and> (\<exists>d ds. lv_Disks g = Some (d # ds)))" for g
    by (auto simp: lvm_ok_def neq_Nil_conv split: option.split)
  show ?thesis
    unfolding op name ValidateCreate_None validateKubeNode_None backend_ok_def path_ok_def lvm by auto
qed

section \<open>Update\<close>

text \<open>
  C23. An update that is allowed keeps the name, the API version, the kind and the node; each
  backend is kept as it was, or added complete where there was none; and a complete
  specification stays complete.
\<close>

theorem update_immutable:
  assumes "validate_Handle C V (req\<lparr>rq_Operation := ''UPDATE''\<rparr>) = Allowed []"
  shows "\<exists>old cur. cd_DecodeRaw C (rq_OldObject req) = Inr old \<and>
    cd_Decode C (req\<lparr>rq_Operation := ''UPDATE''\<rparr>) = Inr cur \<and>
    ls_Name cur = ls_Name old \<and> ls_APIVersion cur = ls_APIVersion old \<and> ls_Kind cur = ls_Kind old \<and>
    ls_Node cur = ls_Node old \<and>
    (sp_Path (ls_Spec old) \<noteq> None \<longrightarrow> sp_Path (ls_Spec cur) = sp_Path (ls_Spec old)) \<and>
    (sp_Lvm (ls_Spec old) \<noteq> None \<longrightarrow> sp_Lvm (ls_Spec cur) = sp_Lvm (ls_Spec old)) \<and>
    (backend_ok (ls_Spec old) \<longrightarrow> backend_ok (ls_Spec cur))"
proof -
  from assms obtain old cur where "cd_DecodeRaw C (rq_OldObject req) = Inr old"
      "cd_Decode C (req\<lparr>rq_Operation := ''UPDATE''\<rparr>) = Inr cur" and u: "ValidateUpdate old cur = None"
    by (auto simp: validate_Handle_def respond_def opCreate_def opUpdate_def split: sum.splits option.splits)
  then show ?thesis
    using ValidateUpdate_backend [OF u] by (auto simp: ValidateUpdate_None kept_or_added_def)
qed

text \<open>A decoder that answers two fixed objects, and a client for a cluster with node \<open>n\<close>.\<close>

definition sample_codec :: "int LocalStorage \<Rightarrow> int LocalStorage \<Rightarrow> int codec" where
  "sample_codec old cur = \<lparr>cd_Decode = (\<lambda>_. Inr cur), cd_DecodeRaw = (\<lambda>_. Inr old), cd_Marshal = (\<lambda>_. Inr [])\<rparr>"

definition sample_client :: "int LocalStorage list \<Rightarrow> int validator_client" where
  "sample_client ls = \<lparr>vc_GetNode = (\<lambda>n. if n = ''n'' then None else Some (NotFoundError ''nodes'' n)),
     vc_List = Inr ls, vc_IsNotFound = (\<lambda>e. case e of NotFoundError _ _ \<Rightarrow> True | _ \<Rightarrow> False), vc_LabelMax = 63\<rparr>"

definition fresh_ls :: "int LocalStorage" where
  "fresh_ls = sample_ls [] None None []"

lemma update_immutable_witness:
  "\<exists>old cur. cd_DecodeRaw (sample_codec fresh_ls fresh_ls) ''x'' = Inr old \<and>
    cd_Decode (sample_codec fresh_ls fresh_ls) \<lparr>rq_Operation = ''UPDATE'', rq_Object = [], rq_OldObject = ''x''\<rparr> = Inr cur \<and>
    ls_Node cur = ls_Node old"
proof -
  have "validate_Handle (sample_codec fresh_ls fresh_ls) (sample_client [])
      (\<lparr>rq_Operation = [], rq_Object = [], rq_OldObject = ''x''\<rparr>\<lparr>rq_Operation := ''UPDATE''\<rparr>) = Allowed []"
    by code_simp
  from update_immutable [OF this] show ?thesis by auto
qed

section \<open>The admitted objects\<close>

text \<open>
  Whatever sequence of creations, updates and deletions the webhooks let through, no two
  localstorages name the same node, every one names a node, and every one has at most one backend,
  a complete one.
\<close>

theorem admitted_unique_nodes:
  assumes "admitted cl"
  shows "distinct (map ls_Node cl) \<and>
    (\<forall>l \<in> set cl. ls_Node l \<noteq> [] \<and> (sp_Path (ls_Spec l) = None \<or> sp_Lvm (ls_Spec l) = None) \<and>
       (\<forall>p. sp_Path (ls_Spec l) = Some p \<longrightarrow> ps_VolumeDir p \<noteq> []))"
  using admitted_inv [OF assms]
  by (auto simp: admission_inv_def list_all_iff backend_ok_def path_ok_def)

lemma admitted_unique_nodes_witness:
  "distinct (map ls_Node [mutate fresh_ls opCreate])"
proof -
  have ok: "validateName (sample_client []) (mutate fresh_ls opCreate) = None"
    "ValidateCreate (sample_client []) (mutate fresh_ls opCreate) = None" by code_simp+
  have "vc_List (sample_client []) = Inr []" by (simp add: sample_client_def)
  from admission_step.create [OF this ok] have "admission_step [] [mutate fresh_ls opCreate]" by simp
  with admitted.empty have "admitted [mutate fresh_ls opCreate]" by (rule admitted.step)
  from admitted_unique_nodes [OF this] show ?thesis by blast
qed

text \<open>
  C39. The check that a node has no localstorage yet is made on a listing, before the object is
  stored. Of two creations for one node that are validated on the same listing, the second is
  allowed like the first; with both stored, the plugin's lookup finds one of them and the
  scheduler's map the other.
\<close>

theorem concurrent_creations_share_node:
  assumes r1: "rq_Operation r1 = opCreate" "cd_Decode C r1 = Inr l1" "validate_Handle C V r1 = Allowed []"
    and r2: "rq_Operation r2 = opCreate" "cd_Decode C r2 = Inr l2" "validateName V l2 = None"
      "backend_ok (ls_Spec l2)" "ls_Node l2 = ls_Node l1"
    and both: "sv_ListAll S a = ([l1, l2], None)"
  shows "validate_Handle C V r2 = Allowed [] \<and> GetLocalStorageByNode S (ls_Node l1) a = Inr l1 \<and>
    (\<exists>m. GetLocalStorageMap S a = Inr m \<and> m (ls_Node l1) = Some l2)"
proof -
  from r1 have "ValidateCreate V l1 = None"
    by (auto simp: validate_Handle_def respond_def split: option.splits)
  with r2 have "ValidateCreate V l2 = None" by (simp add: ValidateCreate_None validateKubeNode_None)
  with r2 both show ?thesis
    by (simp add: validate_Handle_def respond_def GetLocalStorageByNode_def GetLocalStorageMap_def)
qed

text \<open>A second object for node \<open>n\<close>, and a decoder that tells the two requests apart.\<close>

definition second_ls :: "int LocalStorage" where
  "second_ls = fresh_ls\<lparr>ls_Meta := (ls_Meta fresh_ls)\<lparr>om_Name := ''ls-m''\<rparr>\<rparr>"

definition pair_codec :: "int codec" where
  "pair_codec = (sample_codec fresh_ls fresh_ls)\<lparr>cd_Decode :=
     \<lambda>r. Inr (if rq_Object r = ''2'' then second_ls else fresh_ls)\<rparr>"

definition create_request :: "string \<Rightarrow> admission_request" where
  "create_request obj = \<lparr>rq_Operation = opCreate, rq_Object = obj, rq_OldObject = []\<rparr>"

lemma concurrent_creations_share_node_witness:
  "validate_Handle pair_codec (sample_client []) (create_request ''1'') = Allowed [] \<and>
   validate_Handle pair_codec (sample_client []) (create_request ''2'') = Allowed []"
proof -
  have op: "rq_Operation (create_request x) = opCreate" for x by (simp add: create_request_def)
  have d: "cd_Decode pair_codec (create_request ''1'') = Inr fresh_ls"
    "cd_Decode pair_codec (create_request ''2'') = Inr second_ls"
    by (simp_all add: pair_codec_def create_request_def)
  have ok: "validate_Handle pair_codec (sample_client []) (create_request ''1'') = Allowed []"
    "validateName (sample_client []) second_ls = None" "backend_ok (ls_Spec second_ls)"
    "ls_Node second_ls = ls_Node fresh_ls"
    by code_simp+
  let ?S = "api_services\<lparr>sv_ListAll := \<lambda>_. ([fresh_ls, second_ls], None)\<rparr>"
  have "sv_ListAll ?S (sample_api fresh_ls) = ([fresh_ls, second_ls], None)" by simp
  from concurrent_creations_share_node [OF op d(1) ok(1) op d(2) ok(2-4) this] ok(1) show ?thesis by blast
qed

section \<open>Defaults\<close>

text \<open>
  C24. What the mutating handler changes: it adds the protection finalizer at the end unless it is
  there or the object is under deletion; on a creation it sets an empty phase to \<open>Pending\<close> and
  clears the volumes; it changes nothing else, and doing it twice is doing it once.
\<close>

theorem mutate_effect:
  "mutate l op =
     l\<lparr>ls_Meta := (ls_Meta l)\<lparr>om_Finalizers :=
          (if IsZero (om_DeletionTimestamp (ls_Meta l)) \<and> ''caoyingjunz.io/ls-protection'' \<notin> set (om_Finalizers (ls_Meta l))
           then om_Finalizers (ls_Meta l) @ [''caoyingjunz.io/ls-protection'']
           else om_Finalizers (ls_Meta l))\<rparr>,
       ls_Status :=
         (if op = ''CREATE''
          then (ls_Status l)\<lparr>st_Phase := (if ls_Phase l = [] then ''Pending'' else ls_Phase l), st_Volumes := []\<rparr>
          else ls_Status l)\<rparr> \<and>
   mutate (mutate l op) op = mutate l op"
proof -
  have e: "mutate l op = l\<lparr>ls_Meta := (ls_Meta l)\<lparr>om_Finalizers := GetFinalizers (mutate l op)\<rparr>,
      ls_Status := ls_Status (mutate l op)\<rparr>" for l :: "'q LocalStorage"
    by (cases "op = opCreate") (auto simp: mutate_create mutate_other Let_def field_defs AddFinalizer_def)
  have idem: "mutate (mutate l op) op = mutate l op"
    by (subst e, subst (3) e)
      (auto simp: mutate_finalizers mutate_status being_deleted_def LocalStoragePending_def)
  have f: "GetFinalizers (mutate l op) =
      (if IsZero (om_DeletionTimestamp (ls_Meta l)) \<and> LsProtectionFinalizer \<notin> set (GetFinalizers l)
       then GetFinalizers l @ [LsProtectionFinalizer] else GetFinalizers l)"
    by (simp add: mutate_finalizers being_deleted_def)
  show ?thesis
    using e [of l] idem
    unfolding f mutate_status LsProtectionFinalizer_def LocalStoragePending_def opCreate_def by blast
qed

end
