(* ===== verification/LS_Typing.thy ===== *)
theory LS_Typing
  imports LS_System
begin

text \<open>
  What the components may rely on about the shape of a stored object: it is stored under its own
  name, which leaves room for the suffixes Kubernetes adds, is bound to a node, has at most one
  backend and a complete one, has a phase, and records each volume with the path its plugin
  computes from the ID. Admission establishes the shape; every handler and every reconciliation
  keeps it.
\<close>

definition volume_typed :: "Config \<Rightarrow> Volume \<Rightarrow> bool" where
  "volume_typed cfg v \<longleftrightarrow> v_VolPath v = parseVolumePath (cf_VolumeDir cfg) (v_VolID v)"

definition well_typed :: "(string \<Rightarrow> Config) \<Rightarrow> string \<Rightarrow> 'q LocalStorage \<Rightarrow> bool" where
  "well_typed C k l \<longleftrightarrow>
     ls_Name l = k \<and> 0 < length k \<and> length k \<le> 52 \<and> ls_Node l \<noteq> [] \<and> backend_ok (ls_Spec l) \<and>
     ls_Phase l \<noteq> [] \<and> list_all (volume_typed (C (ls_Node l))) (ls_Volumes l)"

definition all_typed :: "(string \<Rightarrow> Config) \<Rightarrow> (string \<rightharpoonup> 'q LocalStorage) \<Rightarrow> bool" where
  "all_typed C m \<longleftrightarrow> (\<forall>k l. m k = Some l \<longrightarrow> well_typed C k l)"

lemma all_typedD: "all_typed C m \<Longrightarrow> m k = Some l \<Longrightarrow> well_typed C k l"
  by (simp add: all_typed_def)

lemma all_typed_upd: "all_typed C m \<Longrightarrow> well_typed C k l \<Longrightarrow> all_typed C (m(k \<mapsto> l))"
  by (simp add: all_typed_def)

lemma all_typed_remove: "all_typed C m \<Longrightarrow> all_typed C (m(k := None))"
  by (simp add: all_typed_def)

lemma phases_nonempty [simp]:
  "LocalStoragePending \<noteq> []" "LocalStorageInitiating \<noteq> []" "LocalStorageReady \<noteq> []"
  "LocalStorageTerminating \<noteq> []"
  by (simp_all add: phase_defs)

lemma applied_typed: "applied obj obj' \<Longrightarrow> well_typed C k obj \<Longrightarrow> well_typed C k obj'"
  by (simp add: well_typed_def applied_def)

section \<open>The objects the handlers submit\<close>

lemma allocate_typed:
  assumes "well_typed C k l" and "volume_typed (C (ls_Node l)) v"
  shows "well_typed C k (allocate Q v l)"
  using assms AddVolume_subset [of l v] by (auto simp: well_typed_def allocate_def list_all_iff)

lemma release_typed:
  assumes "well_typed C k l"
  shows "well_typed C k (release Q i l)"
  using assms RemoveVolume_subset [of l i] by (auto simp: well_typed_def release_def list_all_iff)

lemma set_Phase_typed: "well_typed C k l \<Longrightarrow> p \<noteq> [] \<Longrightarrow> well_typed C k (set_Phase p l)"
  by (simp add: well_typed_def)

lemma initialised_typed: "well_typed C k l \<Longrightarrow> well_typed C k (initialised q l)"
  by (simp add: well_typed_def)

section \<open>Every step keeps the types\<close>

lemma validateName_None:
  "vc_LabelMax V = 63 \<Longrightarrow> validateName V l = None \<longleftrightarrow> 0 < length (ls_Name l) \<and> length (ls_Name l) \<le> 52"
  by (auto simp: validateName_def)

lemma admit_create_typed:
  assumes V: "vc_LabelMax V = 63" "validateName V (mutate l opCreate) = None"
    and ok: "ValidateCreate V (mutate l opCreate) = None"
  shows "well_typed C (ls_Name l) (mutate l opCreate)"
  using V(2) ok unfolding validateName_None [OF V(1)]
  by (simp add: well_typed_def ValidateCreate_None validateKubeNode_None mutate_status)

lemma admit_update_typed:
  assumes ok: "ValidateUpdate old (mutate l opUpdate) = None" and st: "ls_Status l = ls_Status old"
    and old: "well_typed C k old"
  shows "well_typed C k (mutate l opUpdate)"
proof -
  have "backend_ok (ls_Spec (mutate l opUpdate))"
    using ValidateUpdate_backend [OF ok] old by (simp add: well_typed_def)
  then show ?thesis
    using ok st old by (simp add: well_typed_def ValidateUpdate_None mutate_status)
qed

text \<open>Replacing an object by one the server made from a well-formed one.\<close>

lemma replace_typed:
  assumes "all_typed C m" and "m k = Some l" and "applied obj l'"
    and "well_typed C k l \<Longrightarrow> well_typed C k obj"
  shows "all_typed C (m(k \<mapsto> l'))"
  by (rule all_typed_upd [OF assms(1) applied_typed [OF assms(3) assms(4) [OF all_typedD [OF assms(1,2)]]]])

lemma change_typed:
  assumes tr: "system_trace Q S stored C tr s" and kept: "status_kept stored (e, s)"
    and typed: "all_typed C (stored (sy_sv s))" and change: "store_change Q S stored C e s m"
  shows "all_typed C m"
  using change
proof (cases rule: store_change.cases)
  case (allocated l n req l')
  then show ?thesis
    using replace_typed [OF typed allocated(3,6)] by (simp add: allocate_typed volume_typed_def)
next
  case (released l n i l')
  then show ?thesis using replace_typed [OF typed released(3,6)] by (simp add: release_typed)
next
  case (promoted l l')
  then show ?thesis using replace_typed [OF typed promoted(2,4)] by (simp add: set_Phase_typed)
next
  case (terminated l l')
  then show ?thesis using replace_typed [OF typed terminated(2,4)] by (simp add: set_Phase_typed)
next
  case (opened dKey l q l' n)
  then show ?thesis using replace_typed [OF typed opened(4,7)] by (simp add: initialised_typed)
next
  case (created x l')
  obtain V l s0 where x: "x = mutate l opCreate" "ValidateCreate V x = None" "validateName V x = None"
      "vc_LabelMax V = 63"
    using tr created(3) by (rule admitted_valid)
  then have "well_typed C (ls_Name x) l'"
    using applied_typed [OF created(5)] admit_create_typed [of V l C] by simp
  with created typed show ?thesis by (simp add: all_typed_upd)
next
  case (edited k old l l')
  then have "ls_Status l = ls_Status old" using kept by simp
  with edited show ?thesis using replace_typed [OF typed edited(3,5)] admit_update_typed [OF edited(4)] by simp
next
  case (marked k l l')
  then show ?thesis using replace_typed [OF typed marked(3,4)] by simp
qed (use typed in \<open>simp_all add: all_typed_remove\<close>)

lemma trace_typed:
  assumes S: "update_contract S stored" "cache_contract S stored" "uuid_contract S stored"
    and C: "\<And>n. cf_NodeId (C n) = n" and tr: "system_trace Q S stored C tr s"
    and "\<And>y. y \<in> set tr \<Longrightarrow> status_kept stored y"
  shows "all_typed C (stored (sy_sv s))"
  using tr assms(6)
proof (induction rule: system_trace.induct)
  case (start s)
  then show ?case by (simp add: all_typed_def)
next
  case (step tr s e s')
  with change_typed [OF step.hyps(1) _ _ system_step_change [OF S C step.hyps(2)]] show ?case by simp
qed

end
