(* ===== verification/LS_Safety.thy ===== *)
theory LS_Safety
  imports LS_System
begin

text \<open>
  What goes wrong only for a reason, over the traces of \<open>LS_System\<close>: an object's allocatable
  quantity is its capacity minus its volumes unless a plugin initialised it with volumes; a node
  has one object unless a creation was validated on a listing or at a time that hid another; a
  recorded volume has its directory unless a deletion took it by a path, or on a node with two
  objects. The steps that are no such reason keep the invariant.
\<close>

section \<open>Balance\<close>

definition balanced_key :: "('q \<Rightarrow> rat) \<Rightarrow> (string \<rightharpoonup> 'q LocalStorage) \<Rightarrow> string \<Rightarrow> bool" where
  "balanced_key val m k \<longleftrightarrow> (\<forall>l. m k = Some l \<longrightarrow> balanced val l)"

lemma balanced_key_upd:
  "balanced_key val m k \<Longrightarrow> (j = k \<Longrightarrow> balanced val l) \<Longrightarrow> balanced_key val (m(j \<mapsto> l)) k"
  by (simp add: balanced_key_def)

lemma balanced_keyD: "balanced_key val m k \<Longrightarrow> m k = Some l \<Longrightarrow> balanced val l"
  by (simp add: balanced_key_def)

text \<open>An object replaced by one that balances if it did.\<close>

lemma balanced_key_replace:
  assumes "balanced_key val m k" and "m j = Some l" and "ls_Status l' = ls_Status obj"
    and "j = k \<Longrightarrow> balanced val l \<Longrightarrow> balanced val obj"
  shows "balanced_key val (m(j \<mapsto> l')) k"
  using assms balanced_status [of l' obj val] by (auto intro!: balanced_key_upd dest: balanced_keyD)

lemma change_balanced:
  assumes Q: "quantity_laws Q val" and clean: "clean_admissions s" and kept: "status_kept stored (e, s)"
    and fresh: "id_fresh S stored (e, s)" and calm: "\<not> resets S stored k (e, s)"
    and inv: "balanced_key val (stored (sy_sv s)) k"
    and change: "store_change Q S stored C e s m"
  shows "balanced_key val m k"
  using change
proof (cases rule: store_change.cases)
  case (allocated l n req l')
  have new: "fst (sv_NewUUID S (sy_sv s)) \<notin> v_VolID ` set (ls_Volumes l)"
    using fresh allocated by (auto simp: fresh_uuid_def)
  show ?thesis
    unfolding allocated(2)
    by (rule balanced_key_replace [OF inv allocated(3),
          where obj = "allocate Q (new_Volume (C n) req (fst (sv_NewUUID S (sy_sv s)))) l"])
      (use allocated new allocate_balanced [OF Q] in \<open>auto simp: applied_def\<close>)
next
  case (released l n i l')
  show ?thesis
    unfolding released(2)
    by (rule balanced_key_replace [OF inv released(3), where obj = "release Q i l"])
      (use released release_balanced [OF Q] in \<open>auto simp: applied_def\<close>)
next
  case (promoted l l')
  show ?thesis
    unfolding promoted(1)
    by (rule balanced_key_replace [OF inv promoted(2), where obj = "set_Phase LocalStorageInitiating l"]) (use promoted in \<open>auto simp: applied_def\<close>)
next
  case (terminated l l')
  show ?thesis
    unfolding terminated(1)
    by (rule balanced_key_replace [OF inv terminated(2), where obj = "set_Phase LocalStorageTerminating l"]) (use terminated in \<open>auto simp: applied_def\<close>)
next
  case (opened dKey l q l' n)
  show ?thesis
    unfolding opened(2)
  proof (rule balanced_key_replace [OF inv opened(4), where obj = "initialised q l"])
    show "ls_Status l' = ls_Status (initialised q l)" using opened by (simp add: applied_def)
    assume "ls_Name l = k"
    with calm opened have "ls_Volumes l = []" by auto
    then show "balanced val (initialised q l)" by (intro balanced_empty [of _ q]) simp_all
  qed
next
  case (created x l')
  show ?thesis
    unfolding created(2)
    by (rule balanced_key_upd [OF inv])
      (use admitted_empty [OF clean created(3,5)] in \<open>simp add: balanced_def\<close>)
next
  case (edited j old l l')
  then have "ls_Status l' = ls_Status old" using edited_status kept by metis
  then show ?thesis unfolding edited(2) by (rule balanced_key_replace [OF inv edited(3), where obj = old])
next
  case (marked j l l')
  show ?thesis
    unfolding marked(2)
    by (rule balanced_key_replace [OF inv marked(3), where obj = l]) (use marked in \<open>auto simp: applied_def\<close>)
qed (use inv in \<open>auto simp: balanced_key_def\<close>)

lemma trace_balanced:
  assumes "quantity_laws Q val"
    and S: "update_contract S stored" "cache_contract S stored" "uuid_contract S stored"
    and C: "\<And>n. cf_NodeId (C n) = n" and tr: "system_trace Q S stored C tr s"
    and "\<And>y. y \<in> set tr \<Longrightarrow> status_kept stored y \<and> id_fresh S stored y \<and> \<not> resets S stored k y"
  shows "balanced_key val (stored (sy_sv s)) k"
  using tr assms(7)
proof (induction rule: system_trace.induct)
  case (step tr s e s')
  have "clean_admissions s" using step.hyps(1) by (rule trace_clean) (use step.prems in simp)
  with assms(1) show ?case
    by (rule change_balanced [OF _ _ _ _ _ _ system_step_change [OF S C step.hyps(2)]]) (use step in auto)
qed (simp add: balanced_key_def)

section \<open>Nodes\<close>

definition nodes_of :: "(string \<rightharpoonup> 'q LocalStorage) \<Rightarrow> string \<rightharpoonup> string" where
  "nodes_of m = (\<lambda>k. map_option ls_Node (m k))"

text \<open>Among the stored objects and the ones on their way, at most one is of the node.\<close>

definition single :: "(string \<rightharpoonup> string) \<Rightarrow> 'q LocalStorage list \<Rightarrow> string \<Rightarrow> bool" where
  "single N X n \<longleftrightarrow>
     (\<forall>j k. N j = Some n \<longrightarrow> N k = Some n \<longrightarrow> j = k) \<and>
     (n \<in> ran N \<longrightarrow> n \<notin> ls_Node ` set X) \<and> length (filter (\<lambda>x. ls_Node x = n) X) \<le> 1"

lemma nodes_of_upd [simp]:
  "nodes_of (m(k \<mapsto> l)) = (nodes_of m)(k \<mapsto> ls_Node l)" "nodes_of (m(k := None)) = (nodes_of m)(k := None)"
  by (simp_all add: nodes_of_def fun_eq_iff)

lemma nodes_of_same: "m k = Some l \<Longrightarrow> (nodes_of m)(k \<mapsto> ls_Node l) = nodes_of m"
  by (simp add: nodes_of_def fun_eq_iff)

lemma ran_nodes_of: "ran (nodes_of m) = ls_Node ` ran m"
  by (force simp: nodes_of_def ran_def)

lemma shared_node_single: "single (nodes_of m) X n \<Longrightarrow> \<not> shared_node m n"
  by (auto simp: single_def shared_node_def nodes_of_def)

lemma filter_one: "length (filter P X) \<le> 1 \<Longrightarrow> x \<in> set X \<Longrightarrow> P x \<Longrightarrow> filter P (remove1 x X) = []"
proof -
  assume "length (filter P X) \<le> 1" and x: "x \<in> set X" "P x"
  moreover have "x \<in> set (filter P X)" using x by simp
  ultimately have "filter P X = [x]" by (cases "filter P X") auto
  then show ?thesis by (simp add: filter_remove1 x)
qed

lemma single_drop:
  "single N X n \<Longrightarrow> single N (remove1 x X) n"
  using set_remove1_subset [of x X]
  by (auto simp: single_def filter_remove1 length_remove1)

lemma single_remove: "single N X n \<Longrightarrow> single (N(k := None)) X n"
  by (auto simp: single_def ran_def)

lemma single_begin:
  assumes "single N X n" and "ls_Node x = n \<Longrightarrow> n \<notin> ran N \<and> n \<notin> ls_Node ` set X"
  shows "single N (x # X) n"
proof (cases "ls_Node x = n")
  case True
  with assms(2) have "filter (\<lambda>y. ls_Node y = n) X = []" by (auto simp: filter_empty_conv image_iff)
  with True assms show ?thesis by (simp add: single_def)
qed (use assms(1) in \<open>auto simp: single_def\<close>)

lemma single_store:
  assumes "single N X n" and "x \<in> set X" and "N k = None"
  shows "single (N(k \<mapsto> ls_Node x)) (remove1 x X) n"
proof (cases "ls_Node x = n")
  case True
  with assms have "n \<notin> ran N" "filter (\<lambda>x. ls_Node x = n) (remove1 x X) = []"
    by (auto simp: single_def intro!: filter_one)
  then show ?thesis by (auto simp: single_def ran_def filter_empty_conv)
next
  case False
  with single_drop [OF assms(1), of x] assms(3) show ?thesis by (auto simp: single_def ran_def)
qed

lemma change_nodes:
  assumes "store_change Q S stored C e s m"
  obtains (same) "nodes_of m = nodes_of (stored (sy_sv s))"
  | (new) x where "e = AdmitStore x" "x \<in> set (sy_admitted s)" "nodes_of (stored (sy_sv s)) (ls_Name x) = None"
      "nodes_of m = (nodes_of (stored (sy_sv s)))(ls_Name x \<mapsto> ls_Node x)"
  | (gone) k where "nodes_of m = (nodes_of (stored (sy_sv s)))(k := None)"
  using assms
proof (cases rule: store_change.cases)
  case (created x l')
  then show ?thesis by (intro new [of x]) (simp_all add: applied_def nodes_of_def fun_eq_iff)
next
  case (edited k old l l')
  then have "ls_Node l' = ls_Node old" by (simp add: applied_def ValidateUpdate_None)
  with edited show ?thesis by (intro same) (simp add: nodes_of_same)
next
  case (removed k)
  then show ?thesis by (intro gone [of k]) simp
qed (auto simp: applied_def nodes_of_same intro!: same)

lemma step_single:
  assumes step: "system_step Q S stored C e s s'" and change: "store_change Q S stored C e s (stored (sy_sv s'))"
    and seen: "\<not> blind_admission stored n (e, s)"
    and inv: "single (nodes_of (stored (sy_sv s))) (sy_admitted s) n"
  shows "single (nodes_of (stored (sy_sv s'))) (sy_admitted s') n"
proof -
  let ?N = "nodes_of (stored (sy_sv s))"
  have X: "single ?N (sy_admitted s') n"
  proof (cases e)
    case (AdmitBegin V l)
    then show ?thesis
      using step_admitted [OF step] seen by (auto simp: ran_nodes_of intro!: single_begin inv)
  qed (use step_admitted [OF step] inv single_drop in auto)
  from change show ?thesis
  proof (cases rule: change_nodes)
    case (new x)
    with step_admitted [OF step] inv show ?thesis by (simp add: single_store)
  qed (use X single_remove in simp_all)
qed

lemma trace_single:
  assumes S: "update_contract S stored" "cache_contract S stored" "uuid_contract S stored"
    and C: "\<And>n. cf_NodeId (C n) = n" and tr: "system_trace Q S stored C tr s"
    and "\<And>y. y \<in> set tr \<Longrightarrow> \<not> blind_admission stored n y"
  shows "single (nodes_of (stored (sy_sv s))) (sy_admitted s) n"
  using tr assms(6)
proof (induction rule: system_trace.induct)
  case (start s)
  then show ?case by (simp add: single_def nodes_of_def)
next
  case (step tr s e s')
  from step.hyps(2) system_step_change [OF S C step.hyps(2)] show ?case
    by (rule step_single) (use step in auto)
qed

section \<open>Directories\<close>

definition backed_at :: "Config \<Rightarrow> fs \<Rightarrow> (string \<rightharpoonup> 'q LocalStorage) \<Rightarrow> string \<Rightarrow> bool" where
  "backed_at cfg f m n \<longleftrightarrow>
     (\<forall>k l v. m k = Some l \<longrightarrow> ls_Node l = n \<longrightarrow> v \<in> set (ls_Volumes l) \<longrightarrow>
        plain_name (v_VolID v) \<and> has_dir cfg f (v_VolID v))"

lemma backed_at_grows: "backed_at cfg f m n \<Longrightarrow> f \<le> g \<Longrightarrow> backed_at cfg g m n"
  unfolding backed_at_def by (auto intro: has_dir_grows)

text \<open>The volumes after a step are those before, and one a plugin allocated on its own node.\<close>

lemma change_volumes:
  assumes clean: "clean_admissions s" and kept: "status_kept stored (e, s)"
    and change: "store_change Q S stored C e s m" and m: "m k = Some l" "v \<in> set (ls_Volumes l)"
  obtains (old) l0 where "stored (sy_sv s) k = Some l0" "ls_Node l0 = ls_Node l" "v \<in> set (ls_Volumes l0)"
  | (new) req where "e = CreateAt (ls_Node l) req" "v_VolID v = fst (sv_NewUUID S (sy_sv s))"
proof -
  have keep: thesis if "m = (stored (sy_sv s))(j \<mapsto> x)" "stored (sy_sv s) j = Some x0" "ls_Node x = ls_Node x0"
      "set (ls_Volumes x) \<subseteq> set (ls_Volumes x0)" for j x x0
    by (rule old [of "if k = j then x0 else l"]) (use that m in \<open>auto split: if_splits\<close>)
  show thesis
    using change
  proof (cases rule: store_change.cases)
    case unchanged
    with m show ?thesis by (intro old [of l]) simp_all
  next
    case (allocated x n req x')
    show ?thesis
    proof (cases "k = ls_Name x \<and> v \<notin> set (ls_Volumes x)")
      case True
      with allocated m have "v = new_Volume (C n) req (fst (sv_NewUUID S (sy_sv s)))" "ls_Node l = n"
        using AddVolume_subset [of x "new_Volume (C n) req (fst (sv_NewUUID S (sy_sv s)))"]
        by (auto simp: applied_def allocate_def)
      with allocated show ?thesis by (intro new [of req]) simp_all
    next
      case False
      with allocated m show ?thesis
        by (intro old [of "if k = ls_Name x then x else l"]) (auto simp: applied_def split: if_splits)
    qed
  next
    case (released x n i x')
    then have "set (ls_Volumes x') \<subseteq> set (ls_Volumes x)" "ls_Node x' = ls_Node x"
      using RemoveVolume_subset [of x i] by (simp_all add: applied_def release_def)
    with released show ?thesis by (intro keep [of "ls_Name x" x' x])
  next
    case (promoted x x')
    then show ?thesis by (intro keep [of "ls_Name x" x' x]) (auto simp: applied_def)
  next
    case (terminated x x')
    then show ?thesis by (intro keep [of "ls_Name x" x' x]) (auto simp: applied_def)
  next
    case (opened dKey x q x' n)
    then show ?thesis by (intro keep [of "ls_Name x" x' x]) (auto simp: applied_def)
  next
    case (created x x')
    have "ls_Volumes x' = []" using admitted_empty [OF clean created(3,5)] by simp
    with created m show ?thesis by (intro old [of l]) (auto split: if_splits)
  next
    case (edited j x0 x x')
    then have "ls_Status x' = ls_Status x0" using edited_status kept by metis
    with edited show ?thesis by (intro keep [of j x' x0]) (auto simp: applied_def ValidateUpdate_None)
  next
    case (marked j x x')
    then show ?thesis by (intro keep [of j x' x]) (auto simp: applied_def)
  next
    case (removed j)
    with m show ?thesis by (intro old [of l]) (auto split: if_splits)
  qed
qed

lemma backed_at_change:
  assumes "clean_admissions s" and "status_kept stored (e, s)"
    and "store_change Q S stored C e s m" and inv: "backed_at cfg f (stored (sy_sv s)) n"
    and new: "\<And>req. e = CreateAt n req \<Longrightarrow> plain_name (fst (sv_NewUUID S (sy_sv s))) \<and>
      has_dir cfg f (fst (sv_NewUUID S (sy_sv s)))"
  shows "backed_at cfg f m n"
  unfolding backed_at_def
proof (intro allI impI)
  fix k l v assume m: "m k = Some l" "v \<in> set (ls_Volumes l)" and n: "ls_Node l = n"
  from assms(1-3) m show "plain_name (v_VolID v) \<and> has_dir cfg f (v_VolID v)"
  proof (cases rule: change_volumes)
    case (old l0)
    with inv n show ?thesis unfolding backed_at_def by metis
  next
    case (new req)
    with assms(5) n show ?thesis by metis
  qed
qed

lemma CreateVolume_dir:
  assumes S: "uuid_contract S stored" and run: "CreateVolume Q S cfg req w = (r, w')"
  shows "w_fs w \<le> w_fs w'"
    and "stored (w_sv w') = stored (w_sv w) \<or> has_dir cfg (w_fs w') (fst (sv_NewUUID S (w_sv w)))"
proof -
  have uuid: "stored a1 = stored (w_sv w)" if "sv_NewUUID S (w_sv w) = (i, a1)" for i a1
    using S that unfolding uuid_contract_def by (metis snd_conv)
  have "w_fs w \<le> w_fs w' \<and>
      (stored (w_sv w') = stored (w_sv w) \<or> has_dir cfg (w_fs w') (fst (sv_NewUUID S (w_sv w))))"
    using run
  proof (cases rule: CreateVolume_cases)
    case (mkdir l i a1 f1 e)
    then show ?thesis using uuid CreateVolumeDir_grows [OF mkdir(3)] by simp
  next
    case (panic l i a1 f1)
    then show ?thesis using uuid CreateVolumeDir_grows [OF panic(3)] by simp
  next
    case (update l i a1 f1 q u a2)
    have "pos_of f1 p = pos_of (w_fs w) p" for p
      using CreateVolumeDir_env [OF update(3)] by (simp add: same_env_pos)
    then have "has_dir cfg f1 i" using dirs.create_ok [OF update(3)] by (simp add: has_dir_def)
    with update show ?thesis using CreateVolumeDir_grows [OF update(3)] by simp
  qed simp
  then show "w_fs w \<le> w_fs w'"
    and "stored (w_sv w') = stored (w_sv w) \<or> has_dir cfg (w_fs w') (fst (sv_NewUUID S (w_sv w)))"
    by simp_all
qed

text \<open>A deletion removes a directory only after it has removed the volume from a current object.\<close>

lemma DeleteVolume_dir:
  assumes S: "update_contract S stored" "cache_contract S stored"
    and run: "DeleteVolume Q S cfg i w = (r, w')"
  obtains (kept) "w_fs w' = w_fs w"
  | (gone) d l l' where "DeleteVolumeDir (parseVolumePath (cf_VolumeDir cfg) i) (w_fs w) = (d, w_fs w')"
      "stored (w_sv w) (ls_Name l) = Some l" "ls_Node l = cf_NodeId cfg"
      "stored (w_sv w') = (stored (w_sv w))(ls_Name l \<mapsto> l')" "applied (release Q i l) l'"
  using run
proof (cases rule: DeleteVolume_cases)
  case (updated l q o' a1 d f1)
  from S(1) updated(4) show ?thesis
  proof (rule update_current)
    fix cur
    assume "stored (w_sv w) (ls_Name (release Q i l)) = Some cur" and "ls_Version cur = ls_Version (release Q i l)"
    then show "cur = l" using cached_current [OF S(2) updated(1)] by simp
  next
    fix l' assume "stored (w_sv w) (ls_Name (release Q i l)) = Some l"
      "stored a1 = (stored (w_sv w))(ls_Name (release Q i l) \<mapsto> l')" "applied (release Q i l) l'"
    with updated GetLocalStorageByNode_Inr(2) [OF updated(1)] show ?thesis by (intro gone [of d l l']) simp_all
  qed simp
qed (simp_all add: kept)

lemma delete_volume_backed:
  assumes S: "update_contract S stored" "cache_contract S stored"
    and C: "cf_NodeId (C n) = n" and tidy: "all_tidy (stored (sy_sv s))"
    and run: "DeleteVolume Q S (C n) i (at_node n s) = (r, w)"
    and mild: "\<not> wild_delete stored n (DeleteAt n i, s)"
    and inv: "backed_at (C n) (sy_fs s n) (stored (w_sv w)) n"
  shows "backed_at (C n) (w_fs w) (stored (w_sv w)) n"
  using S run
proof (cases rule: DeleteVolume_dir)
  case (gone d l l')
  have plain: "plain_name i" and one: "\<not> shared_node (stored (sy_sv s)) n" using mild by simp_all
  have l: "stored (sy_sv s) (ls_Name l) = Some l" "ls_Node l = n" using gone C by simp_all
  have vols: "ls_Volumes l' = filter (\<lambda>v. v_VolID v \<noteq> i) (ls_Volumes l)"
    using gone(5) tidy_distinct [OF all_tidyD [OF tidy l(1)]]
    by (simp add: applied_def release_def RemoveVolume_distinct)
  show ?thesis
    unfolding backed_at_def
  proof (intro allI impI)
    fix k x v assume x: "stored (w_sv w) k = Some x" "ls_Node x = n" "v \<in> set (ls_Volumes x)"
    with inv have v: "plain_name (v_VolID v)" "has_dir (C n) (sy_fs s n) (v_VolID v)"
      unfolding backed_at_def by blast+
    have "k = ls_Name l"
    proof (rule ccontr)
      assume k: "k \<noteq> ls_Name l"
      with x gone(4) have "stored (sy_sv s) k = Some x" by simp
      with k l x(2) one show False unfolding shared_node_def by blast
    qed
    with x gone(4) vols have "i \<noteq> v_VolID v" by auto
    with gone(1) plain v show "plain_name (v_VolID v) \<and> has_dir (C n) (w_fs w) (v_VolID v)"
      using DeleteVolumeDir_siblings [of "C n" i "sy_fs s n"] by simp
  qed
qed (use inv in simp)

lemma step_backed:
  assumes S: "update_contract S stored" "cache_contract S stored" "uuid_contract S stored"
    and C: "\<And>n. cf_NodeId (C n) = n" and clean: "clean_admissions s"
    and step: "system_step Q S stored C e s s'" and tidy: "all_tidy (stored (sy_sv s))"
    and kept: "status_kept stored (e, s)" and fresh: "id_fresh S stored (e, s)"
    and mild: "\<not> wild_delete stored n (e, s)"
    and inv: "backed_at (C n) (sy_fs s n) (stored (sy_sv s)) n"
  shows "backed_at (C n) (sy_fs s' n) (stored (sy_sv s')) n"
proof -
  note change = system_step_change [OF S C step]
  have same: "backed_at (C n) f (stored (sy_sv s')) n"
    if "backed_at (C n) f (stored (sy_sv s)) n" "\<And>req. e \<noteq> CreateAt n req" for f
    by (rule backed_at_change [OF clean kept change that(1)]) (use that(2) in blast)
  show ?thesis
    using step
  proof (cases rule: system_step.cases)
    case (create_volume k req r w)
    show ?thesis
    proof (cases "k = n")
      case True
      note dir = CreateVolume_dir [OF S(3) create_volume(3)]
      have f: "backed_at (C n) (w_fs w) (stored (sy_sv s)) n"
        using inv dir(1) True by (intro backed_at_grows [OF inv]) simp
      show ?thesis
      proof (cases "stored (w_sv w) = stored (sy_sv s)")
        case False
        then have "backed_at (C n) (w_fs w) (stored (sy_sv s')) n"
          using dir(2) True fresh create_volume by (intro backed_at_change [OF clean kept change f]) simp_all
        with create_volume True show ?thesis by simp
      qed (use f create_volume True in simp)
    qed (use same [OF inv] create_volume in simp)
  next
    case (delete_volume k i r w)
    show ?thesis
    proof (cases "k = n")
      case True
      have "backed_at (C n) (w_fs w) (stored (w_sv w)) n"
        using S(1,2) C tidy by (rule delete_volume_backed) (use delete_volume True mild same [OF inv] in auto)
      with delete_volume True show ?thesis by simp
    qed (use same [OF inv] delete_volume in simp)
  next
    case (plugin_sync dKey k e w)
    with same [OF inv] same [OF backed_at_grows [OF inv]] sync_grows [OF plugin_sync(3)] show ?thesis by auto
  qed (use same [OF inv] in simp_all)
qed

lemma trace_backed:
  assumes S: "update_contract S stored" "cache_contract S stored" "uuid_contract S stored"
    and C: "\<And>n. cf_NodeId (C n) = n" and tr: "system_trace Q S stored C tr s"
    and "\<And>y. y \<in> set tr \<Longrightarrow> status_kept stored y \<and> id_fresh S stored y \<and> \<not> wild_delete stored n y"
  shows "backed_at (C n) (sy_fs s n) (stored (sy_sv s)) n"
  using tr assms(6)
proof (induction rule: system_trace.induct)
  case (start s)
  then show ?case by (simp add: backed_at_def)
next
  case (step tr s e s')
  have "all_tidy (stored (sy_sv s))" using S C step.hyps(1) by (rule trace_tidy) (use step.prems in simp)
  moreover have "clean_admissions s" using step.hyps(1) by (rule trace_clean) (use step.prems in simp)
  ultimately show ?case
    using step.prems step.IH by (intro step_backed [OF S C _ step.hyps(2)]) simp_all
qed

end
