(* ===== verification/Prop_System.thy ===== *)
theory Prop_System
  imports Prop_Admission LS_Typing LS_Safety
begin

text \<open>
  The safety of the whole system: plugins, controller and webhooks around one API server, in any
  interleaving, with caches as stale as they like. The first three properties also name the only
  events of a run that can break what they say. The section before the properties is a run that
  their witnesses use: an object is admitted, initialised in two reconciliations, and gets a volume.
\<close>

section \<open>A run\<close>

definition demo_cfg :: "string \<Rightarrow> Config" where
  "demo_cfg n = sample_cfg\<lparr>cf_NodeId := n\<rparr>"

definition demo0 :: "(int, api) system" where
  "demo0 = \<lparr>sy_fs = (\<lambda>_. sample_fs), sy_sv = \<lparr>api_objs = [], api_cache = [], api_count = 0, api_ids = 1\<rparr>,
     sy_admitted = []\<rparr>"

definition demo_object :: "int LocalStorage" where
  "demo_object = mutate fresh_ls opCreate"

definition demo_allowed :: "(int, api) system" where
  "demo_allowed = demo0\<lparr>sy_admitted := [demo_object]\<rparr>"

definition demo1 :: "(int, api) system" where
  "demo1 = demo0\<lparr>sy_sv := \<lparr>api_objs = [set_Version 1 demo_object], api_cache = [set_Version 1 demo_object],
     api_count = 1, api_ids = 1\<rparr>\<rparr>"

definition demo_sync :: "(int, api) system \<Rightarrow> (int, api) system" where
  "demo_sync s = put_node ''n'' (snd (sync int_quantity api_services ''ls-n'' (at_node ''n'' s))) s"

definition demo_refresh :: "(int, api) system \<Rightarrow> (int, api) system" where
  "demo_refresh s = s\<lparr>sy_sv := api_refresh (sy_sv s)\<rparr>"

definition demo3 :: "(int, api) system" where
  "demo3 = demo_refresh (demo_sync demo1)"

definition demo5 :: "(int, api) system" where
  "demo5 = demo_refresh (demo_sync demo3)"

definition demo6 :: "(int, api) system" where
  "demo6 = put_node ''n'' (snd (CreateVolume int_quantity api_services (demo_cfg ''n'') sample_req (at_node ''n'' demo5))) demo5"

definition demo_sync_trace :: "(int, api) system \<Rightarrow> (int, api) moment list" where
  "demo_sync_trace s = [(Outside, demo_sync s), (SyncAt ''n'' ''ls-n'', s)]"

definition demo_run :: "(int, api) moment list" where
  "demo_run = (CreateAt ''n'' sample_req, demo5) # demo_sync_trace demo3 @ demo_sync_trace demo1 @
     [(AdmitStore demo_object, demo_allowed), (AdmitBegin (sample_client []) fresh_ls, demo0)]"

abbreviation demo_trace :: "(int, api) moment list \<Rightarrow> (int, api) system \<Rightarrow> bool" where
  "demo_trace \<equiv> system_trace int_quantity api_services api_stored demo_cfg"

lemma demo_cfg_node: "cf_NodeId (demo_cfg n) = n"
  by (simp add: demo_cfg_def)

lemma demo0_store: "api_stored (sy_sv demo0) = Map.empty"
  by (simp add: demo0_def api_stored_def fun_eq_iff)

lemma demo_allowed_trace: "demo_trace [(AdmitBegin (sample_client []) fresh_ls, demo0)] demo_allowed"
  unfolding demo_allowed_def demo_object_def
proof (rule system_trace.step)
  show "demo_trace [] demo0" using demo0_store by (rule system_trace.start) (simp add: demo0_def)
  have "system_step int_quantity api_services api_stored demo_cfg (AdmitBegin (sample_client []) fresh_ls) demo0
      (demo0\<lparr>sy_admitted := mutate fresh_ls opCreate # sy_admitted demo0\<rparr>)"
    by (rule system_step.admit_begin) code_simp+
  then show "system_step int_quantity api_services api_stored demo_cfg (AdmitBegin (sample_client []) fresh_ls) demo0
      (demo0\<lparr>sy_admitted := [mutate fresh_ls opCreate]\<rparr>)" by (simp add: demo0_def)
qed

lemma demo1_trace:
  "demo_trace [(AdmitStore demo_object, demo_allowed), (AdmitBegin (sample_client []) fresh_ls, demo0)] demo1"
proof (rule system_trace.step [OF demo_allowed_trace])
  let ?a = "\<lparr>api_objs = [set_Version 1 demo_object], api_cache = [set_Version 1 demo_object],
     api_count = 1, api_ids = 1\<rparr>"
  have "system_step int_quantity api_services api_stored demo_cfg (AdmitStore demo_object) demo_allowed
      (demo_allowed\<lparr>sy_sv := ?a, sy_admitted := remove1 demo_object (sy_admitted demo_allowed)\<rparr>)"
  proof (rule system_step.admit_store)
    show "demo_object \<in> set (sy_admitted demo_allowed)" by (simp add: demo_allowed_def)
    show "api_stored (sy_sv demo_allowed) (ls_Name demo_object) = None" using demo0_store by (simp add: demo_allowed_def)
    show "applied demo_object (set_Version 1 demo_object)" by (simp add: applied_def)
    show "api_stored ?a = (api_stored (sy_sv demo_allowed))(ls_Name demo_object \<mapsto> set_Version 1 demo_object)"
      using demo0_store by (simp add: demo_allowed_def api_stored_def fun_eq_iff)
  qed
  moreover have "demo_allowed\<lparr>sy_sv := ?a, sy_admitted := remove1 demo_object (sy_admitted demo_allowed)\<rparr> = demo1"
    by (simp add: demo_allowed_def demo1_def demo0_def)
  ultimately show "system_step int_quantity api_services api_stored demo_cfg (AdmitStore demo_object) demo_allowed demo1"
    by simp
qed

lemma demo_sync_run: "demo_trace tr s \<Longrightarrow> demo_trace (demo_sync_trace s @ tr) (demo_refresh (demo_sync s))"
  unfolding demo_sync_trace_def append_Cons append_Nil
proof (rule system_trace.step)
  show "demo_trace tr s \<Longrightarrow> demo_trace ((SyncAt ''n'' ''ls-n'', s) # tr) (demo_sync s)"
    unfolding demo_sync_def
    by (erule system_trace.step, rule system_step.plugin_sync [OF prod.collapse [symmetric]])
  show "system_step int_quantity api_services api_stored demo_cfg Outside (demo_sync s) (demo_refresh (demo_sync s))"
    unfolding demo_refresh_def
    by (rule system_step.outside) (simp add: api_refresh_def api_stored_def fun_eq_iff)
qed

lemma demo6_trace: "demo_trace demo_run demo6"
  unfolding demo_run_def demo6_def
proof (rule system_trace.step)
  show "demo_trace (demo_sync_trace demo3 @ demo_sync_trace demo1 @
      [(AdmitStore demo_object, demo_allowed), (AdmitBegin (sample_client []) fresh_ls, demo0)]) demo5"
    unfolding demo5_def demo3_def by (intro demo_sync_run demo1_trace)
qed (rule system_step.create_volume [OF prod.collapse [symmetric]])

text \<open>Nothing in the run could break the properties.\<close>

lemma demo_run_regular:
  assumes "y \<in> set demo_run"
  shows "status_kept api_stored y \<and> id_fresh api_services api_stored y"
proof -
  have "list_all (\<lambda>l. fst (sv_NewUUID api_services (sy_sv demo5)) \<notin> v_VolID ` set (ls_Volumes l))
      (api_objs (sy_sv demo5))" by code_simp
  then have "fresh_uuid api_services api_stored (sy_sv demo5)" by (rule fresh_api)
  moreover have "plain_name (fst (sv_NewUUID api_services (sy_sv demo5)))" by code_simp
  ultimately show ?thesis
    using assms by (auto simp: demo_run_def demo_sync_trace_def fresh_ls_def)
qed

lemma demo_run_kept: "y \<in> set demo_run \<Longrightarrow> status_kept api_stored y"
  by (rule conjunct1 [OF demo_run_regular])

lemma demo_run_resets: "y \<in> set demo_run \<Longrightarrow> \<not> resets api_services api_stored k y"
proof -
  have "case lister_Get api_services ''ls-n'' (sy_sv demo1) of Inl _ \<Rightarrow> True | Inr l \<Rightarrow> ls_Volumes l = []"
    and "case lister_Get api_services ''ls-n'' (sy_sv demo3) of Inl _ \<Rightarrow> True | Inr l \<Rightarrow> ls_Volumes l = []"
    by code_simp+
  then show "y \<in> set demo_run \<Longrightarrow> \<not> resets api_services api_stored k y"
    by (auto simp: demo_run_def demo_sync_trace_def split: sum.splits)
qed

lemma demo_run_deletes: "y \<in> set demo_run \<Longrightarrow> \<not> wild_delete api_stored n y"
  by (auto simp: demo_run_def demo_sync_trace_def)


lemma demo6_volumes:
  "map_option (\<lambda>l. map v_VolID (ls_Volumes l)) (api_stored (sy_sv demo6) ''ls-n'') = Some [''pv'']"
  by code_simp

section \<open>Safety\<close>

text \<open>
  C1. In every run, every stored localstorage has distinct volume IDs, has no volumes before it is
  initialised, and afterwards offers exactly its capacity minus the sum of its volumes' sizes,
  unless at some point of the run a plugin initialised the then current object of that name
  although it had volumes: no other interleaving, and no stale cache, loses or double counts a
  volume. The run may be any in which generated IDs are new plain names and requests from outside leave the
  status alone; that the exception does happen is the property on \<open>sync\<close> and ready objects.
\<close>

theorem system_ledger_balanced:
  assumes "quantity_laws Q val"
    and "update_contract S stored" "cache_contract S stored" "uuid_contract S stored"
    and "\<And>n. cf_NodeId (C n) = n"
    and "system_trace Q S stored C tr s"
    and "\<And>y. y \<in> set tr \<Longrightarrow> status_kept stored y \<and> id_fresh S stored y"
    and "stored (sy_sv s) k = Some l"
  shows "distinct (map v_VolID (ls_Volumes l)) \<and>
    (case st_Allocatable (ls_Status l) of
       None \<Rightarrow> ls_Volumes l = []
     | Some a \<Rightarrow> (\<exists>c. st_Capacity (ls_Status l) = Some c \<and>
         (val a = val c - of_int (sum_list (map (\<lambda>v. sint (v_VolSize v)) (ls_Volumes l))) \<or>
          (\<exists>y \<in> set tr. resets S stored k y))))"
proof -
  have tidy: "tidy l" using trace_tidy [OF assms(2-6)] assms(7,8) all_tidyD by blast
  moreover have "balanced val l" if "\<not> (\<exists>y \<in> set tr. resets S stored k y)"
    using trace_balanced [OF assms(1-6)] assms(7) that balanced_keyD [where m = "stored (sy_sv s)" and k = k and l = l and val = val] assms(8) by blast
  ultimately show ?thesis
    by (auto simp: tidy_def balanced_def volume_total_def algebra_simps split: option.splits)
qed

lemma system_ledger_balanced_witness:
  "\<exists>l. api_stored (sy_sv demo6) ''ls-n'' = Some l \<and> map v_VolID (ls_Volumes l) = [''pv''] \<and>
     distinct (map v_VolID (ls_Volumes l)) \<and>
     (\<exists>a c. st_Allocatable (ls_Status l) = Some a \<and> st_Capacity (ls_Status l) = Some c \<and> a < c)"
proof -
  obtain l where l: "api_stored (sy_sv demo6) ''ls-n'' = Some l" "map v_VolID (ls_Volumes l) = [''pv'']"
    using demo6_volumes by auto
  have "map_option (\<lambda>l. (st_Allocatable (ls_Status l), map (\<lambda>v. sint (v_VolSize v)) (ls_Volumes l)))
      (api_stored (sy_sv demo6) ''ls-n'') = Some (Some (500 * 2 ^ 30 - 10), [10])" by code_simp
  with l(1) have s: "st_Allocatable (ls_Status l) = Some (500 * 2 ^ 30 - 10)"
    "map (\<lambda>v. sint (v_VolSize v)) (ls_Volumes l) = [10]" by auto
  from system_ledger_balanced [where val = of_int, OF int_quantity_laws api_update_contract api_cache_contract
      api_uuid_contract demo_cfg_node demo6_trace demo_run_regular l(1)] s demo_run_resets
  obtain c where "st_Capacity (ls_Status l) = Some c" "of_int (500 * 2 ^ 30 - 10) = (of_int (c - 10) :: rat)"
    "distinct (map v_VolID (ls_Volumes l))" by auto
  with l s show ?thesis unfolding of_int_eq_iff by auto
qed

text \<open>
  C2. In every run, every volume recorded in the API server has its directory on its node, one
  element below that plugin's volume directory, unless a \<open>DeleteVolume\<close> reached that node's plugin
  with an ID that is a path (\<open>..\<close>, or with a slash), or while the node had two stored objects: a
  volume is recorded after its directory is made, removed from the record before its directory is
  deleted, and no other deletion takes the directory of a recorded volume. The run may be any in
  which generated IDs are new plain names and requests from outside leave the status alone.
\<close>

theorem system_volumes_have_directories:
  assumes "update_contract S stored" "cache_contract S stored" "uuid_contract S stored"
    and "\<And>n. cf_NodeId (C n) = n"
    and "system_trace Q S stored C tr s"
    and "\<And>y. y \<in> set tr \<Longrightarrow> status_kept stored y \<and> id_fresh S stored y"
    and "stored (sy_sv s) k = Some l" and "v \<in> set (ls_Volumes l)"
  shows "(let f = sy_fs s (ls_Node l) in exists_at f (pos_of f (cf_VolumeDir (C (ls_Node l))) @ [v_VolID v])) \<or>
    (\<exists>y \<in> set tr. wild_delete stored (ls_Node l) y)"
proof (rule disjCI)
  assume "\<not> (\<exists>y \<in> set tr. wild_delete stored (ls_Node l) y)"
  then have "backed_at (C (ls_Node l)) (sy_fs s (ls_Node l)) (stored (sy_sv s)) (ls_Node l)"
    using trace_backed [OF assms(1-5)] assms(6) by blast
  then have "plain_name (v_VolID v)" "has_dir (C (ls_Node l)) (sy_fs s (ls_Node l)) (v_VolID v)"
    using assms(7,8) unfolding backed_at_def by blast+
  then show "let f = sy_fs s (ls_Node l) in exists_at f (pos_of f (cf_VolumeDir (C (ls_Node l))) @ [v_VolID v])"
    by (simp add: Let_def has_dir_def parseVolumePath_def pos_of_def resolve_below)
qed

lemma system_volumes_have_directories_witness:
  "exists_at (sy_fs demo6 ''n'') [''d'', ''pv'']"
proof -
  obtain l where l: "api_stored (sy_sv demo6) ''ls-n'' = Some l" "map v_VolID (ls_Volumes l) = [''pv'']"
    using demo6_volumes by auto
  then obtain v where v: "v \<in> set (ls_Volumes l)" "v_VolID v = ''pv''" by auto
  have "map_option ls_Node (api_stored (sy_sv demo6) ''ls-n'') = Some ''n''" by code_simp
  with l have n: "ls_Node l = ''n''" by simp
  have p: "pos_of (sy_fs demo6 ''n'') (cf_VolumeDir (demo_cfg ''n'')) = [''d'']" by code_simp
  have "\<not> (\<exists>y \<in> set demo_run. wild_delete api_stored ''n'' y)" using demo_run_deletes by blast
  with system_volumes_have_directories [OF api_update_contract api_cache_contract
      api_uuid_contract demo_cfg_node demo6_trace demo_run_regular l(1) v(1)]
  show ?thesis by (simp add: n p v(2))
qed



text \<open>
  C4. In every run whose requests from outside leave the status alone, every stored object is well
  formed: it is stored under its own name of 1 to 52 characters, is bound to a node, has at most
  one backend and a complete one, has a phase, and records each of its volumes with the path its
  node's plugin computes from the ID.
\<close>

theorem system_objects_well_typed:
  assumes "update_contract S stored" "cache_contract S stored" "uuid_contract S stored"
    and "\<And>n. cf_NodeId (C n) = n"
    and "system_trace Q S stored C tr s" and "\<And>y. y \<in> set tr \<Longrightarrow> status_kept stored y"
    and "stored (sy_sv s) k = Some l"
  shows "ls_Name l = k \<and> 0 < length k \<and> length k \<le> 52 \<and> ls_Node l \<noteq> [] \<and> ls_Phase l \<noteq> [] \<and>
    (sp_Path (ls_Spec l) = None \<or> sp_Lvm (ls_Spec l) = None) \<and>
    path_ok (sp_Path (ls_Spec l)) \<and> lvm_ok (sp_Lvm (ls_Spec l)) \<and>
    map v_VolPath (ls_Volumes l) =
      map (\<lambda>v. parseVolumePath (cf_VolumeDir (C (ls_Node l))) (v_VolID v)) (ls_Volumes l)"
proof -
  have "well_typed C k l"
    using trace_typed [OF assms(1-5)] assms(6,7) all_typedD by blast
  then show ?thesis by (simp add: well_typed_def backend_ok_def list_all_iff volume_typed_def)
qed

lemma system_objects_well_typed_witness:
  "\<exists>l. api_stored (sy_sv demo6) ''ls-n'' = Some l \<and> ls_Name l = ''ls-n'' \<and> map v_VolPath (ls_Volumes l) = [''/d/pv'']"
proof -
  obtain l where l: "api_stored (sy_sv demo6) ''ls-n'' = Some l" "map v_VolID (ls_Volumes l) = [''pv'']"
    using demo6_volumes by auto
  have "map_option ls_Node (api_stored (sy_sv demo6) ''ls-n'') = Some ''n''" by code_simp
  with l have n: "ls_Node l = ''n''" by simp
  have p: "parseVolumePath (cf_VolumeDir (demo_cfg ''n'')) ''pv'' = ''/d/pv''" by code_simp
  from system_objects_well_typed [OF api_update_contract api_cache_contract api_uuid_contract demo_cfg_node
      demo6_trace demo_run_kept l(1)]
  have "ls_Name l = ''ls-n''"
    and "map v_VolPath (ls_Volumes l) = map (parseVolumePath (cf_VolumeDir (demo_cfg ''n''))) (map v_VolID (ls_Volumes l))"
    using n by (simp_all add: o_def)
  with l p show ?thesis by simp
qed

end
