(* ===== verification/Go_File.thy ===== *)
theory Go_File
  imports Go_Os
begin

text \<open>
  \<open>os.ReadFile\<close> and \<open>os.WriteFile\<close> on the file tree of \<open>Go_Os\<close>. Writing opens the file, which
  creates or empties it, and then writes; when the write is refused, the first \<open>short\<close> bytes are
  in the file. The permission bits of files are not modelled.
\<close>

definition os_ReadFile :: "string \<Rightarrow> fs \<Rightarrow> gerror + string" where
  "os_ReadFile p f =
     (if p = [] then Inl (OsError ENOENT)
      else case fs_deny f OpRead (pos_of f p) of
        Some e \<Rightarrow> Inl e
      | None \<Rightarrow> (case fs_find f (pos_of f p) of
                  None \<Rightarrow> Inl (missing f (pos_of f p))
                | Some (Dir _) \<Rightarrow> Inl (OsError EISDIR)
                | Some (File data) \<Rightarrow> Inr data))"

definition is_dir :: "fnode option \<Rightarrow> bool" where
  "is_dir n = (case n of Some (Dir _) \<Rightarrow> True | _ \<Rightarrow> False)"

definition os_WriteFile :: "nat \<Rightarrow> string \<Rightarrow> string \<Rightarrow> fs \<Rightarrow> gerror option \<times> fs" where
  "os_WriteFile short p data f =
     (let q = pos_of f p in
      if p = [] then (Some (OsError ENOENT), f)
      else case fs_deny f OpOpen q of
        Some e \<Rightarrow> (Some e, f)
      | None \<Rightarrow>
          if is_dir (fs_find f q) then (Some (OsError EISDIR), f)
          else if fs_find f q = None \<and> \<not> is_dir (fs_find f (butlast q)) then (Some (missing f q), f)
          else (case fs_deny f OpWrite q of
                  Some e \<Rightarrow> (Some e, fs_put q (File (take short data)) f)
                | None \<Rightarrow> (None, fs_put q (File data) f)))"

section \<open>Reading what was written\<close>

lemma fs_put_deny [simp]: "fs_deny (fs_put q n f) = fs_deny f"
  by (simp add: fs_put_def)

lemma pos_of_put [simp]: "pos_of (fs_put q n f) p = pos_of f p"
  by (simp add: fs_put_def pos_of_def)

lemma is_dir_root [simp]: "is_dir (fs_find f [])"
  by (simp add: fs_find_def is_dir_def)

lemma fs_find_put_file: "\<not> is_dir (fs_find f q) \<Longrightarrow> fs_find (fs_put q n f) q = Some n"
  by (cases "q = []") (simp_all, simp add: fs_find_def fs_put_def)

lemma read_put:
  "p \<noteq> [] \<Longrightarrow> fs_deny f OpRead (pos_of f p) = None \<Longrightarrow> \<not> is_dir (fs_find f (pos_of f p)) \<Longrightarrow>
   os_ReadFile p (fs_put (pos_of f p) (File data) f) = Inr data"
  by (simp add: os_ReadFile_def fs_find_put_file)

lemma os_WriteFile_ok:
  assumes "os_WriteFile short p data f = (None, f')" and "fs_deny f OpRead (pos_of f p) = None"
  shows "os_ReadFile p f' = Inr data \<and> fs_deny f' = fs_deny f \<and> pos_of f' p = pos_of f p"
  using assms read_put [of p f data]
  by (auto simp: os_WriteFile_def Let_def split: if_splits option.splits)

lemma os_WriteFile_short:
  assumes "fs_deny f OpOpen (pos_of f p) = None" and "fs_deny f OpWrite (pos_of f p) = Some e"
    and "os_ReadFile p f = Inr old" and "os_WriteFile short p data f = (r, f')"
  shows "r = Some e \<and> os_ReadFile p f' = Inr (take short data)"
proof -
  have *: "p \<noteq> []" "fs_deny f OpRead (pos_of f p) = None" "fs_find f (pos_of f p) = Some (File old)"
    using assms(3) by (auto simp: os_ReadFile_def split: if_splits option.splits fnode.splits)
  then have "\<not> is_dir (fs_find f (pos_of f p))" by (simp add: is_dir_def)
  with * assms read_put [of p f "take short data"] show ?thesis
    by (auto simp: os_WriteFile_def Let_def)
qed

end
