(* ===== verification/Go_Utf8.thy ===== *)
theory Go_Utf8
  imports LS_Prelude
begin

text \<open>
  UTF-8 as Go's \<open>unicode/utf8\<close> reads and writes it. A Go string is a sequence of bytes, which
  need not be valid UTF-8; here it is a list of \<open>char\<close>, a character standing for its byte. A
  byte that starts no valid sequence is read as \<open>RuneError\<close> of width 1.
\<close>

section \<open>Bytes and runes\<close>

abbreviation byte :: "char \<Rightarrow> nat" where
  "byte c \<equiv> of_char c"

definition RuneError :: nat where
  "RuneError = 0xFFFD"

definition in_range :: "nat \<Rightarrow> nat \<Rightarrow> char \<Rightarrow> bool" where
  "in_range lo hi c \<longleftrightarrow> lo \<le> byte c \<and> byte c \<le> hi"

text \<open>The rune at the head of a string, and how many bytes it takes.\<close>

fun DecodeRune :: "string \<Rightarrow> nat \<times> nat" where
  "DecodeRune [] = (RuneError, 0)"
| "DecodeRune (c # cs) =
     (let n = byte c in
      if n < 0x80 then (n, 1)
      else if 0xC2 \<le> n \<and> n \<le> 0xDF then
        (case cs of
           c1 # _ \<Rightarrow>
             if in_range 0x80 0xBF c1 then ((n - 0xC0) * 64 + (byte c1 - 0x80), 2) else (RuneError, 1)
         | [] \<Rightarrow> (RuneError, 1))
      else if 0xE0 \<le> n \<and> n \<le> 0xEF then
        (case cs of
           c1 # c2 # _ \<Rightarrow>
             if in_range (if n = 0xE0 then 0xA0 else 0x80) (if n = 0xED then 0x9F else 0xBF) c1 \<and>
                in_range 0x80 0xBF c2
             then ((n - 0xE0) * 4096 + (byte c1 - 0x80) * 64 + (byte c2 - 0x80), 3)
             else (RuneError, 1)
         | _ \<Rightarrow> (RuneError, 1))
      else if 0xF0 \<le> n \<and> n \<le> 0xF4 then
        (case cs of
           c1 # c2 # c3 # _ \<Rightarrow>
             if in_range (if n = 0xF0 then 0x90 else 0x80) (if n = 0xF4 then 0x8F else 0xBF) c1 \<and>
                in_range 0x80 0xBF c2 \<and> in_range 0x80 0xBF c3
             then ((n - 0xF0) * 262144 + (byte c1 - 0x80) * 4096 + (byte c2 - 0x80) * 64
                   + (byte c3 - 0x80), 4)
             else (RuneError, 1)
         | _ \<Rightarrow> (RuneError, 1))
      else (RuneError, 1))"

text \<open>Surrogates and numbers beyond the last rune are written as \<open>RuneError\<close>.\<close>

definition is_surrogate :: "nat \<Rightarrow> bool" where
  "is_surrogate r \<longleftrightarrow> 0xD800 \<le> r \<and> r < 0xE000"

definition EncodeRune :: "nat \<Rightarrow> string" where
  "EncodeRune r =
     (if r < 0x80 then [char_of r]
      else if r < 0x800 then [char_of (0xC0 + r div 64), char_of (0x80 + r mod 64)]
      else if is_surrogate r \<or> 0x10FFFF < r then [char_of (0xEF :: nat), char_of (0xBF :: nat), char_of (0xBD :: nat)]
      else if r < 0x10000 then
        [char_of (0xE0 + r div 4096), char_of (0x80 + r div 64 mod 64), char_of (0x80 + r mod 64)]
      else
        [char_of (0xF0 + r div 262144), char_of (0x80 + r div 4096 mod 64),
         char_of (0x80 + r div 64 mod 64), char_of (0x80 + r mod 64)])"

text \<open>\<open>utf8.ValidString\<close>.\<close>

function utf8_valid :: "string \<Rightarrow> bool" where
  "utf8_valid [] = True"
| "utf8_valid (c # cs) =
     (DecodeRune (c # cs) \<noteq> (RuneError, 1) \<and> utf8_valid (drop (snd (DecodeRune (c # cs)) - 1) cs))"
  by pat_completeness auto
termination by (relation "measure length") auto

section \<open>Decoding\<close>

lemma char_of_byte: "n = byte c \<Longrightarrow> char_of n = c"
  by simp

lemma DecodeRune_ascii: "byte c < 0x80 \<Longrightarrow> DecodeRune (c # cs) = (byte c, 1)"
  by simp

lemma utf8_valid_ascii: "byte c < 0x80 \<Longrightarrow> utf8_valid (c # cs) \<longleftrightarrow> utf8_valid cs"
  by (simp add: RuneError_def)

text \<open>
  A byte that is not ASCII is either an error or starts a sequence of two to four bytes, which
  are the encoding of the rune, and which are decoded in the same way whatever follows.
\<close>

inductive sequence :: "string \<Rightarrow> nat \<Rightarrow> bool" where
  two: "\<lbrakk>0xC2 \<le> byte c; byte c \<le> 0xDF; in_range 0x80 0xBF c1\<rbrakk> \<Longrightarrow>
     sequence [c, c1] ((byte c - 0xC0) * 64 + (byte c1 - 0x80))"
| three: "\<lbrakk>0xE0 \<le> byte c; byte c \<le> 0xEF;
     in_range (if byte c = 0xE0 then 0xA0 else 0x80) (if byte c = 0xED then 0x9F else 0xBF) c1;
     in_range 0x80 0xBF c2\<rbrakk> \<Longrightarrow>
     sequence [c, c1, c2] ((byte c - 0xE0) * 4096 + (byte c1 - 0x80) * 64 + (byte c2 - 0x80))"
| four: "\<lbrakk>0xF0 \<le> byte c; byte c \<le> 0xF4;
     in_range (if byte c = 0xF0 then 0x90 else 0x80) (if byte c = 0xF4 then 0x8F else 0xBF) c1;
     in_range 0x80 0xBF c2; in_range 0x80 0xBF c3\<rbrakk> \<Longrightarrow>
     sequence [c, c1, c2, c3]
       ((byte c - 0xF0) * 262144 + (byte c1 - 0x80) * 4096 + (byte c2 - 0x80) * 64 + (byte c3 - 0x80))"

lemma DecodeRune_sequence: "sequence b r \<Longrightarrow> DecodeRune (b @ t) = (r, length b)"
  by (erule sequence.cases) (auto simp: Let_def)

lemma DecodeRune_cases:
  assumes "0x80 \<le> byte c"
  shows "DecodeRune (c # cs) = (RuneError, 1) \<or>
    (\<exists>b t r. c # cs = b @ t \<and> sequence b r)"
proof -
  have "DecodeRune (c # cs) = (RuneError, 1) \<or> (\<exists>n. sequence (take n (c # cs)) (fst (DecodeRune (c # cs))))"
  proof -
    consider "0xC2 \<le> byte c \<and> byte c \<le> 0xDF" | "0xE0 \<le> byte c \<and> byte c \<le> 0xEF"
      | "0xF0 \<le> byte c \<and> byte c \<le> 0xF4" | "byte c < 0xC2 \<or> 0xF4 < byte c"
      by linarith
    then show ?thesis
    proof cases
      case 1
      then show ?thesis
        using sequence.two [of c "hd cs"]
        by (auto simp: Let_def split: list.splits intro!: exI [of _ 2])
    next
      case 2
      then show ?thesis
        using sequence.three [of c "hd cs" "cs ! 1"]
        by (auto simp: Let_def split: list.splits intro!: exI [of _ 3] simp del: if_split)
    next
      case 3
      then show ?thesis
        using sequence.four [of c "hd cs" "cs ! 1" "cs ! 2"]
        by (auto simp: Let_def split: list.splits intro!: exI [of _ 4] simp del: if_split)
    next
      case 4
      with assms show ?thesis by (auto simp: Let_def)
    qed
  qed
  then show ?thesis by (metis append_take_drop_id)
qed

declare DecodeRune.simps(2) [simp del] utf8_valid.simps(2) [simp del]

lemma sequence_bytes: "sequence b r \<Longrightarrow> \<forall>c \<in> set b. 0x80 \<le> byte c"
  by (erule sequence.cases) (auto simp: in_range_def split: if_splits)

lemma sequence_rune: "sequence b r \<Longrightarrow> 0x80 \<le> r \<and> 2 \<le> length b"
  by (erule sequence.cases) (auto simp: in_range_def split: if_splits)

lemma base64_digits:
  fixes a b c :: nat
  assumes "b < 64"
  shows "(a * 64 + b) div 64 = a" "(a * 64 + b) mod 64 = b"
  using assms by auto

lemma EncodeRune_sequence: "sequence b r \<Longrightarrow> EncodeRune r = b"
proof (erule sequence.cases)
  fix c c1
  assume a: "0xC2 \<le> byte c" "byte c \<le> 0xDF" "in_range 0x80 0xBF c1"
    and b: "b = [c, c1]" and r: "r = (byte c - 0xC0) * 64 + (byte c1 - 0x80)"
  have l: "byte c1 - 0x80 < 64" using a unfolding in_range_def by arith
  have "EncodeRune r = [char_of (0xC0 + r div 64), char_of (0x80 + r mod 64)]"
  proof -
    have "0x80 \<le> r" "r < 0x800" using a unfolding r in_range_def by arith+
    then show ?thesis by (simp add: EncodeRune_def)
  qed
  with a b l show ?thesis
    by (simp only: r base64_digits [OF l]) (simp add: in_range_def char_of_byte)
next
  fix c c1 c2
  assume a: "0xE0 \<le> byte c" "byte c \<le> 0xEF" "in_range 0x80 0xBF c2"
    and c1: "in_range (if byte c = 0xE0 then 0xA0 else 0x80) (if byte c = 0xED then 0x9F else 0xBF) c1"
    and b: "b = [c, c1, c2]"
    and r: "r = (byte c - 0xE0) * 4096 + (byte c1 - 0x80) * 64 + (byte c2 - 0x80)"
  have r': "r = ((byte c - 0xE0) * 64 + (byte c1 - 0x80)) * 64 + (byte c2 - 0x80)" by (simp add: r)
  have l: "byte c2 - 0x80 < 64" "byte c1 - 0x80 < 64"
    using a c1 by (auto simp: in_range_def split: if_splits)
  have "0x800 \<le> r" "r < 0x10000" "\<not> is_surrogate r"
    using a c1 l by (auto simp: r in_range_def is_surrogate_def split: if_splits)
  then have "EncodeRune r = [char_of (0xE0 + r div 64 div 64), char_of (0x80 + r div 64 mod 64), char_of (0x80 + r mod 64)]"
    by (simp add: EncodeRune_def div_mult2_eq [symmetric])
  moreover have "0x80 \<le> byte c1" using c1 by (simp add: in_range_def split: if_splits)
  ultimately show ?thesis
    using a b l by (simp only: r' base64_digits [OF l(1)] base64_digits [OF l(2)])
      (simp add: in_range_def char_of_byte)
next
  fix c c1 c2 c3
  assume a: "0xF0 \<le> byte c" "byte c \<le> 0xF4" "in_range 0x80 0xBF c2" "in_range 0x80 0xBF c3"
    and c1: "in_range (if byte c = 0xF0 then 0x90 else 0x80) (if byte c = 0xF4 then 0x8F else 0xBF) c1"
    and b: "b = [c, c1, c2, c3]"
    and r: "r = (byte c - 0xF0) * 262144 + (byte c1 - 0x80) * 4096 + (byte c2 - 0x80) * 64
        + (byte c3 - 0x80)"
  have r': "r = (((byte c - 0xF0) * 64 + (byte c1 - 0x80)) * 64 + (byte c2 - 0x80)) * 64 + (byte c3 - 0x80)"
    by (simp add: r)
  have l: "byte c3 - 0x80 < 64" "byte c2 - 0x80 < 64" "byte c1 - 0x80 < 64"
    using a c1 by (auto simp: in_range_def split: if_splits)
  have "0x10000 \<le> r" "r \<le> 0x10FFFF"
    using a c1 l by (auto simp: r in_range_def split: if_splits)
  then have "EncodeRune r = [char_of (0xF0 + r div 64 div 64 div 64), char_of (0x80 + r div 64 div 64 mod 64),
      char_of (0x80 + r div 64 mod 64), char_of (0x80 + r mod 64)]"
    by (simp add: EncodeRune_def is_surrogate_def div_mult2_eq [symmetric])
  moreover have "0x80 \<le> byte c1" using c1 by (simp add: in_range_def split: if_splits)
  ultimately show ?thesis
    using a b l by (simp only: r' base64_digits [OF l(1)] base64_digits [OF l(2)] base64_digits [OF l(3)])
      (simp add: in_range_def char_of_byte)
qed

lemma utf8_valid_sequence: "sequence b r \<Longrightarrow> utf8_valid (b @ t) \<longleftrightarrow> utf8_valid t"
proof -
  assume s: "sequence b r"
  then have d: "DecodeRune (b @ t) = (r, length b)" and "2 \<le> length b"
    by (rule DecodeRune_sequence, rule sequence_rune [THEN conjunct2])
  then obtain c b' where b: "b = c # b'" by (cases b) auto
  with d \<open>2 \<le> length b\<close> show ?thesis by (auto simp: utf8_valid.simps(2))
qed

text \<open>Induction over the runes of a valid string.\<close>

lemma utf8_valid_induct [consumes 1, case_names Nil ascii seq]:
  assumes "utf8_valid s" and "P []"
    and "\<And>c cs. byte c < 0x80 \<Longrightarrow> utf8_valid cs \<Longrightarrow> P cs \<Longrightarrow> P (c # cs)"
    and "\<And>b r cs. sequence b r \<Longrightarrow> utf8_valid cs \<Longrightarrow> P cs \<Longrightarrow> P (b @ cs)"
  shows "P s"
  using assms(1)
proof (induction "length s" arbitrary: s rule: less_induct)
  case less
  show ?case
  proof (cases s)
    case Nil
    with assms(2) show ?thesis by simp
  next
    case (Cons c cs)
    show ?thesis
    proof (cases "byte c < 0x80")
      case True
      with less Cons assms(3) [of c cs] show ?thesis by (simp add: utf8_valid_ascii)
    next
      case False
      with less.prems Cons DecodeRune_cases [of c cs] utf8_valid.simps(2) [of c cs] obtain b t r where "s = b @ t" "sequence b r"
        by auto
      moreover from this have "length t < length s" using sequence_rune [of b r] by auto
      ultimately show ?thesis
        using less assms(4) [of b r t] by (simp add: utf8_valid_sequence)
    qed
  qed
qed


section \<open>What encoding produces\<close>

lemma base64_split:
  fixes r :: nat
  obtains a b where "r = a * 64 + b" "b < 64" "r div 64 = a" "r mod 64 = b"
  by (rule that [of "r div 64" "r mod 64"]) auto

lemma EncodeRune_sequence_two:
  assumes "0x80 \<le> r" "r < 0x800"
  shows "\<exists>r'. sequence (EncodeRune r) r'"
proof -
  obtain a b where r: "r = a * 64 + b" "b < 64" "r div 64 = a" "r mod 64 = b" by (rule base64_split)
  with assms have a: "2 \<le> a" "a < 32" by auto
  have "sequence [char_of (0xC0 + a), char_of (0x80 + b)]
      ((byte (char_of (0xC0 + a)) - 0xC0) * 64 + (byte (char_of (0x80 + b)) - 0x80))"
    using a r(2) by (intro sequence.two) (simp_all add: in_range_def)
  with r assms show ?thesis by (auto simp: EncodeRune_def)
qed

lemma EncodeRune_sequence_three:
  assumes "0x800 \<le> r" "r < 0x10000" "\<not> is_surrogate r"
  shows "\<exists>r'. sequence (EncodeRune r) r'"
proof -
  obtain d c where r: "r = d * 64 + c" "c < 64" "r div 64 = d" "r mod 64 = c" by (rule base64_split)
  obtain a b where d: "d = a * 64 + b" "b < 64" "d div 64 = a" "d mod 64 = b" by (rule base64_split)
  have a: "a < 16" "a = 0 \<Longrightarrow> 0x20 \<le> b" "a = 13 \<Longrightarrow> b \<le> 0x1F"
    using assms r d by (auto simp: is_surrogate_def)
  have "sequence [char_of (0xE0 + a), char_of (0x80 + b), char_of (0x80 + c)]
      ((byte (char_of (0xE0 + a)) - 0xE0) * 4096 + (byte (char_of (0x80 + b)) - 0x80) * 64
       + (byte (char_of (0x80 + c)) - 0x80))"
    using a d(2) r(2) by (intro sequence.three) (auto simp: in_range_def)
  moreover have "r div 4096 = a" using r d by (simp add: div_mult2_eq [of r 64 64, simplified])
  ultimately show ?thesis using assms r d by (auto simp: EncodeRune_def)
qed

lemma EncodeRune_sequence_four:
  assumes "0x10000 \<le> r" "r \<le> 0x10FFFF"
  shows "\<exists>r'. sequence (EncodeRune r) r'"
proof -
  obtain e d where r: "r = e * 64 + d" "d < 64" "r div 64 = e" "r mod 64 = d" by (rule base64_split)
  obtain f c where e: "e = f * 64 + c" "c < 64" "e div 64 = f" "e mod 64 = c" by (rule base64_split)
  obtain a b where f: "f = a * 64 + b" "b < 64" "f div 64 = a" "f mod 64 = b" by (rule base64_split)
  have a: "a < 5" "a = 0 \<Longrightarrow> 0x10 \<le> b" "a = 4 \<Longrightarrow> b \<le> 0xF"
    using assms r e f by auto
  have "sequence [char_of (0xF0 + a), char_of (0x80 + b), char_of (0x80 + c), char_of (0x80 + d)]
      ((byte (char_of (0xF0 + a)) - 0xF0) * 262144 + (byte (char_of (0x80 + b)) - 0x80) * 4096
       + (byte (char_of (0x80 + c)) - 0x80) * 64 + (byte (char_of (0x80 + d)) - 0x80))"
    using a f(2) e(2) r(2) by (intro sequence.four) (auto simp: in_range_def)
  moreover have q: "r div 4096 = f" using r e by (simp add: div_mult2_eq [of r 64 64, simplified])
  moreover have "r div 262144 = a" using q f by (simp add: div_mult2_eq [of r 4096 64, simplified])
  ultimately show ?thesis using assms r e f by (auto simp: EncodeRune_def is_surrogate_def)
qed

lemma EncodeRune_cases:
  "(\<exists>c. EncodeRune r = [c] \<and> byte c < 0x80) \<or> (\<exists>r'. sequence (EncodeRune r) r')"
proof -
  have e: "\<exists>r'. sequence (EncodeRune RuneError) r'"
    by (rule EncodeRune_sequence_three) (simp_all add: RuneError_def is_surrogate_def)
  have err: "EncodeRune r = EncodeRune RuneError" if "is_surrogate r \<or> 0x10FFFF < r"
  proof -
    have "EncodeRune r = [char_of (0xEF :: nat), char_of (0xBF :: nat), char_of (0xBD :: nat)]"
      using that by (auto simp: EncodeRune_def is_surrogate_def)
    then show ?thesis by (simp add: EncodeRune_def RuneError_def is_surrogate_def)
  qed
  consider "r < 0x80" | "is_surrogate r \<or> 0x10FFFF < r" | "0x80 \<le> r" "r < 0x800"
    | "0x800 \<le> r" "r < 0x10000" "\<not> is_surrogate r" | "0x10000 \<le> r" "r \<le> 0x10FFFF"
    by linarith
  then show ?thesis
  proof cases
    case 1
    then show ?thesis by (simp add: EncodeRune_def)
  next
    case 2
    with e err show ?thesis by simp
  qed (use EncodeRune_sequence_two EncodeRune_sequence_three EncodeRune_sequence_four in blast)+
qed

lemma utf8_valid_EncodeRune: "utf8_valid (EncodeRune r @ s) \<longleftrightarrow> utf8_valid s"
  using EncodeRune_cases [of r] by (auto simp: utf8_valid_ascii utf8_valid_sequence)

end
