(* ===== verification/Go_Json.thy ===== *)
theory Go_Json
  imports Go_Utf8
begin

text \<open>
  The part of Go's \<open>encoding/json\<close> that reads and writes texts: the scanner and the unquoting of
  strings as a parser into JSON values, and the encoder with its escaping of HTML characters.
  What a value means for a Go type is in the theory of the component that has the type.
\<close>

section \<open>Values\<close>

text \<open>A number is kept as it is written; the strings are the unquoted ones; an object keeps the
  order and the duplicates of its members.\<close>

datatype json =
    JNull
  | JBool bool
  | JNum string
  | JStr string
  | JArr "json list"
  | JObj "(string \<times> json) list"

section \<open>Writing\<close>

abbreviation quote_mark :: char where "quote_mark \<equiv> CHR 0x22"
abbreviation backslash :: char where "backslash \<equiv> CHR 0x5C"

definition hex_digit :: "nat \<Rightarrow> char" where
  "hex_digit n = char_of (if n < 10 then 48 + n else 87 + n)"

text \<open>The escape letters of control characters, and the characters that HTML treats specially.\<close>

definition short_escapes :: "(char \<times> char) list" where
  "short_escapes = [(quote_mark, quote_mark), (backslash, backslash), (CHR 0x08, CHR ''b''),
     (CHR 0x0C, CHR ''f''), (CHR 0x0A, CHR ''n''), (CHR 0x0D, CHR ''r''), (CHR 0x09, CHR ''t'')]"

definition html_special :: "char \<Rightarrow> bool" where
  "html_special c \<longleftrightarrow> c \<in> {CHR ''<'', CHR ''>'', CHR ''&''}"

definition escape_ascii :: "char \<Rightarrow> string" where
  "escape_ascii c =
     (case map_of short_escapes c of
        Some e \<Rightarrow> [backslash, e]
      | None \<Rightarrow>
          if byte c < 0x20 \<or> html_special c
          then [backslash, CHR ''u'', CHR ''0'', CHR ''0'', hex_digit (byte c div 16), hex_digit (byte c mod 16)]
          else [c])"

text \<open>Bytes that are not UTF-8 become the escape of \<open>RuneError\<close>; the two Unicode line separators
  are escaped too.\<close>

function escape_string :: "string \<Rightarrow> string" where
  "escape_string [] = []"
| "escape_string (c # cs) =
     (if byte c < 0x80 then escape_ascii c @ escape_string cs
      else let (r, n) = DecodeRune (c # cs) in
        if (r, n) = (RuneError, 1) then [backslash] @ ''ufffd'' @ escape_string cs
        else (if r = 0x2028 \<or> r = 0x2029 then [backslash] @ ''u202'' @ [hex_digit (r mod 16)]
              else take n (c # cs)) @ escape_string (drop (n - 1) cs))"
  by pat_completeness auto
termination by (relation "measure length") auto

definition quote_string :: "string \<Rightarrow> string" where
  "quote_string s = quote_mark # escape_string s @ [quote_mark]"

fun sep_by :: "string \<Rightarrow> string list \<Rightarrow> string" where
  "sep_by sep [] = []"
| "sep_by sep [x] = x"
| "sep_by sep (x # xs) = x @ sep @ sep_by sep xs"

function json_text :: "json \<Rightarrow> string" where
  "json_text JNull = ''null''"
| "json_text (JBool b) = (if b then ''true'' else ''false'')"
| "json_text (JNum t) = t"
| "json_text (JStr s) = quote_string s"
| "json_text (JArr vs) = ''['' @ sep_by '','' (map json_text vs) @ '']''"
| "json_text (JObj ms) =
     ''{'' @ sep_by '','' (map (\<lambda>m. quote_string (fst m) @ '':'' @ json_text (snd m)) ms) @ ''}''"
  by pat_completeness auto
termination
proof (relation "measure size")
  fix vs and x :: json assume "x \<in> set vs"
  then show "(x, JArr vs) \<in> measure size" by (induction vs) auto
next
  fix ms and x :: "string \<times> json" assume "x \<in> set ms"
  then show "(snd x, JObj ms) \<in> measure size" by (induction ms) auto
qed simp

text \<open>\<open>strconv.AppendInt\<close> in base ten.\<close>

fun dec_digits :: "nat \<Rightarrow> string" where
  "dec_digits n = (if n < 10 then [] else dec_digits (n div 10)) @ [char_of (48 + n mod 10)]"

definition dec_int :: "int \<Rightarrow> string" where
  "dec_int i = (if i < 0 then CHR ''-'' # dec_digits (nat (- i)) else dec_digits (nat i))"

section \<open>Reading\<close>

definition is_space :: "char \<Rightarrow> bool" where
  "is_space c \<longleftrightarrow> c \<in> {CHR 0x20, CHR 0x09, CHR 0x0A, CHR 0x0D}"

definition skip_space :: "string \<Rightarrow> string" where
  "skip_space s = dropWhile is_space s"

definition expect :: "char \<Rightarrow> string \<Rightarrow> string option" where
  "expect x s = (case s of [] \<Rightarrow> None | c # r \<Rightarrow> if c = x then Some r else None)"

fun literal :: "string \<Rightarrow> string \<Rightarrow> string option" where
  "literal [] s = Some s"
| "literal (x # xs) s = (case expect x s of None \<Rightarrow> None | Some r \<Rightarrow> literal xs r)"

definition hex_value :: "char \<Rightarrow> nat option" where
  "hex_value c =
     (if 48 \<le> byte c \<and> byte c \<le> 57 then Some (byte c - 48)
      else if 97 \<le> byte c \<and> byte c \<le> 102 then Some (byte c - 87)
      else if 65 \<le> byte c \<and> byte c \<le> 70 then Some (byte c - 55)
      else None)"

text \<open>The four digits after \<open>\u\<close>.\<close>

fun hex4 :: "string \<Rightarrow> nat option" where
  "hex4 (a # b # c # d # _) =
     (case (hex_value a, hex_value b, hex_value c, hex_value d) of
        (Some w, Some x, Some y, Some z) \<Rightarrow> Some (((w * 16 + x) * 16 + y) * 16 + z)
      | _ \<Rightarrow> None)"
| "hex4 _ = None"

text \<open>\<open>utf16.DecodeRune\<close> on a surrogate and the escape that follows it, when there is one.\<close>

definition low_surrogate :: "nat \<Rightarrow> string \<Rightarrow> nat option" where
  "low_surrogate r s =
     (case literal [backslash, CHR ''u''] s of
        None \<Rightarrow> None
      | Some t \<Rightarrow>
          (case hex4 t of
             None \<Rightarrow> None
           | Some r1 \<Rightarrow>
               if r < 0xDC00 \<and> 0xDC00 \<le> r1 \<and> r1 < 0xE000
               then Some ((r - 0xD800) * 1024 + (r1 - 0xDC00) + 0x10000) else None))"

definition cons_string :: "string \<Rightarrow> (string \<times> string) option \<Rightarrow> (string \<times> string) option" where
  "cons_string p x = map_option (apfst ((@) p)) x"

text \<open>The rest of a string literal after its opening mark: its bytes, and what follows it.\<close>

definition unescape_letters :: "(char \<times> char) list" where
  "unescape_letters = map prod.swap short_escapes @ [(CHR ''/'', CHR ''/'')]"

function unquote :: "string \<Rightarrow> (string \<times> string) option" where
  "unquote [] = None"
| "unquote (c # cs) =
     (if c = quote_mark then Some ([], cs)
      else if c = backslash then
        (case cs of
           [] \<Rightarrow> None
         | e # es \<Rightarrow>
             if e = CHR ''u'' then
               (case hex4 es of
                  None \<Rightarrow> None
                | Some r \<Rightarrow>
                    if is_surrogate r then
                      (case low_surrogate r (drop 4 es) of
                         Some r2 \<Rightarrow> cons_string (EncodeRune r2) (unquote (drop 10 es))
                       | None \<Rightarrow> cons_string (EncodeRune RuneError) (unquote (drop 4 es)))
                    else cons_string (EncodeRune r) (unquote (drop 4 es)))
             else (case map_of unescape_letters e of
                     None \<Rightarrow> None
                   | Some x \<Rightarrow> cons_string [x] (unquote es)))
      else if byte c < 0x20 then None
      else if byte c < 0x80 then cons_string [c] (unquote cs)
      else let (r, n) = DecodeRune (c # cs) in
        cons_string (EncodeRune r) (unquote (drop (n - 1) cs)))"
  by pat_completeness auto
termination by (relation "measure length") auto

definition is_digit :: "char \<Rightarrow> bool" where
  "is_digit c \<longleftrightarrow> 48 \<le> byte c \<and> byte c \<le> 57"

text \<open>The parts of a number: what is taken, and the rest.\<close>

definition scan_digits :: "string \<Rightarrow> (string \<times> string) option" where
  "scan_digits s = (if takeWhile is_digit s = [] then None
                    else Some (takeWhile is_digit s, dropWhile is_digit s))"

definition scan_int :: "string \<Rightarrow> (string \<times> string) option" where
  "scan_int s = (case expect (CHR ''0'') s of
                   Some r \<Rightarrow> Some (''0'', r)
                 | None \<Rightarrow> scan_digits s)"

definition scan_fraction :: "string \<Rightarrow> (string \<times> string) option" where
  "scan_fraction s = (case expect (CHR ''.'') s of
                        None \<Rightarrow> Some ([], s)
                      | Some r \<Rightarrow> cons_string ''.'' (scan_digits r))"

definition scan_sign :: "char list \<Rightarrow> string \<Rightarrow> string \<times> string" where
  "scan_sign signs s = (case s of [] \<Rightarrow> ([], []) | c # r \<Rightarrow> if c \<in> set signs then ([c], r) else ([], s))"

definition scan_exponent :: "string \<Rightarrow> (string \<times> string) option" where
  "scan_exponent s =
     (case scan_sign [CHR ''e'', CHR ''E''] s of
        ([], _) \<Rightarrow> Some ([], s)
      | (e, r) \<Rightarrow> (let (sign, r1) = scan_sign [CHR ''+'', CHR ''-''] r
                 in cons_string (e @ sign) (scan_digits r1)))"

definition then_scan ::
    "(string \<times> string) option \<Rightarrow> (string \<Rightarrow> (string \<times> string) option) \<Rightarrow> (string \<times> string) option" where
  "then_scan x f = (case x of None \<Rightarrow> None | Some (t, r) \<Rightarrow> cons_string t (f r))"

definition scan_number :: "string \<Rightarrow> (string \<times> string) option" where
  "scan_number s =
     then_scan (then_scan (then_scan (Some (scan_sign [CHR ''-''] s)) scan_int) scan_fraction) scan_exponent"


lemma skip_space_length: "length (skip_space s) \<le> length s"
  by (simp add: skip_space_def length_dropWhile_le)

lemma expect_length: "expect x s = Some r \<Longrightarrow> length s = Suc (length r)"
  by (auto simp: expect_def split: list.splits if_splits)

lemma expect_skip_length: "expect x (skip_space s) = Some r \<Longrightarrow> length r < length s"
  using expect_length [of x "skip_space s" r] skip_space_length [of s] by simp

lemma expect_less: "expect x s = Some r \<Longrightarrow> length r < length s"
  using expect_length by fastforce

lemma unquote_length: "unquote s = Some (x, r) \<Longrightarrow> length r < length s"
proof (induction s arbitrary: x rule: unquote.induct)
  case (2 c cs)
  then show ?case
    by (fastforce simp: cons_string_def apfst_def map_prod_def split: if_splits list.splits option.splits prod.splits)
qed simp

text \<open>
  The scanner's limit on the nesting of arrays and objects. The tests on lengths always succeed:
  a value takes at least one byte.
\<close>

definition maxNestingDepth :: nat where
  "maxNestingDepth = 10000"

function parse_value :: "nat \<Rightarrow> string \<Rightarrow> (json \<times> string) option"
  and parse_elements :: "nat \<Rightarrow> string \<Rightarrow> (json list \<times> string) option"
  and parse_members :: "nat \<Rightarrow> string \<Rightarrow> ((string \<times> json) list \<times> string) option" where
  "parse_value d s =
     (case expect quote_mark s of
        Some r \<Rightarrow> map_option (apfst JStr) (unquote r)
      | None \<Rightarrow>
     (case expect (CHR ''{'') s of
        Some r \<Rightarrow>
          if maxNestingDepth \<le> d then None
          else (case expect (CHR ''}'') (skip_space r) of
                  Some t \<Rightarrow> Some (JObj [], t)
                | None \<Rightarrow> map_option (apfst JObj) (parse_members (d + 1) (skip_space r)))
      | None \<Rightarrow>
     (case expect (CHR ''['') s of
        Some r \<Rightarrow>
          if maxNestingDepth \<le> d then None
          else (case expect (CHR '']'') (skip_space r) of
                  Some t \<Rightarrow> Some (JArr [], t)
                | None \<Rightarrow> map_option (apfst JArr) (parse_elements (d + 1) (skip_space r)))
      | None \<Rightarrow>
     (case literal ''true'' s of
        Some r \<Rightarrow> Some (JBool True, r)
      | None \<Rightarrow>
     (case literal ''false'' s of
        Some r \<Rightarrow> Some (JBool False, r)
      | None \<Rightarrow>
     (case literal ''null'' s of
        Some r \<Rightarrow> Some (JNull, r)
      | None \<Rightarrow> map_option (apfst JNum) (scan_number s)))))))"
| "parse_elements d s =
     (case parse_value d s of
        None \<Rightarrow> None
      | Some (v, r) \<Rightarrow>
          if length r < length s then
            (case expect (CHR '','') (skip_space r) of
               Some t \<Rightarrow> map_option (apfst (Cons v)) (parse_elements d (skip_space t))
             | None \<Rightarrow> map_option (Pair [v]) (expect (CHR '']'') (skip_space r)))
          else None)"
| "parse_members d s =
     (case expect quote_mark s of
        None \<Rightarrow> None
      | Some q \<Rightarrow>
     (case unquote q of
        None \<Rightarrow> None
      | Some (k, r) \<Rightarrow>
     (case expect (CHR '':'') (skip_space r) of
        None \<Rightarrow> None
      | Some t \<Rightarrow>
     (case parse_value d (skip_space t) of
        None \<Rightarrow> None
      | Some (v, r2) \<Rightarrow>
          if length r2 < length s then
            (case expect (CHR '','') (skip_space r2) of
               Some t2 \<Rightarrow> map_option (apfst (Cons (k, v))) (parse_members d (skip_space t2))
             | None \<Rightarrow> map_option (Pair [(k, v)]) (expect (CHR ''}'') (skip_space r2)))
          else None))))"
  by pat_completeness auto
termination
proof (relation "measures
    [\<lambda>x. case x of Inl (d, s) \<Rightarrow> maxNestingDepth - d
            | Inr (Inl (d, s)) \<Rightarrow> maxNestingDepth - d | Inr (Inr (d, s)) \<Rightarrow> maxNestingDepth - d,
     \<lambda>x. case x of Inl (d, s) \<Rightarrow> length s
            | Inr (Inl (d, s)) \<Rightarrow> length s | Inr (Inr (d, s)) \<Rightarrow> length s,
     \<lambda>x. case x of Inl _ \<Rightarrow> 0 | _ \<Rightarrow> 1]", goal_cases)
qed (insert skip_space_length,
     auto dest!: expect_skip_length dest: expect_less unquote_length intro!: le_less_trans [OF skip_space_length],
     (metis expect_less unquote_length less_trans le_less_trans less_imp_le)+)

text \<open>A text is one value with space around it.\<close>

definition parse_text :: "string \<Rightarrow> json option" where
  "parse_text s =
     (case parse_value 0 (skip_space s) of
        None \<Rightarrow> None
      | Some (v, r) \<Rightarrow> if skip_space r = [] then Some v else None)"

end
