(* ===== verification/Go_Json_Roundtrip.thy ===== *)
theory Go_Json_Roundtrip
  imports Go_Json
begin

text \<open>
  What the encoder of \<open>Go_Json\<close> writes is read back as it was: strings of valid UTF-8 through the
  escapes, integers through their digits, and values up to the scanner's nesting limit.
\<close>

declare unquote.simps(2) [simp del] escape_string.simps(2) [simp del] dec_digits.simps [simp del]
declare parse_value.simps [simp del] parse_elements.simps [simp del] parse_members.simps [simp del]

section \<open>Strings\<close>

lemma expect_Cons [simp]: "expect x (c # r) = (if c = x then Some r else None)"
  by (simp add: expect_def)

lemma expect_Nil [simp]: "expect x [] = None"
  by (simp add: expect_def)

lemma cons_string_Some [simp]: "cons_string p (Some (x, r)) = Some (p @ x, r)"
  by (simp add: cons_string_def)

lemma cons_string_eq_Some: "cons_string p x = Some (t, r) \<longleftrightarrow> (\<exists>u. x = Some (u, r) \<and> t = p @ u)"
  by (cases x) (auto simp: cons_string_def)

lemma byte_char_of: "n < 256 \<Longrightarrow> byte (char_of n) = n"
  by simp

lemma hex_value_digit: "n < 16 \<Longrightarrow> hex_value (hex_digit n) = Some n"
  by (auto simp: hex_value_def hex_digit_def)

lemma hex4_byte:
  "n < 256 \<Longrightarrow> hex4 (CHR ''0'' # CHR ''0'' # hex_digit (n div 16) # hex_digit (n mod 16) # t) = Some n"
proof -
  assume "n < 256"
  then have "hex_value (hex_digit (n div 16)) = Some (n div 16)"
    and "hex_value (hex_digit (n mod 16)) = Some (n mod 16)"
    by (auto intro!: hex_value_digit)
  moreover have "hex_value (CHR ''0'') = Some 0" by (simp add: hex_value_def)
  ultimately show ?thesis by simp
qed

lemma unquote_quote: "unquote (quote_mark # r) = Some ([], r)"
  by (simp add: unquote.simps(2))

lemma unquote_escape_ascii:
  assumes "byte c < 0x80"
  shows "unquote (escape_ascii c @ t) = cons_string [c] (unquote t)"
proof (cases "map_of short_escapes c")
  case (Some e)
  then show ?thesis
    by (auto simp: escape_ascii_def short_escapes_def unescape_letters_def unquote.simps(2) split: if_splits)
next
  case None
  show ?thesis
  proof (cases "byte c < 0x20 \<or> html_special c")
    case True
    have "\<not> is_surrogate (byte c)" using assms by (simp add: is_surrogate_def)
    with True None assms show ?thesis
      using hex4_byte [of "byte c" t] by (simp add: escape_ascii_def unquote.simps(2) EncodeRune_def)
  next
    case False
    with None assms show ?thesis
      by (auto simp: escape_ascii_def unquote.simps(2) short_escapes_def split: if_splits)
  qed
qed

lemma escape_string_ascii:
  "byte c < 0x80 \<Longrightarrow> escape_string (c # cs) = escape_ascii c @ escape_string cs"
  by (simp add: escape_string.simps(2))

lemma sequence_Cons:
  assumes "sequence b r"
  obtains c b' where "b = c # b'" "0x80 \<le> byte c" "0 < length b'" "DecodeRune (b @ t) = (r, Suc (length b'))"
proof -
  from assms obtain c b' where b: "b = c # b'" using sequence_rune by (cases b) fastforce+
  with assms sequence_rune [OF assms] sequence_bytes [OF assms] DecodeRune_sequence [OF assms, of t]
  show thesis by (intro that [of c b']) auto
qed

lemma escape_string_sequence:
  assumes "sequence b r"
  shows "escape_string (b @ cs) =
    (if r = 0x2028 \<or> r = 0x2029 then [backslash] @ ''u202'' @ [hex_digit (r mod 16)] else b)
    @ escape_string cs"
proof -
  obtain c b' where "b = c # b'" "0x80 \<le> byte c" "0 < length b'"
    "DecodeRune (b @ cs) = (r, Suc (length b'))"
    using sequence_Cons [OF assms, of cs] by blast
  then show ?thesis by (simp add: escape_string.simps(2))
qed

lemma unquote_sequence:
  assumes "sequence b r"
  shows "unquote (b @ t) = cons_string b (unquote t)"
proof -
  obtain c b' where "b = c # b'" "0x80 \<le> byte c" "0 < length b'"
    "DecodeRune (b @ t) = (r, Suc (length b'))"
    using sequence_Cons [OF assms, of t] by blast
  moreover from this have "c \<noteq> quote_mark" "c \<noteq> backslash" by auto
  ultimately show ?thesis
    using EncodeRune_sequence [OF assms] by (simp add: unquote.simps(2))
qed

lemma unquote_separator:
  assumes "sequence b r" and "r = 0x2028 \<or> r = 0x2029"
  shows "unquote ([backslash] @ ''u202'' @ [hex_digit (r mod 16)] @ t) = cons_string b (unquote t)"
proof -
  have "hex4 (''202'' @ [hex_digit (r mod 16)] @ t) = Some r"
    using assms(2) by (auto simp: hex_value_digit) (simp_all add: hex_value_def hex_digit_def)
  moreover have "\<not> is_surrogate r" using assms(2) by (auto simp: is_surrogate_def)
  ultimately show ?thesis
    using EncodeRune_sequence [OF assms(1)] by (simp add: unquote.simps(2))
qed

lemma unquote_escape:
  "utf8_valid s \<Longrightarrow> unquote (escape_string s @ quote_mark # r) = Some (s, r)"
proof (induction rule: utf8_valid_induct)
  case Nil
  then show ?case by (simp add: unquote_quote)
next
  case (ascii c cs)
  then show ?case by (simp add: escape_string_ascii unquote_escape_ascii)
next
  case (seq b n cs)
  then show ?case
    using unquote_separator [OF seq.hyps(1)] unquote_sequence [OF seq.hyps(1)]
    by (auto simp: escape_string_sequence)
qed

section \<open>Numbers\<close>

text \<open>What follows a value in what the encoder writes.\<close>

definition delimited :: "string \<Rightarrow> bool" where
  "delimited r \<longleftrightarrow> (\<forall>c t. r = c # t \<longrightarrow> c \<in> {CHR '','', CHR ''}'', CHR '']''})"

fun digits_value :: "nat \<Rightarrow> string \<Rightarrow> nat" where
  "digits_value n [] = n"
| "digits_value n (c # cs) = digits_value (n * 10 + (byte c - 48)) cs"

lemma digits_value_append: "digits_value n (s @ t) = digits_value (digits_value n s) t"
  by (induction s arbitrary: n) auto

lemma digits_value_dec: "digits_value 0 (dec_digits n) = n"
proof (induction n rule: dec_digits.induct)
  case (1 n)
  have "byte (char_of (48 + n mod 10)) = 48 + n mod 10" by (rule byte_char_of) simp
  with 1 show ?case by (simp add: dec_digits.simps [of n] digits_value_append)
qed

lemma dec_digits_digits: "list_all is_digit (dec_digits n)"
proof (induction n rule: dec_digits.induct)
  case (1 n)
  have "byte (char_of (48 + n mod 10)) = 48 + n mod 10" "n mod 10 \<le> 9"
    by (rule byte_char_of) (simp, presburger)
  with 1 show ?case by (simp add: dec_digits.simps [of n] is_digit_def)
qed

lemma dec_digits_head: "\<exists>c t. dec_digits n = c # t \<and> (c = CHR ''0'' \<longrightarrow> t = [] \<and> n = 0)"
proof (induction n rule: dec_digits.induct)
  case (1 n)
  show ?case
  proof (cases "n < 10")
    case True
    then have "byte (char_of (48 + n)) = 48 + n" by (intro byte_char_of) simp
    moreover have "char_of (48 :: nat) = CHR ''0''" by code_simp
    ultimately have "char_of (48 + n) = CHR ''0'' \<longleftrightarrow> n = 0" by (auto dest: arg_cong [of _ _ byte])
    with True show ?thesis by (simp add: dec_digits.simps [of n])
  next
    case False
    with 1 obtain c t where "dec_digits (n div 10) = c # t" "c = CHR ''0'' \<longrightarrow> n div 10 = 0" by auto
    with False show ?thesis by (auto simp: dec_digits.simps [of n] div_eq_0_iff)
  qed
qed

lemma delimited_cases: "delimited r \<Longrightarrow> r = [] \<or> (\<exists>c t. r = c # t \<and> c \<in> {CHR '','', CHR ''}'', CHR '']''})"
  by (cases r) (auto simp: delimited_def)

lemma scan_digits_dec:
  assumes "delimited r"
  shows "scan_digits (dec_digits n @ r) = Some (dec_digits n, r)"
proof -
  have r: "takeWhile is_digit r = []" "dropWhile is_digit r = r"
    using delimited_cases [OF assms] by (auto simp: is_digit_def)
  have "dec_digits n \<noteq> []" using dec_digits_head [of n] by auto
  with dec_digits_digits [of n] r show ?thesis
    by (simp add: scan_digits_def list_all_iff)
qed

lemma scan_tail:
  assumes "delimited r"
  shows "scan_fraction r = Some ([], r)" "scan_exponent r = Some ([], r)"
  using delimited_cases [OF assms]
  by (auto simp: scan_fraction_def scan_exponent_def scan_sign_def)

lemma scan_int_dec: "delimited r \<Longrightarrow> scan_int (dec_digits n @ r) = Some (dec_digits n, r)"
proof -
  assume r: "delimited r"
  obtain c t where c: "dec_digits n = c # t" "c = CHR ''0'' \<longrightarrow> t = [] \<and> n = 0"
    using dec_digits_head by blast
  show ?thesis
  proof (cases "c = CHR ''0''")
    case True
    with c show ?thesis by (simp add: scan_int_def)
  next
    case False
    with c scan_digits_dec [OF r, of n] show ?thesis by (simp add: scan_int_def)
  qed
qed

lemma scan_number_dec:
  assumes "delimited r"
  shows "scan_number (dec_int i @ r) = Some (dec_int i, r)"
proof -
  have tail: "then_scan (then_scan (Some (t, r)) scan_fraction) scan_exponent = Some (t, r)" for t
    by (simp add: then_scan_def scan_tail [OF assms])
  have sign: "scan_sign [CHR ''-''] (dec_digits n @ r) = ([], dec_digits n @ r)" for n
  proof -
    obtain c t where "dec_digits n = c # t" using dec_digits_head by blast
    moreover from this have "is_digit c" using dec_digits_digits [of n] by simp
    ultimately show ?thesis by (auto simp: scan_sign_def is_digit_def)
  qed
  show ?thesis
  proof (cases "i < 0")
    case True
    then have "scan_sign [CHR ''-''] (dec_int i @ r) = (''-'', dec_digits (nat (- i)) @ r)"
      by (simp add: dec_int_def scan_sign_def)
    with True show ?thesis
      by (simp add: scan_number_def then_scan_def [of _ scan_int] scan_int_dec [OF assms] tail)
        (simp add: dec_int_def)
  next
    case False
    then show ?thesis
      by (simp add: scan_number_def then_scan_def [of _ scan_int] scan_int_dec [OF assms] tail dec_int_def sign)
  qed
qed

lemma dec_int_head: "\<exists>c t. dec_int i = c # t \<and> (is_digit c \<or> c = CHR ''-'')"
proof -
  obtain c t where "dec_digits (nat i) = c # t" using dec_digits_head by blast
  with dec_digits_digits [of "nat i"] show ?thesis by (auto simp: dec_int_def)
qed

section \<open>Values\<close>

text \<open>What the encoder writes at a nesting depth the scanner admits.\<close>

fun printable :: "nat \<Rightarrow> json \<Rightarrow> bool" where
  "printable d JNull = True"
| "printable d (JBool b) = True"
| "printable d (JNum t) = (\<exists>i. t = dec_int i)"
| "printable d (JStr s) = utf8_valid s"
| "printable d (JArr vs) = (d < maxNestingDepth \<and> (\<forall>v \<in> set vs. printable (d + 1) v))"
| "printable d (JObj ms) =
     (d < maxNestingDepth \<and> (\<forall>m \<in> set ms. utf8_valid (fst m) \<and> printable (d + 1) (snd m)))"

text \<open>The first byte of a value is no space and no delimiter.\<close>

definition value_head :: "char \<Rightarrow> bool" where
  "value_head c \<longleftrightarrow> \<not> is_space c \<and> c \<notin> {CHR '','', CHR '':'', CHR ''}'', CHR '']''}"

lemma json_text_head: "printable d j \<Longrightarrow> \<exists>c t. json_text j = c # t \<and> value_head c"
proof (cases j)
  case (JNum t)
  moreover assume "printable d j"
  ultimately obtain i where "json_text j = dec_int i" by auto
  then show ?thesis
    using dec_int_head [of i] by (auto simp: value_head_def is_space_def is_digit_def)
qed (auto simp: value_head_def is_space_def quote_string_def)

lemma skip_space_value: "value_head c \<Longrightarrow> skip_space (c # t) = c # t"
  by (simp add: skip_space_def value_head_def)

lemma skip_space_text: "printable d j \<Longrightarrow> skip_space (json_text j @ t) = json_text j @ t"
  using json_text_head [of d j] by (auto simp: skip_space_value)

lemma skip_space_other [simp]:
  "skip_space (CHR '','' # t) = CHR '','' # t" "skip_space (CHR '':'' # t) = CHR '':'' # t"
  "skip_space (CHR ''}'' # t) = CHR ''}'' # t" "skip_space (CHR '']'' # t) = CHR '']'' # t"
  "skip_space (quote_mark # t) = quote_mark # t" "skip_space [] = []"
  by (simp_all add: skip_space_def is_space_def)

lemma expect_head: "value_head c \<Longrightarrow> expect (CHR ''}'') (c # t) = None \<and> expect (CHR '']'') (c # t) = None"
  by (auto simp: value_head_def)

lemma parse_value_string:
  "parse_value d (quote_mark # t) = map_option (apfst JStr) (unquote t)"
  by (simp add: parse_value.simps)

lemma parse_value_object:
  "d < maxNestingDepth \<Longrightarrow> parse_value d (CHR ''{'' # t) =
     (case expect (CHR ''}'') (skip_space t) of
        Some r \<Rightarrow> Some (JObj [], r)
      | None \<Rightarrow> map_option (apfst JObj) (parse_members (d + 1) (skip_space t)))"
  by (simp add: parse_value.simps)

lemma parse_value_array:
  "d < maxNestingDepth \<Longrightarrow> parse_value d (CHR ''['' # t) =
     (case expect (CHR '']'') (skip_space t) of
        Some r \<Rightarrow> Some (JArr [], r)
      | None \<Rightarrow> map_option (apfst JArr) (parse_elements (d + 1) (skip_space t)))"
  by (simp add: parse_value.simps)

lemma parse_value_words:
  "parse_value d (''true'' @ t) = Some (JBool True, t)"
  "parse_value d (''false'' @ t) = Some (JBool False, t)"
  "parse_value d (''null'' @ t) = Some (JNull, t)"
  by (simp_all add: parse_value.simps)

lemma parse_value_number:
  assumes "delimited r"
  shows "parse_value d (dec_int i @ r) = Some (JNum (dec_int i), r)"
proof -
  obtain c t where c: "dec_int i = c # t" and "is_digit c \<or> c = CHR ''-''" using dec_int_head by blast
  then have "c \<notin> {quote_mark, CHR ''{'', CHR ''['', CHR ''t'', CHR ''f'', CHR ''n''}"
    by (auto simp: is_digit_def)
  with c scan_number_dec [OF assms, of i] show ?thesis by (simp add: parse_value.simps)
qed

lemma parse_members_step:
  assumes "utf8_valid k" and "parse_value d (json_text v @ r) = Some (v, r)" and "printable d v"
  shows "parse_members d (quote_string k @ '':'' @ json_text v @ r) =
    (case expect (CHR '','') (skip_space r) of
       Some t \<Rightarrow> map_option (apfst (Cons (k, v))) (parse_members d (skip_space t))
     | None \<Rightarrow> map_option (Pair [(k, v)]) (expect (CHR ''}'') (skip_space r)))"
proof -
  have "unquote (escape_string k @ quote_mark # '':'' @ json_text v @ r) = Some (k, '':'' @ json_text v @ r)"
    by (rule unquote_escape [OF assms(1)])
  then show ?thesis
    using assms(2) skip_space_text [OF assms(3), of r]
    by (simp add: parse_members.simps quote_string_def)
qed

lemma parse_elements_step:
  assumes "parse_value d (json_text v @ r) = Some (v, r)" and "printable d v"
  shows "parse_elements d (json_text v @ r) =
    (case expect (CHR '','') (skip_space r) of
       Some t \<Rightarrow> map_option (apfst (Cons v)) (parse_elements d (skip_space t))
     | None \<Rightarrow> map_option (Pair [v]) (expect (CHR '']'') (skip_space r)))"
proof -
  have "0 < length (json_text v)" using json_text_head [OF assms(2)] by auto
  with assms(1) show ?thesis by (simp add: parse_elements.simps)
qed

abbreviation member_text :: "string \<times> json \<Rightarrow> string" where
  "member_text m \<equiv> quote_string (fst m) @ '':'' @ json_text (snd m)"

lemma delimited_simps: "delimited (CHR '','' # t)" "delimited (CHR ''}'' # t)" "delimited (CHR '']'' # t)" "delimited []"
  by (simp_all add: delimited_def)

lemma sep_by_head: "\<exists>t. sep_by sep ((c # x) # xs) @ r = c # t"
  by (cases xs) auto

lemma members_head: "\<exists>t. sep_by '','' (map member_text (m # ms)) @ r = quote_mark # t"
  by (cases ms) (auto simp: quote_string_def)

lemma parse_members_text:
  assumes "ms \<noteq> []"
    and "\<And>m r. m \<in> set ms \<Longrightarrow> delimited r \<Longrightarrow> parse_value d (json_text (snd m) @ r) = Some (snd m, r)"
    and "\<forall>m \<in> set ms. utf8_valid (fst m) \<and> printable d (snd m)"
  shows "parse_members d (sep_by '','' (map member_text ms) @ CHR ''}'' # r) = Some (ms, r)"
  using assms
proof (induction ms rule: induct_list012)
  case (2 m)
  then show ?case
    using parse_members_step [of "fst m" d "snd m" "CHR ''}'' # r"] by (simp add: delimited_simps)
next
  case (3 m m' ms)
  define rest where "rest = sep_by '','' (map member_text (m' # ms)) @ CHR ''}'' # r"
  have ih: "parse_members d rest = Some (m' # ms, r)"
    unfolding rest_def using 3 by (intro 3) auto
  have "skip_space rest = rest"
    using members_head [of m' ms "CHR ''}'' # r"] by (auto simp: rest_def simp del: sep_by.simps)
  moreover have "parse_value d (json_text (snd m) @ CHR '','' # rest) = Some (snd m, CHR '','' # rest)"
    using 3 by (simp add: delimited_simps)
  ultimately have "parse_members d (member_text m @ CHR '','' # rest) = Some (m # m' # ms, r)"
    using parse_members_step [of "fst m" d "snd m" "CHR '','' # rest"] 3 ih by simp
  then show ?case by (simp add: rest_def)
qed simp

lemma parse_elements_text:
  assumes "vs \<noteq> []"
    and "\<And>v r. v \<in> set vs \<Longrightarrow> delimited r \<Longrightarrow> parse_value d (json_text v @ r) = Some (v, r)"
    and "\<forall>v \<in> set vs. printable d v"
  shows "parse_elements d (sep_by '','' (map json_text vs) @ CHR '']'' # r) = Some (vs, r)"
  using assms
proof (induction vs rule: induct_list012)
  case (2 v)
  then show ?case
    using parse_elements_step [of d v "CHR '']'' # r"] by (simp add: delimited_simps)
next
  case (3 v v' vs)
  define rest where "rest = sep_by '','' (map json_text (v' # vs)) @ CHR '']'' # r"
  have ih: "parse_elements d rest = Some (v' # vs, r)"
    unfolding rest_def using 3 by (intro 3) auto
  obtain c t where c: "json_text v' = c # t" "value_head c" using json_text_head [of d v'] 3 by auto
  then have "skip_space rest = rest"
    using sep_by_head [of "'',''" c t "map json_text vs" "CHR '']'' # r"]
    by (auto simp: rest_def skip_space_value)
  moreover have "parse_value d (json_text v @ CHR '','' # rest) = Some (v, CHR '','' # rest)"
    using 3 by (simp add: delimited_simps)
  ultimately have "parse_elements d (json_text v @ CHR '','' # rest) = Some (v # v' # vs, r)"
    using parse_elements_step [of d v "CHR '','' # rest"] 3 ih by simp
  then show ?case by (simp add: rest_def)
qed simp

text \<open>Reading back what was written.\<close>

lemma parse_value_text:
  "printable d j \<Longrightarrow> delimited r \<Longrightarrow> parse_value d (json_text j @ r) = Some (j, r)"
proof (induction j arbitrary: d r rule: json_text.induct)
  case (2 b)
  then show ?case using parse_value_words [of d r] by simp
next
  case (3 t)
  then show ?case using parse_value_number by auto
next
  case (4 s)
  then show ?case by (simp add: quote_string_def parse_value_string unquote_escape)
next
  case (5 vs)
  show ?case
  proof (cases "vs = []")
    case True
    with 5 show ?thesis by (simp add: parse_value_array)
  next
    case False
    with 5 have p: "parse_elements (d + 1) (sep_by '','' (map json_text vs) @ CHR '']'' # r) = Some (vs, r)"
      by (intro parse_elements_text) auto
    obtain v vs' where v: "vs = v # vs'" using False by (cases vs) auto
    obtain c t where c: "json_text v = c # t" "value_head c"
      using json_text_head [of "d + 1" v] 5 v by auto
    obtain t' where "sep_by '','' (map json_text vs) @ CHR '']'' # r = c # t'"
      using sep_by_head [of "'',''" c t "map json_text vs'" "CHR '']'' # r"] v c by auto
    with p 5 c show ?thesis
      by (simp add: parse_value_array skip_space_value) (simp add: value_head_def)
  qed
next
  case (6 ms)
  show ?case
  proof (cases "ms = []")
    case True
    with 6 show ?thesis by (simp add: parse_value_object)
  next
    case False
    with 6 have p: "parse_members (d + 1) (sep_by '','' (map member_text ms) @ CHR ''}'' # r) = Some (ms, r)"
      by (intro parse_members_text) auto
    obtain m ms' where m: "ms = m # ms'" using False by (cases ms) auto
    obtain t' where "sep_by '','' (map member_text ms) @ CHR ''}'' # r = quote_mark # t'"
      unfolding m using members_head by blast
    with p 6 show ?thesis by (simp add: parse_value_object)
  qed
qed (simp add: parse_value_words [simplified])

theorem parse_text_json: "printable 0 j \<Longrightarrow> parse_text (json_text j) = Some j"
  using parse_value_text [of 0 j "[]"] skip_space_text [of 0 j "[]"]
  by (simp add: parse_text_def delimited_simps)

end
