(* ===== verification/LS_Cache.thy ===== *)
theory LS_Cache
  imports LS_Types Go_File Go_Json_Roundtrip "HOL-Library.Finite_Map" "HOL-Library.Char_ord"
    "HOL-Library.List_Lexorder"
begin

text \<open>
  The volume cache of \<^verbatim>\<open>pkg/cache/store.go\<close>: a map from volume IDs to volumes that is written
  to a file as JSON after every change and read back when the cache is made. Every operation
  holds the lock, so each is one step. Go visits a map in an order of its own choice: the order
  is the argument \<open>order\<close> of the operations that visit it.
\<close>

section \<open>The type and its JSON form\<close>

text \<open>The struct \<open>Volume\<close> of this package has the fields of the API type of the same name.\<close>

type_synonym volume_map = "(string, Volume) fmap"

definition volume_json :: "Volume \<Rightarrow> json" where
  "volume_json v = JObj
     [(''VolName'', JStr (v_VolName v)), (''VolID'', JStr (v_VolID v)),
      (''VolPath'', JStr (v_VolPath v)), (''VolSize'', JNum (dec_int (sint (v_VolSize v)))),
      (''NodeID'', JStr (v_NodeID v)), (''Attached'', JBool (v_Attached v))]"

text \<open>\<open>json.Marshal\<close>: a nil map is null, keys are sorted. It has no error for this type.\<close>

definition json_Marshal :: "volume_map option \<Rightarrow> gerror + string" where
  "json_Marshal vols =
     Inr (json_text (case vols of
            None \<Rightarrow> JNull
          | Some m \<Rightarrow> JObj (map (\<lambda>e. (fst e, volume_json (snd e))) (sorted_list_of_fmap m))))"

text \<open>
  \<open>json.Unmarshal\<close> into the map. A syntax error is found before anything is stored. A value of
  the wrong type is skipped, and the first such error is reported at the end. Of both errors only
  the kind is kept.
\<close>

definition json_SyntaxError :: gerror where "json_SyntaxError = ExtError ''json: syntax error''"
definition json_TypeError :: gerror where "json_TypeError = ExtError ''json: cannot unmarshal''"

text \<open>Field names match without regard to case, as Unicode folds it: two runes outside ASCII fold
  to ASCII letters.\<close>

function fold_name :: "string \<Rightarrow> nat list" where
  "fold_name [] = []"
| "fold_name (c # cs) =
     (if byte c < 0x80 then (if 97 \<le> byte c \<and> byte c \<le> 122 then byte c - 32 else byte c) # fold_name cs
      else let (r, n) = DecodeRune (c # cs) in
        (if r = 0x17F then 83 else if r = 0x212A then 75 else r) # fold_name (drop (n - 1) cs))"
  by pat_completeness auto
termination by (relation "measure length") auto

datatype volume_field = FVolName | FVolID | FVolPath | FVolSize | FNodeID | FAttached

definition field_of :: "string \<Rightarrow> volume_field option" where
  "field_of k = map_of
     [(fold_name ''VolName'', FVolName), (fold_name ''VolID'', FVolID), (fold_name ''VolPath'', FVolPath),
      (fold_name ''VolSize'', FVolSize), (fold_name ''NodeID'', FNodeID), (fold_name ''Attached'', FAttached)]
     (fold_name k)"

text \<open>\<open>strconv.ParseInt\<close> on a JSON number.\<close>

definition ParseInt64 :: "string \<Rightarrow> int64 option" where
  "ParseInt64 t =
     (let (sign, ds) = scan_sign [CHR ''-''] t;
          i = (if sign = [] then int (digits_value 0 ds) else - int (digits_value 0 ds))
      in if ds \<noteq> [] \<and> list_all is_digit ds \<and> - (2 ^ 63) \<le> i \<and> i < 2 ^ 63
         then Some (word_of_int i) else None)"

text \<open>The new volume, and whether a type error was found; null leaves a field as it is.\<close>

fun set_field :: "volume_field \<Rightarrow> json \<Rightarrow> Volume \<Rightarrow> Volume \<times> bool" where
  "set_field _ JNull v = (v, False)"
| "set_field FVolName (JStr s) v = (v\<lparr>v_VolName := s\<rparr>, False)"
| "set_field FVolID (JStr s) v = (v\<lparr>v_VolID := s\<rparr>, False)"
| "set_field FVolPath (JStr s) v = (v\<lparr>v_VolPath := s\<rparr>, False)"
| "set_field FVolSize (JNum t) v =
     (case ParseInt64 t of None \<Rightarrow> (v, True) | Some n \<Rightarrow> (v\<lparr>v_VolSize := n\<rparr>, False))"
| "set_field FNodeID (JStr s) v = (v\<lparr>v_NodeID := s\<rparr>, False)"
| "set_field FAttached (JBool b) v = (v\<lparr>v_Attached := b\<rparr>, False)"
| "set_field _ _ v = (v, True)"

definition set_member :: "string \<times> json \<Rightarrow> Volume \<times> bool \<Rightarrow> Volume \<times> bool" where
  "set_member m r =
     (case field_of (fst m) of
        None \<Rightarrow> r
      | Some fld \<Rightarrow> let r' = set_field fld (snd m) (fst r) in (fst r', snd r \<or> snd r'))"

fun volume_of_json :: "json \<Rightarrow> Volume \<times> bool" where
  "volume_of_json JNull = (zero_Volume, False)"
| "volume_of_json (JObj ms) = fold set_member ms (zero_Volume, False)"
| "volume_of_json _ = (zero_Volume, True)"

definition add_entry :: "string \<times> json \<Rightarrow> volume_map \<times> bool \<Rightarrow> volume_map \<times> bool" where
  "add_entry m r =
     (let v = volume_of_json (snd m) in (fmupd (fst m) (fst v) (fst r), snd r \<or> snd v))"

definition saved_error :: "bool \<Rightarrow> gerror option" where
  "saved_error bad = (if bad then Some json_TypeError else None)"

definition json_Unmarshal :: "string \<Rightarrow> volume_map option \<Rightarrow> gerror option \<times> volume_map option" where
  "json_Unmarshal data vols =
     (case parse_text data of
        None \<Rightarrow> (Some json_SyntaxError, vols)
      | Some JNull \<Rightarrow> (None, None)
      | Some (JObj ms) \<Rightarrow>
          (let r = fold add_entry ms (case vols of None \<Rightarrow> fmempty | Some m \<Rightarrow> m, False)
           in (saved_error (snd r), Some (fst r)))
      | Some _ \<Rightarrow> (Some json_TypeError, vols))"

section \<open>Operations\<close>

record cache =
  c_Volumes :: "volume_map option"
  c_storeFile :: string

text \<open>\<open>short\<close> is what reaches the file of a write that is refused.\<close>

definition dump :: "nat \<Rightarrow> cache \<Rightarrow> fs \<Rightarrow> gerror option \<times> fs" where
  "dump short c f =
     (case json_Marshal (c_Volumes c) of
        Inl err \<Rightarrow> (Some (StatusErrorV Internal ''error encoding volumes: '' err), f)
      | Inr data \<Rightarrow>
          (case os_WriteFile short (c_storeFile c) data f of
             (Some err, f1) \<Rightarrow> (Some (StatusErrorV Internal ''error writing store file: '' err), f1)
           | (None, f1) \<Rightarrow> (None, f1)))"

definition restore :: "cache \<Rightarrow> fs \<Rightarrow> gerror option \<times> cache" where
  "restore c f =
     (let c1 = c\<lparr>c_Volumes := None\<rparr> in
      case os_ReadFile (c_storeFile c1) f of
        Inl err \<Rightarrow>
          if IsNotExist err then (None, c1)
          else (Some (StatusErrorV Internal ''error reading state file: '' err), c1)
      | Inr data \<Rightarrow>
          (case json_Unmarshal data (c_Volumes c1) of
             (Some err, vols) \<Rightarrow>
               (Some (StatusErrorQ Internal ''error encoding volumes and snapshots from store file ''
                        (c_storeFile c1) '': '' err), c1\<lparr>c_Volumes := vols\<rparr>)
           | (None, vols) \<Rightarrow> (None, c1\<lparr>c_Volumes := vols\<rparr>)))"

definition New :: "string \<Rightarrow> fs \<Rightarrow> cache \<times> gerror option" where
  "New storeFile f =
     (let r = restore \<lparr>c_Volumes = None, c_storeFile = storeFile\<rparr> f in (snd r, fst r))"

text \<open>Reading a nil map finds nothing.\<close>

definition volumes :: "cache \<Rightarrow> volume_map" where
  "volumes c = (case c_Volumes c of None \<Rightarrow> fmempty | Some m \<Rightarrow> m)"

definition GetVolumeByID :: "cache \<Rightarrow> string \<Rightarrow> gerror + Volume" where
  "GetVolumeByID c volID =
     (case fmlookup (volumes c) volID of
        None \<Rightarrow> Inl (StatusError NotFound (''volume id '' @ volID @ '' does not exist in the volumes list''))
      | Some vol \<Rightarrow> Inr vol)"

fun first_named :: "volume_map \<Rightarrow> string \<Rightarrow> string list \<Rightarrow> Volume option" where
  "first_named m volName [] = None"
| "first_named m volName (k # ks) =
     (case fmlookup m k of
        None \<Rightarrow> first_named m volName ks
      | Some vol \<Rightarrow> if v_VolName vol = volName then Some vol else first_named m volName ks)"

definition GetVolumeByName :: "(volume_map \<Rightarrow> string list) \<Rightarrow> cache \<Rightarrow> string \<Rightarrow> gerror + Volume" where
  "GetVolumeByName order c volName =
     (case first_named (volumes c) volName (order (volumes c)) of
        Some vol \<Rightarrow> Inr vol
      | None \<Rightarrow> Inl (StatusError NotFound (''volume name '' @ volName @ '' does not exist in the volumes list'')))"

definition cache_GetVolumes :: "(volume_map \<Rightarrow> string list) \<Rightarrow> cache \<Rightarrow> Volume list" where
  "cache_GetVolumes order c =
     fold (\<lambda>k vols. case fmlookup (volumes c) k of None \<Rightarrow> vols | Some vol \<Rightarrow> vols @ [vol])
       (order (volumes c)) []"

definition cache_SetVolume :: "nat \<Rightarrow> Volume \<Rightarrow> cache \<times> fs \<Rightarrow> gerror option \<times> cache \<times> fs" where
  "cache_SetVolume short volume s =
     (let c = fst s;
          c1 = (if c_Volumes c = None then c\<lparr>c_Volumes := Some fmempty\<rparr> else c);
          c2 = c1\<lparr>c_Volumes := Some (fmupd (v_VolID volume) volume (volumes c1))\<rparr>;
          r = dump short c2 (snd s)
      in (fst r, c2, snd r))"

definition cache_DeleteVolume :: "nat \<Rightarrow> string \<Rightarrow> cache \<times> fs \<Rightarrow> gerror option \<times> cache \<times> fs" where
  "cache_DeleteVolume short volID s =
     (let c = fst s in
      if fmlookup (volumes c) volID = None then (None, s)
      else
        let c1 = c\<lparr>c_Volumes := Some (fmdrop volID (volumes c))\<rparr>;
            r = dump short c1 (snd s)
        in (fst r, c1, snd r))"


section \<open>Reading back a volume\<close>

text \<open>What Go strings survive: JSON texts are UTF-8.\<close>

definition volume_utf8 :: "Volume \<Rightarrow> bool" where
  "volume_utf8 v \<longleftrightarrow> utf8_valid (v_VolName v) \<and> utf8_valid (v_VolID v) \<and> utf8_valid (v_VolPath v) \<and>
     utf8_valid (v_NodeID v)"

definition entries_utf8 :: "volume_map \<Rightarrow> bool" where
  "entries_utf8 m \<longleftrightarrow> (\<forall>k v. fmlookup m k = Some v \<longrightarrow> utf8_valid k \<and> volume_utf8 v)"

lemma ParseInt64_dec: "ParseInt64 (dec_int (sint n)) = Some n"
proof -
  have d: "dec_digits k \<noteq> []" for k using dec_digits_head [of k] by auto
  have head: "hd (dec_digits k) \<noteq> CHR ''-''" for k
    using dec_digits_digits [of k] d [of k] by (cases "dec_digits k") (auto simp: is_digit_def)
  have sign: "scan_sign [CHR ''-''] (dec_digits k) = ([], dec_digits k)" for k
    using head [of k] d [of k] by (cases "dec_digits k") (auto simp: scan_sign_def)
  show ?thesis
  proof (cases "sint n < 0")
    case True
    then have "scan_sign [CHR ''-''] (dec_int (sint n)) = (''-'', dec_digits (nat (- sint n)))"
      by (simp add: dec_int_def scan_sign_def)
    with True d sint_int64_bounds [of n] dec_digits_digits show ?thesis
      by (simp add: ParseInt64_def digits_value_dec)
  next
    case False
    then have "scan_sign [CHR ''-''] (dec_int (sint n)) = ([], dec_digits (nat (sint n)))"
      by (simp add: dec_int_def sign)
    with False d sint_int64_bounds [of n] dec_digits_digits show ?thesis
      by (simp add: ParseInt64_def digits_value_dec)
  qed
qed

lemma field_of_names:
  "field_of ''VolName'' = Some FVolName" "field_of ''VolID'' = Some FVolID"
  "field_of ''VolPath'' = Some FVolPath" "field_of ''VolSize'' = Some FVolSize"
  "field_of ''NodeID'' = Some FNodeID" "field_of ''Attached'' = Some FAttached"
  by (simp_all add: field_of_def)

lemma volume_of_volume_json: "volume_of_json (volume_json v) = (v, False)"
  by (simp add: volume_json_def set_member_def field_of_names ParseInt64_dec zero_Volume_def)

section \<open>Reading back the map\<close>

lemma add_entries:
  "fold add_entry (map (\<lambda>e. (fst e, volume_json (snd e))) xs) (m, bad)
     = (fold (\<lambda>e m. fmupd (fst e) (snd e) m) xs m, bad)"
  by (induction xs arbitrary: m) (auto simp: add_entry_def volume_of_volume_json Let_def)

lemma fold_fmupd:
  "distinct (map fst xs) \<Longrightarrow>
   fmlookup (fold (\<lambda>e m. fmupd (fst e) (snd e) m) xs m) k
     = (case map_of xs k of None \<Rightarrow> fmlookup m k | Some v \<Rightarrow> Some v)"
proof (induction xs arbitrary: m)
  case (Cons e xs)
  then show ?case by (cases e) (auto split: option.splits dest: map_of_SomeD simp: image_iff)
qed simp

lemma sorted_list_of_fmap_keys: "map fst (sorted_list_of_fmap m) = sorted_list_of_fset (fmdom m)"
  by (simp add: sorted_list_of_fmap_def comp_def)

lemma distinct_sorted_list_of_fset: "distinct (sorted_list_of_fset S)"
  by (simp add: sorted_list_of_fset.rep_eq)

lemma fold_sorted_entries:
  "fold (\<lambda>e m. fmupd (fst e) (snd e) m) (sorted_list_of_fmap m) fmempty = m"
  by (intro fmap_ext)
    (simp add: fold_fmupd sorted_list_of_fmap_keys distinct_sorted_list_of_fset split: option.splits)

lemma sorted_list_of_fmap_entries:
  "e \<in> set (sorted_list_of_fmap m) \<Longrightarrow> fmlookup m (fst e) = Some (snd e)"
  using map_of_is_SomeI [of "sorted_list_of_fmap m" "fst e" "snd e"]
  by (simp add: sorted_list_of_fmap_keys distinct_sorted_list_of_fset)

lemma printable_volume: "volume_utf8 v \<Longrightarrow> d < maxNestingDepth \<Longrightarrow> printable d (volume_json v)"
proof -
  have "utf8_valid s" if "list_all (\<lambda>c. byte c < 0x80) s" for s
    using that by (induction s) (auto simp: utf8_valid_ascii)
  then have "utf8_valid ''VolName''" "utf8_valid ''VolID''" "utf8_valid ''VolPath''"
    "utf8_valid ''VolSize''" "utf8_valid ''NodeID''" "utf8_valid ''Attached''"
    by simp_all
  then show "volume_utf8 v \<Longrightarrow> d < maxNestingDepth \<Longrightarrow> printable d (volume_json v)"
    by (auto simp: volume_json_def volume_utf8_def)
qed

lemma Unmarshal_Marshal:
  assumes "entries_utf8 m" and "json_Marshal (Some m) = Inr data"
  shows "json_Unmarshal data None = (None, Some m)"
proof -
  let ?ms = "map (\<lambda>e. (fst e, volume_json (snd e))) (sorted_list_of_fmap m)"
  have "printable 0 (JObj ?ms)"
  proof -
    have "utf8_valid (fst e) \<and> printable 1 (volume_json (snd e))" if "e \<in> set (sorted_list_of_fmap m)" for e
      using sorted_list_of_fmap_entries [OF that] assms(1)
      by (auto simp: entries_utf8_def maxNestingDepth_def intro!: printable_volume)
    then show ?thesis by (auto simp: maxNestingDepth_def)
  qed
  moreover have "data = json_text (JObj ?ms)"
    using assms(2) by (simp add: json_Marshal_def del: json_text.simps)
  ultimately have "parse_text data = Some (JObj ?ms)" using parse_text_json by blast
  then show ?thesis
    by (simp add: json_Unmarshal_def add_entries fold_sorted_entries saved_error_def Let_def)
qed

text \<open>Whatever is read is UTF-8 again.\<close>

lemma unquote_utf8: "unquote s = Some (x, r) \<Longrightarrow> utf8_valid x"
proof (induction s arbitrary: x r rule: unquote.induct)
  case (2 c cs)
  have letters: "map_of unescape_letters e = Some y \<Longrightarrow> byte y < 0x80" for e y
    by (auto simp: unescape_letters_def short_escapes_def split: if_splits)
  from 2 letters show ?case
    by (auto simp: unquote.simps(2) [of c cs] cons_string_eq_Some utf8_valid_EncodeRune utf8_valid_ascii
        split: if_splits list.splits option.splits prod.splits)
qed simp


fun json_utf8 :: "json \<Rightarrow> bool" where
  "json_utf8 (JStr s) = utf8_valid s"
| "json_utf8 (JArr vs) = (\<forall>v \<in> set vs. json_utf8 v)"
| "json_utf8 (JObj ms) = (\<forall>m \<in> set ms. utf8_valid (fst m) \<and> json_utf8 (snd m))"
| "json_utf8 _ = True"

lemma parse_utf8:
  "parse_value d s = Some (j, r) \<Longrightarrow> json_utf8 j"
  "parse_elements d s = Some (vs, r) \<Longrightarrow> \<forall>v \<in> set vs. json_utf8 v"
  "parse_members d s = Some (ms, r) \<Longrightarrow> \<forall>m \<in> set ms. utf8_valid (fst m) \<and> json_utf8 (snd m)"
proof (induction d s and d s and d s arbitrary: j r and vs r and ms r
    rule: parse_value_parse_elements_parse_members.induct)
  case (1 d s)
  from 1(3) [unfolded parse_value.simps [of d s]] 1(1,2) show ?case
    by (auto dest: unquote_utf8 split: option.splits if_splits)
next
  case (2 d s)
  from 2(3) [unfolded parse_elements.simps [of d s]] 2(1,2) show ?case
    by (fastforce split: option.splits if_splits prod.splits)
next
  case (3 d s)
  from 3(3) [unfolded parse_members.simps [of d s]] 3(1,2) show ?case
    by (fastforce dest: unquote_utf8 split: option.splits if_splits prod.splits)
qed


lemma set_field_utf8:
  "json_utf8 j \<Longrightarrow> volume_utf8 v \<Longrightarrow> volume_utf8 (fst (set_field fld j v))"
  by (induction fld j v rule: set_field.induct) (auto simp: volume_utf8_def split: option.splits)

lemma set_member_utf8:
  "json_utf8 (snd m) \<Longrightarrow> volume_utf8 (fst r) \<Longrightarrow> volume_utf8 (fst (set_member m r))"
  by (auto simp: set_member_def Let_def set_field_utf8 split: option.splits)

lemma set_members_utf8:
  "\<forall>m \<in> set ms. json_utf8 (snd m) \<Longrightarrow> volume_utf8 (fst r) \<Longrightarrow> volume_utf8 (fst (fold set_member ms r))"
  by (induction ms arbitrary: r) (auto simp: set_member_utf8)

lemma volume_of_json_utf8: "json_utf8 j \<Longrightarrow> volume_utf8 (fst (volume_of_json j))"
proof -
  have z: "volume_utf8 zero_Volume" by (simp add: volume_utf8_def zero_Volume_def)
  then show "json_utf8 j \<Longrightarrow> volume_utf8 (fst (volume_of_json j))"
    by (cases j) (auto intro!: set_members_utf8)
qed

lemma entries_utf8_upd: "entries_utf8 m \<Longrightarrow> utf8_valid k \<Longrightarrow> volume_utf8 v \<Longrightarrow> entries_utf8 (fmupd k v m)"
  by (auto simp: entries_utf8_def)

lemma entries_utf8_drop: "entries_utf8 m \<Longrightarrow> entries_utf8 (fmdrop k m)"
  by (auto simp: entries_utf8_def)

lemma entries_utf8_empty: "entries_utf8 fmempty"
  by (simp add: entries_utf8_def)

lemma add_entry_utf8:
  "utf8_valid (fst m) \<Longrightarrow> json_utf8 (snd m) \<Longrightarrow> entries_utf8 (fst r) \<Longrightarrow>
   entries_utf8 (fst (add_entry m r))"
  by (simp add: add_entry_def Let_def entries_utf8_upd volume_of_json_utf8)

lemma add_entries_utf8:
  "\<forall>m \<in> set ms. utf8_valid (fst m) \<and> json_utf8 (snd m) \<Longrightarrow> entries_utf8 (fst r) \<Longrightarrow>
   entries_utf8 (fst (fold add_entry ms r))"
  by (induction ms arbitrary: r) (auto simp: add_entry_utf8)

lemma Unmarshal_utf8:
  "json_Unmarshal data None = (e, Some m) \<Longrightarrow> entries_utf8 m"
proof -
  assume u: "json_Unmarshal data None = (e, Some m)"
  then obtain ms where p: "parse_text data = Some (JObj ms)"
    and m: "m = fst (fold add_entry ms (fmempty, False))"
    by (auto simp: json_Unmarshal_def Let_def split: option.splits json.splits)
  then obtain r where "parse_value 0 (skip_space data) = Some (JObj ms, r)"
    by (auto simp: parse_text_def split: option.splits if_splits)
  then have "json_utf8 (JObj ms)" by (rule parse_utf8(1))
  then show ?thesis unfolding m by (intro add_entries_utf8) (auto simp: entries_utf8_empty)
qed

section \<open>The contract of a store\<close>

text \<open>
  What users of a cache rely on: it is a map under operations that may report errors, and, where
  the operations report none, reopening it gives the same state back.
\<close>

fun run_ops :: "('o \<Rightarrow> 's \<Rightarrow> 'e option \<times> 's) \<Rightarrow> 'o list \<Rightarrow> 's \<Rightarrow> 'e option list \<times> 's" where
  "run_ops step [] s = ([], s)"
| "run_ops step (x # xs) s =
     (let r = step x s; rs = run_ops step xs (snd r) in (fst r # fst rs, snd rs))"

datatype ('k, 'v) store_op = Put 'v | Del 'k

fun apply_op :: "('v \<Rightarrow> 'k) \<Rightarrow> ('k, 'v) store_op \<Rightarrow> ('k \<rightharpoonup> 'v) \<Rightarrow> 'k \<rightharpoonup> 'v" where
  "apply_op key_of (Put v) m = m(key_of v \<mapsto> v)"
| "apply_op key_of (Del k) m = m(k := None)"

locale map_store =
  fixes contents :: "'s \<Rightarrow> 'k \<rightharpoonup> 'v"
    and key_of :: "'v \<Rightarrow> 'k"
    and lookup :: "'s \<Rightarrow> 'k \<Rightarrow> 'e + 'v"
    and step :: "('k, 'v) store_op \<Rightarrow> 's \<Rightarrow> 'e option \<times> 's"
  assumes lookup_contents: "lookup s k = Inr v \<longleftrightarrow> contents s k = Some v"
    and step_contents: "contents (snd (step x s)) = apply_op key_of x (contents s)"
begin

lemma run_contents: "contents (snd (run_ops step xs s)) = fold (apply_op key_of) xs (contents s)"
  by (induction xs arbitrary: s) (simp_all add: Let_def step_contents)

lemma run_lookup: "lookup (snd (run_ops step xs s)) k = Inr v \<longleftrightarrow> fold (apply_op key_of) xs (contents s) k = Some v"
  by (simp add: lookup_contents run_contents)

lemma lookup_put: "lookup (snd (step (Put v) s)) (key_of v) = Inr v"
  by (simp add: lookup_contents step_contents)

lemma lookup_del: "lookup (snd (step (Del k) s)) k \<noteq> Inr v"
  by (simp add: lookup_contents step_contents)

end

locale durable_store = map_store +
  fixes reopen :: "'s \<Rightarrow> 's option"
    and clean :: "'s \<Rightarrow> bool"
    and writable :: "('k, 'v) store_op \<Rightarrow> bool"
  assumes reopen_clean: "clean s \<Longrightarrow> reopen s = Some s"
    and step_clean: "clean s \<Longrightarrow> writable x \<Longrightarrow> fst (step x s) = None \<Longrightarrow> clean (snd (step x s))"
begin

lemma run_clean:
  "clean s \<Longrightarrow> \<forall>x \<in> set xs. writable x \<Longrightarrow> set (fst (run_ops step xs s)) \<subseteq> {None} \<Longrightarrow>
   clean (snd (run_ops step xs s))"
  by (induction xs arbitrary: s) (auto simp: Let_def step_clean)

lemma run_reopen:
  "clean s \<Longrightarrow> \<forall>x \<in> set xs. writable x \<Longrightarrow> set (fst (run_ops step xs s)) \<subseteq> {None} \<Longrightarrow>
   reopen (snd (run_ops step xs s)) = Some (snd (run_ops step xs s))"
  by (intro reopen_clean run_clean)

end

section \<open>The cache keeps the contract\<close>

fun cache_step :: "nat \<Rightarrow> (string, Volume) store_op \<Rightarrow> cache \<times> fs \<Rightarrow> gerror option \<times> cache \<times> fs" where
  "cache_step short (Put volume) s = cache_SetVolume short volume s"
| "cache_step short (Del volID) s = cache_DeleteVolume short volID s"

definition cache_contents :: "cache \<times> fs \<Rightarrow> string \<rightharpoonup> Volume" where
  "cache_contents s = fmlookup (volumes (fst s))"

lemma volumes_set [simp]:
  "volumes (c\<lparr>c_Volumes := Some m\<rparr>) = m" "volumes (c\<lparr>c_Volumes := None\<rparr>) = fmempty"
  by (simp_all add: volumes_def)

lemma SetVolume_contents:
  "volumes (fst (snd (cache_SetVolume short v s))) = fmupd (v_VolID v) v (volumes (fst s))"
  by (auto simp: cache_SetVolume_def Let_def) (simp_all add: volumes_def)

lemma DeleteVolume_contents:
  "volumes (fst (snd (cache_DeleteVolume short k s))) = fmdrop k (volumes (fst s))"
  by (auto simp: cache_DeleteVolume_def Let_def intro!: fmap_ext)

interpretation vols: map_store cache_contents v_VolID "\<lambda>s. GetVolumeByID (fst s)" "cache_step short"
proof
  show "GetVolumeByID (fst s) k = Inr v \<longleftrightarrow> cache_contents s k = Some v" for s k v
    by (simp add: GetVolumeByID_def cache_contents_def split: option.splits)
  show "cache_contents (snd (cache_step short x s)) = apply_op v_VolID x (cache_contents s)" for x s
    by (cases x)
      (auto simp: cache_contents_def SetVolume_contents DeleteVolume_contents fun_eq_iff)
qed

text \<open>Clean: the file holds what is in memory, and can be read.\<close>

definition cache_reopen :: "string \<Rightarrow> cache \<times> fs \<Rightarrow> (cache \<times> fs) option" where
  "cache_reopen p s =
     (case New p (snd s) of (c, None) \<Rightarrow> Some (c, snd s) | (c, Some err) \<Rightarrow> None)"

definition cache_clean :: "string \<Rightarrow> cache \<times> fs \<Rightarrow> bool" where
  "cache_clean p s \<longleftrightarrow> New p (snd s) = (fst s, None) \<and> entries_utf8 (volumes (fst s)) \<and>
     fs_deny (snd s) OpRead (pos_of (snd s) p) = None"

definition op_utf8 :: "(string, Volume) store_op \<Rightarrow> bool" where
  "op_utf8 x \<longleftrightarrow> (\<forall>v. x = Put v \<longrightarrow> volume_utf8 v)"

lemma New_storeFile: "New p f = (c, e) \<Longrightarrow> c_storeFile c = p"
  by (auto simp: New_def restore_def Let_def split: sum.splits prod.splits option.splits if_splits)

lemma New_utf8:
  assumes "New p f = (c, e)"
  shows "entries_utf8 (volumes c)"
proof (cases "c_Volumes c")
  case None
  then show ?thesis by (simp add: volumes_def entries_utf8_empty)
next
  case (Some m)
  with assms obtain data e' where "json_Unmarshal data None = (e', Some m)"
    by (auto simp: New_def restore_def Let_def split: sum.splits prod.splits option.splits if_splits)
  with Some Unmarshal_utf8 show ?thesis by (auto simp: volumes_def)
qed

lemma dump_clean:
  assumes ok: "fst (dump short c f) = None" and "c_storeFile c = p" and "c_Volumes c = Some m"
    and "entries_utf8 m" and "fs_deny f OpRead (pos_of f p) = None"
  shows "cache_clean p (c, snd (dump short c f))"
proof -
  obtain f' where f': "dump short c f = (None, f')" using ok by (metis prod.collapse)
  obtain data where data: "json_Marshal (Some m) = Inr data" by (simp add: json_Marshal_def)
  with f' assms(2,3) have "os_WriteFile short p data f = (None, f')"
    by (auto simp: dump_def split: prod.splits option.splits)
  from os_WriteFile_ok [OF this assms(5)] have "os_ReadFile p f' = Inr data"
    and "fs_deny f' OpRead (pos_of f' p) = None" using assms(5) by auto
  moreover from f' have "snd (dump short c f) = f'" by simp
  moreover have "c = \<lparr>c_Volumes = Some m, c_storeFile = p\<rparr>" using assms(2,3) by (cases c) simp
  ultimately show ?thesis
    using Unmarshal_Marshal [OF assms(4) data] assms(4)
    by (simp add: cache_clean_def New_def restore_def volumes_def Let_def)
qed

interpretation durable: durable_store cache_contents v_VolID "\<lambda>s. GetVolumeByID (fst s)" "cache_step short"
  "cache_reopen p" "cache_clean p" op_utf8
proof
  show "cache_reopen p s = Some s" if "cache_clean p s" for s
    using that by (simp add: cache_clean_def cache_reopen_def)
  show "cache_clean p (snd (cache_step short x s))"
    if c: "cache_clean p s" and u: "op_utf8 x" and n: "fst (cache_step short x s) = None" for x s
  proof (cases x)
    case (Put v)
    then have "utf8_valid (v_VolID v)" "volume_utf8 v" using u by (auto simp: op_utf8_def volume_utf8_def)
    with c n Put show ?thesis
      by (auto simp: cache_SetVolume_def Let_def cache_clean_def [of p s] volumes_def entries_utf8_empty
          intro!: dump_clean entries_utf8_upd dest: New_storeFile split: prod.splits)
  next
    case (Del k)
    with c n show ?thesis
      by (auto simp: cache_DeleteVolume_def Let_def cache_clean_def [of p s]
          intro!: dump_clean entries_utf8_drop dest: New_storeFile split: prod.splits)
  qed
qed

end
