(* ===== verification/Prop_Cache.thy ===== *)
theory Prop_Cache
  imports LS_Cache
begin

text \<open>
  What holds of the volume cache: what it promises to its users, and what its file keeps.
\<close>

text \<open>
  C25. A cache survives a restart: after any sequence of changes none of which reports an error,
  making a new cache from the file gives back exactly the volumes in memory, provided the strings
  of the volumes that were set are UTF-8.
\<close>

theorem cache_survives_restart:
  assumes new: "New p f = (c, None)" and read: "fs_deny f OpRead (pos_of f p) = None"
    and utf8: "\<forall>v. Put v \<in> set ops \<longrightarrow> volume_utf8 v"
    and run: "run_ops (cache_step short) ops (c, f) = (errs, c', f')" and ok: "set errs \<subseteq> {None}"
  shows "New p f' = (c', None)"
proof -
  from new read New_utf8 [OF new] have "cache_clean p (c, f)" by (simp add: cache_clean_def)
  moreover have "\<forall>x \<in> set ops. op_utf8 x" using utf8 by (auto simp: op_utf8_def)
  ultimately have "cache_clean p (c', f')"
    using durable.run_clean [of p "(c, f)" ops short] run ok by simp
  then show ?thesis by (simp add: cache_clean_def)
qed

definition sample_disk :: fs where
  "sample_disk = \<lparr>fs_cwd = [], fs_umask = 0, fs_nodes = [], fs_deny = (\<lambda>_ _. None)\<rparr>"

definition sample_volume :: Volume where
  "sample_volume = \<lparr>v_VolName = ''<a>'', v_VolID = ''1'', v_VolPath = [CHR 0xC3, CHR 0xA9],
     v_VolSize = - 5, v_NodeID = ''n'', v_Attached = True\<rparr>"

lemma sample_pos: "pos_of sample_disk ''c'' = [''c'']"
  by (simp add: pos_of_def resolve_def sample_disk_def rooted_def clean_elem_def)

lemma sample_read: "os_ReadFile ''c'' sample_disk = Inl (OsError ENOENT)"
proof -
  have "fs_find sample_disk [''c''] = None" "missing sample_disk [''c''] = OsError ENOENT"
    "fs_deny sample_disk op q = None" for op q
    by (simp_all add: sample_disk_def fs_find_def missing_def)
  then show ?thesis by (simp add: os_ReadFile_def sample_pos)
qed

lemma sample_utf8: "volume_utf8 sample_volume"
proof -
  have "utf8_valid [CHR 0xC3, CHR 0xA9]"
    using utf8_valid_sequence [OF sequence.two [of "CHR 0xC3" "CHR 0xA9"], of "[]"]
    by (simp add: in_range_def)
  then show ?thesis by (simp add: volume_utf8_def sample_volume_def utf8_valid_ascii)
qed

lemma sample_write: "fst (dump 0 (c\<lparr>c_storeFile := ''c''\<rparr>) sample_disk) = None"
  by (simp add: dump_def json_Marshal_def os_WriteFile_def sample_pos Let_def)
    (simp add: sample_disk_def fs_find_def is_dir_def)

lemma cache_survives_restart_witness:
  "\<exists>f. New ''c'' f = (\<lparr>c_Volumes = Some (fmupd ''1'' sample_volume fmempty), c_storeFile = ''c''\<rparr>, None)"
proof -
  let ?c = "\<lparr>c_Volumes = None, c_storeFile = ''c''\<rparr>"
  let ?c' = "\<lparr>c_Volumes = Some (fmupd ''1'' sample_volume fmempty), c_storeFile = ''c''\<rparr>"
  have new: "New ''c'' sample_disk = (?c, None)"
    by (simp add: New_def restore_def sample_read IsNotExist_def Let_def)
  have run: "run_ops (cache_step 0) [Put sample_volume] (?c, sample_disk) = ([None], ?c', snd (dump 0 ?c' sample_disk))"
    using sample_write [of ?c']
    by (simp add: cache_SetVolume_def Let_def volumes_def) (simp add: sample_volume_def)
  have "fs_deny sample_disk OpRead (pos_of sample_disk ''c'') = None" by (simp add: sample_disk_def)
  from cache_survives_restart [OF new this _ run] sample_utf8 show ?thesis by auto
qed

text \<open>
  C26. The cache is a map from IDs to volumes, whatever order Go visits the map in and whether or
  not writing the file succeeds: a lookup by ID finds exactly what the sequence of changes left,
  a lookup by name finds a volume with the name if there is one, and the listing has every volume
  once.
\<close>

definition iteration_order :: "(volume_map \<Rightarrow> string list) \<Rightarrow> bool" where
  "iteration_order order \<longleftrightarrow> (\<forall>m. distinct (order m) \<and> set (order m) = fset (fmdom m))"

lemma first_named_Some:
  "first_named m n ks = Some v \<Longrightarrow> v_VolName v = n \<and> (\<exists>k \<in> set ks. fmlookup m k = Some v)"
  by (induction ks) (auto split: option.splits if_splits)

lemma first_named_None:
  "first_named m n ks = None \<longleftrightarrow> (\<forall>k \<in> set ks. \<forall>v. fmlookup m k = Some v \<longrightarrow> v_VolName v \<noteq> n)"
  by (induction ks) (auto split: option.splits)

lemma listing_fold:
  "set ks \<subseteq> fset (fmdom m) \<Longrightarrow>
   fold (\<lambda>k vols. case fmlookup m k of None \<Rightarrow> vols | Some vol \<Rightarrow> vols @ [vol]) ks acc
     = acc @ map (\<lambda>k. the (fmlookup m k)) ks"
  by (induction ks arbitrary: acc) (auto simp: fmlookup_dom_iff)

theorem cache_is_a_map:
  assumes ord: "iteration_order order"
    and run: "run_ops (cache_step short) ops (c, f) = (errs, c', f')"
    and m: "m = fold (apply_op v_VolID) ops (fmlookup (volumes c))"
  shows "(\<forall>k v. GetVolumeByID c' k = Inr v \<longleftrightarrow> m k = Some v) \<and>
    (\<forall>n. (\<exists>v. GetVolumeByName order c' n = Inr v) \<longleftrightarrow> (\<exists>v \<in> ran m. v_VolName v = n)) \<and>
    (\<forall>n v. GetVolumeByName order c' n = Inr v \<longrightarrow> v \<in> ran m \<and> v_VolName v = n) \<and>
    set (cache_GetVolumes order c') = ran m \<and> length (cache_GetVolumes order c') = card (dom m)"
proof -
  have c: "fmlookup (volumes c') = m"
    using vols.run_contents [of short ops "(c, f)"] run m by (simp add: cache_contents_def)
  have o: "distinct (order (volumes c'))" "set (order (volumes c')) = dom m"
    using ord c by (auto simp: iteration_order_def fmdom'_alt_def [symmetric] fmlookup_dom'_iff dom_def)
  have "(\<exists>v. GetVolumeByName order c' n = Inr v) \<longleftrightarrow> (\<exists>v \<in> ran m. v_VolName v = n)" for n
    using first_named_None [of "volumes c'" n "order (volumes c')"] o(2) c
    by (auto simp: GetVolumeByName_def ran_def split: option.splits)
  moreover have "v \<in> ran m \<and> v_VolName v = n" if "GetVolumeByName order c' n = Inr v" for n v
    using that first_named_Some [of "volumes c'" n "order (volumes c')" v] c
    by (auto simp: GetVolumeByName_def ran_def split: option.splits)
  moreover have l: "cache_GetVolumes order c' = map (\<lambda>k. the (m k)) (order (volumes c'))"
    using listing_fold [of "order (volumes c')" "volumes c'" "[]"] ord c
    by (simp add: cache_GetVolumes_def iteration_order_def)
  moreover have "set (cache_GetVolumes order c') = ran m"
    unfolding l using o(2) by (auto simp: ran_def image_iff dom_def) (metis option.sel)
  moreover have "length (cache_GetVolumes order c') = card (dom m)"
    unfolding l using distinct_card [OF o(1)] o(2) by simp
  moreover have "GetVolumeByID c' k = Inr v \<longleftrightarrow> m k = Some v" for k v
    using vols.lookup_contents [of "(c', f')" k v] c by (simp add: cache_contents_def)
  ultimately show ?thesis by blast
qed


lemma cache_is_a_map_witness:
  "GetVolumeByID \<lparr>c_Volumes = Some (fmupd ''1'' sample_volume fmempty), c_storeFile = ''c''\<rparr> ''1'' = Inr sample_volume"
proof -
  let ?c = "\<lparr>c_Volumes = None, c_storeFile = ''c''\<rparr>"
  let ?c' = "\<lparr>c_Volumes = Some (fmupd ''1'' sample_volume fmempty), c_storeFile = ''c''\<rparr>"
  have order: "iteration_order (\<lambda>m. map fst (sorted_list_of_fmap m))"
    by (simp add: iteration_order_def sorted_list_of_fmap_keys distinct_sorted_list_of_fset)
  have run: "run_ops (cache_step 0) [Put sample_volume] (?c, sample_disk) = ([None], ?c', snd (dump 0 ?c' sample_disk))"
    using sample_write [of ?c']
    by (simp add: cache_SetVolume_def Let_def volumes_def) (simp add: sample_volume_def)
  from cache_is_a_map [OF order run refl] show ?thesis
    by (simp add: volumes_def) (simp add: sample_volume_def)
qed

text \<open>
  A change whose write is refused reports the error but stays in memory, and the file has lost
  everything it held: the write empties the file first, so that a cache cannot be made from it
  any more.
\<close>

theorem failed_write_loses_store:
  assumes op: "fs_deny f OpOpen (pos_of f p) = None" and wr: "fs_deny f OpWrite (pos_of f p) = Some e"
    and old: "os_ReadFile p f = Inr old" and c: "c_storeFile c = p"
    and run: "cache_SetVolume 0 v (c, f) = (r, c', f')"
  shows "r = Some (StatusErrorV Internal ''error writing store file: '' e) \<and>
    GetVolumeByID c' (v_VolID v) = Inr v \<and>
    New p f' = (\<lparr>c_Volumes = None, c_storeFile = p\<rparr>,
      Some (StatusErrorQ Internal ''error encoding volumes and snapshots from store file '' p '': '' json_SyntaxError))"
proof -
  have p: "c_storeFile c' = p" using run c by (auto simp: cache_SetVolume_def Let_def)
  have d: "dump 0 c' f = (r, f')" using run by (auto simp: cache_SetVolume_def Let_def)
  obtain data where data: "json_Marshal (c_Volumes c') = Inr data" by (simp add: json_Marshal_def)
  obtain r0 f0 where w: "os_WriteFile 0 p data f = (r0, f0)" by (metis prod.exhaust)
  from os_WriteFile_short [OF op wr old w] have r0: "r0 = Some e" "os_ReadFile p f0 = Inr []" by simp_all
  with d w data p have "r = Some (StatusErrorV Internal ''error writing store file: '' e)" "f' = f0"
    by (auto simp: dump_def)
  moreover have "parse_text [] = None"
    by (simp add: parse_text_def skip_space_def parse_value.simps scan_number_def scan_sign_def
        then_scan_def scan_int_def scan_digits_def cons_string_def)
  moreover have "GetVolumeByID c' (v_VolID v) = Inr v"
    using vols.lookup_put [of 0 v "(c, f)"] run by simp
  ultimately show ?thesis
    using r0 by (simp add: New_def restore_def json_Unmarshal_def)
qed

lemma failed_write_loses_store_witness:
  "\<exists>f'. snd (New ''c'' f') = Some (StatusErrorQ Internal
     ''error encoding volumes and snapshots from store file '' ''c'' '': '' json_SyntaxError)"
proof -
  let ?f = "sample_disk\<lparr>fs_nodes := [([''c''], File ''null'')],
    fs_deny := (\<lambda>op q. if op = OpWrite then Some (OsError EACCES) else None)\<rparr>"
  let ?c = "\<lparr>c_Volumes = None, c_storeFile = ''c''\<rparr>"
  have pos: "pos_of ?f ''c'' = [''c'']"
    by (simp add: pos_of_def resolve_def sample_disk_def rooted_def clean_elem_def)
  then have "os_ReadFile ''c'' ?f = Inr ''null''" by (simp add: os_ReadFile_def fs_find_def)
  moreover obtain r c' f' where "cache_SetVolume 0 sample_volume (?c, ?f) = (r, c', f')" by (metis prod.exhaust)
  ultimately have "New ''c'' f' = (\<lparr>c_Volumes = None, c_storeFile = ''c''\<rparr>, Some (StatusErrorQ Internal
      ''error encoding volumes and snapshots from store file '' ''c'' '': '' json_SyntaxError))"
    by (intro failed_write_loses_store [of ?f "''c''" "OsError EACCES" "''null''" ?c sample_volume r c' f',
          THEN conjunct2, THEN conjunct2])
      (simp_all add: pos)
  then show ?thesis by (intro exI [of _ f']) simp
qed

end
