(* ===== verification/LS_DeepCopy.thy ===== *)
theory LS_DeepCopy
  imports LS_Types
begin

text \<open>
  The generated deep copies of \<^verbatim>\<open>zz_generated.deepcopy.go\<close> on an explicit heap. Everywhere else in
  the development an object is a value and \<open>DeepCopy\<close> is the identity; here an object is what Go
  has, a struct whose pointer and slice fields are addresses of other cells, so that two objects
  may share cells, and a copy is shown to have the same value in cells of its own. The Kubernetes
  metadata, whose copying is code outside the repository, is a value.
\<close>

section \<open>The heap\<close>

type_synonym addr = nat

text \<open>A slice is the address of its array and a length; a nil pointer or slice is \<open>None\<close>.\<close>

record slice =
  sl_array :: addr
  sl_len :: nat

record LvmSpec_struct =
  hl_VolumeGroup :: string
  hl_Disks :: "slice option"

record LocalStorageSpec_struct =
  hs_Node :: string
  hs_Path :: "addr option"
  hs_Lvm :: "addr option"

record LocalStorageStatus_struct =
  ht_Phase :: LocalStoragePhase
  ht_Allocatable :: "addr option"
  ht_Capacity :: "addr option"
  ht_Volumes :: "slice option"
  ht_Mode :: LocalStorageMode
  ht_Conditions :: string

record LocalStorage_struct =
  hg_Kind :: string
  hg_APIVersion :: string
  hg_Meta :: ObjectMeta
  hg_Spec :: LocalStorageSpec_struct
  hg_Status :: LocalStorageStatus_struct

record LocalStorageList_struct =
  hi_Kind :: string
  hi_APIVersion :: string
  hi_ResourceVersion :: string
  hi_Items :: "slice option"

text \<open>What a cell holds: a struct, or the array of a slice.\<close>

datatype 'q cell =
    CellQuantity 'q
  | CellPath PathSpec
  | CellLvm LvmSpec_struct
  | CellDisk DiskSpec
  | CellVolume Volume
  | CellSpec LocalStorageSpec_struct
  | CellStatus LocalStorageStatus_struct
  | CellLocalStorage LocalStorage_struct
  | CellList LocalStorageList_struct
  | CellDisks "DiskSpec list"
  | CellVolumes "Volume list"
  | CellItems "LocalStorage_struct list"

record 'q heap =
  hp_next :: addr
  hp_cells :: "addr \<Rightarrow> 'q cell option"

text \<open>Cells beyond the allocation counter are unused.\<close>

definition well_formed :: "'q heap \<Rightarrow> bool" where
  "well_formed h \<longleftrightarrow> (\<forall>a. hp_next h \<le> a \<longrightarrow> hp_cells h a = None)"

definition alloc :: "'q cell \<Rightarrow> 'q heap \<Rightarrow> addr \<times> 'q heap" where
  "alloc c h = (hp_next h, h\<lparr>hp_next := hp_next h + 1, hp_cells := (hp_cells h)(hp_next h := Some c)\<rparr>)"

definition store :: "addr \<Rightarrow> 'q cell \<Rightarrow> 'q heap \<Rightarrow> 'q heap" where
  "store a c h = h\<lparr>hp_cells := (hp_cells h)(a := Some c)\<rparr>"


text \<open>Following a pointer to a struct of a given type.\<close>

fun as_Quantity :: "'q cell \<Rightarrow> 'q option" where
  "as_Quantity (CellQuantity x) = Some x" | "as_Quantity _ = None"
fun as_Path :: "'q cell \<Rightarrow> PathSpec option" where
  "as_Path (CellPath x) = Some x" | "as_Path _ = None"
fun as_Lvm :: "'q cell \<Rightarrow> LvmSpec_struct option" where
  "as_Lvm (CellLvm x) = Some x" | "as_Lvm _ = None"
fun as_Disk :: "'q cell \<Rightarrow> DiskSpec option" where
  "as_Disk (CellDisk x) = Some x" | "as_Disk _ = None"
fun as_Volume :: "'q cell \<Rightarrow> Volume option" where
  "as_Volume (CellVolume x) = Some x" | "as_Volume _ = None"
fun as_Spec :: "'q cell \<Rightarrow> LocalStorageSpec_struct option" where
  "as_Spec (CellSpec x) = Some x" | "as_Spec _ = None"
fun as_Status :: "'q cell \<Rightarrow> LocalStorageStatus_struct option" where
  "as_Status (CellStatus x) = Some x" | "as_Status _ = None"
fun as_LocalStorage :: "'q cell \<Rightarrow> LocalStorage_struct option" where
  "as_LocalStorage (CellLocalStorage x) = Some x" | "as_LocalStorage _ = None"
fun as_List :: "'q cell \<Rightarrow> LocalStorageList_struct option" where
  "as_List (CellList x) = Some x" | "as_List _ = None"
fun as_Disks :: "'q cell \<Rightarrow> DiskSpec list option" where
  "as_Disks (CellDisks x) = Some x" | "as_Disks _ = None"
fun as_Volumes :: "'q cell \<Rightarrow> Volume list option" where
  "as_Volumes (CellVolumes x) = Some x" | "as_Volumes _ = None"
fun as_Items :: "'q cell \<Rightarrow> LocalStorage_struct list option" where
  "as_Items (CellItems x) = Some x" | "as_Items _ = None"

definition deref :: "('q cell \<Rightarrow> 's option) \<Rightarrow> 'q heap \<Rightarrow> addr \<Rightarrow> 's option" where
  "deref as h a = (case hp_cells h a of None \<Rightarrow> None | Some c \<Rightarrow> as c)"

section \<open>The copies\<close>

text \<open>
  \<open>in\<close> is the struct copied from (a value), the result is the struct copied into; \<open>None\<close> stands
  for a pointer to no such struct, which Go does not have. \<open>copy_pointer\<close> is
  \<open>*out = new(T); **out = **in\<close>, \<open>copy_slice\<close> is \<open>*out = make([]T, len(*in)); copy(*out, *in)\<close>.
\<close>

definition copy_pointer ::
    "('q cell \<Rightarrow> 's option) \<Rightarrow> ('s \<Rightarrow> 'q cell) \<Rightarrow> addr option \<Rightarrow> 'q heap \<Rightarrow> (addr option \<times> 'q heap) option" where
  "copy_pointer as mk p h =
     (case p of
        None \<Rightarrow> Some (None, h)
      | Some a \<Rightarrow>
          (case deref as h a of
             None \<Rightarrow> None
           | Some x \<Rightarrow> let (b, h1) = alloc (mk x) h in Some (Some b, h1)))"

definition copy_slice ::
    "('q cell \<Rightarrow> 's list option) \<Rightarrow> ('s list \<Rightarrow> 'q cell) \<Rightarrow> slice option \<Rightarrow> 'q heap \<Rightarrow>
     (slice option \<times> 'q heap) option" where
  "copy_slice as mk p h =
     (case p of
        None \<Rightarrow> Some (None, h)
      | Some sl \<Rightarrow>
          (case deref as h (sl_array sl) of
             None \<Rightarrow> None
           | Some xs \<Rightarrow>
               let (b, h1) = alloc (mk (take (sl_len sl) xs)) h
               in Some (Some \<lparr>sl_array = b, sl_len = sl_len sl\<rparr>, h1)))"

definition PathSpec_DeepCopyInto :: "PathSpec \<Rightarrow> 'q heap \<Rightarrow> (PathSpec \<times> 'q heap) option" where
  "PathSpec_DeepCopyInto i h = Some (i, h)"

definition DiskSpec_DeepCopyInto :: "DiskSpec \<Rightarrow> 'q heap \<Rightarrow> (DiskSpec \<times> 'q heap) option" where
  "DiskSpec_DeepCopyInto i h = Some (i, h)"

definition Volume_DeepCopyInto :: "Volume \<Rightarrow> 'q heap \<Rightarrow> (Volume \<times> 'q heap) option" where
  "Volume_DeepCopyInto i h = Some (i, h)"

definition LvmSpec_DeepCopyInto :: "LvmSpec_struct \<Rightarrow> 'q heap \<Rightarrow> (LvmSpec_struct \<times> 'q heap) option" where
  "LvmSpec_DeepCopyInto i h =
     (case copy_slice as_Disks CellDisks (hl_Disks i) h of
        None \<Rightarrow> None
      | Some (disks, h1) \<Rightarrow> Some (i\<lparr>hl_Disks := disks\<rparr>, h1))"

text \<open>A new struct starts as a shallow copy and is filled by \<open>DeepCopyInto\<close>.\<close>

definition copy_into ::
    "('q cell \<Rightarrow> 's option) \<Rightarrow> ('s \<Rightarrow> 'q cell) \<Rightarrow> ('s \<Rightarrow> 'q heap \<Rightarrow> ('s \<times> 'q heap) option) \<Rightarrow>
     addr option \<Rightarrow> 'q heap \<Rightarrow> (addr option \<times> 'q heap) option" where
  "copy_into as mk into p h =
     (case p of
        None \<Rightarrow> Some (None, h)
      | Some a \<Rightarrow>
          (case deref as h a of
             None \<Rightarrow> None
           | Some i \<Rightarrow>
               let (b, h1) = alloc (mk i) h
               in (case into i h1 of
                     None \<Rightarrow> None
                   | Some (out, h2) \<Rightarrow> Some (Some b, store b (mk out) h2))))"

definition LocalStorageSpec_DeepCopyInto ::
    "LocalStorageSpec_struct \<Rightarrow> 'q heap \<Rightarrow> (LocalStorageSpec_struct \<times> 'q heap) option" where
  "LocalStorageSpec_DeepCopyInto i h =
     (case copy_pointer as_Path CellPath (hs_Path i) h of
        None \<Rightarrow> None
      | Some (path, h1) \<Rightarrow>
          (case copy_into as_Lvm CellLvm LvmSpec_DeepCopyInto (hs_Lvm i) h1 of
             None \<Rightarrow> None
           | Some (lvm, h2) \<Rightarrow> Some (i\<lparr>hs_Path := path, hs_Lvm := lvm\<rparr>, h2)))"

definition LocalStorageStatus_DeepCopyInto ::
    "LocalStorageStatus_struct \<Rightarrow> 'q heap \<Rightarrow> (LocalStorageStatus_struct \<times> 'q heap) option" where
  "LocalStorageStatus_DeepCopyInto i h =
     (case copy_pointer as_Quantity CellQuantity (ht_Allocatable i) h of
        None \<Rightarrow> None
      | Some (allocatable, h1) \<Rightarrow>
          (case copy_pointer as_Quantity CellQuantity (ht_Capacity i) h1 of
             None \<Rightarrow> None
           | Some (capacity, h2) \<Rightarrow>
               (case copy_slice as_Volumes CellVolumes (ht_Volumes i) h2 of
                  None \<Rightarrow> None
                | Some (vols, h3) \<Rightarrow>
                    Some (i\<lparr>ht_Allocatable := allocatable, ht_Capacity := capacity, ht_Volumes := vols\<rparr>, h3))))"

definition LocalStorage_DeepCopyInto ::
    "LocalStorage_struct \<Rightarrow> 'q heap \<Rightarrow> (LocalStorage_struct \<times> 'q heap) option" where
  "LocalStorage_DeepCopyInto i h =
     (case LocalStorageSpec_DeepCopyInto (hg_Spec i) h of
        None \<Rightarrow> None
      | Some (spec, h1) \<Rightarrow>
          (case LocalStorageStatus_DeepCopyInto (hg_Status i) h1 of
             None \<Rightarrow> None
           | Some (status, h2) \<Rightarrow> Some (i\<lparr>hg_Spec := spec, hg_Status := status\<rparr>, h2)))"

text \<open>The loop over the items of a list; the new array is there before the loop.\<close>

fun copy_items ::
    "('s \<Rightarrow> 'q heap \<Rightarrow> ('s \<times> 'q heap) option) \<Rightarrow> 's list \<Rightarrow> 'q heap \<Rightarrow> ('s list \<times> 'q heap) option" where
  "copy_items into [] h = Some ([], h)"
| "copy_items into (i # is) h =
     (case into i h of
        None \<Rightarrow> None
      | Some (out, h1) \<Rightarrow>
          (case copy_items into is h1 of
             None \<Rightarrow> None
           | Some (outs, h2) \<Rightarrow> Some (out # outs, h2)))"

definition LocalStorageList_DeepCopyInto ::
    "LocalStorageList_struct \<Rightarrow> 'q heap \<Rightarrow> (LocalStorageList_struct \<times> 'q heap) option" where
  "LocalStorageList_DeepCopyInto i h =
     (case hi_Items i of
        None \<Rightarrow> Some (i, h)
      | Some sl \<Rightarrow>
          (case deref as_Items h (sl_array sl) of
             None \<Rightarrow> None
           | Some xs \<Rightarrow>
               let items = take (sl_len sl) xs; (b, h1) = alloc (CellItems items) h
               in (case copy_items LocalStorage_DeepCopyInto items h1 of
                     None \<Rightarrow> None
                   | Some (outs, h2) \<Rightarrow>
                       Some (i\<lparr>hi_Items := Some \<lparr>sl_array = b, sl_len = sl_len sl\<rparr>\<rparr>,
                             store b (CellItems outs) h2))))"

definition PathSpec_DeepCopy :: "addr option \<Rightarrow> 'q heap \<Rightarrow> (addr option \<times> 'q heap) option" where
  "PathSpec_DeepCopy = copy_into as_Path CellPath PathSpec_DeepCopyInto"
definition DiskSpec_DeepCopy :: "addr option \<Rightarrow> 'q heap \<Rightarrow> (addr option \<times> 'q heap) option" where
  "DiskSpec_DeepCopy = copy_into as_Disk CellDisk DiskSpec_DeepCopyInto"
definition Volume_DeepCopy :: "addr option \<Rightarrow> 'q heap \<Rightarrow> (addr option \<times> 'q heap) option" where
  "Volume_DeepCopy = copy_into as_Volume CellVolume Volume_DeepCopyInto"
definition LvmSpec_DeepCopy :: "addr option \<Rightarrow> 'q heap \<Rightarrow> (addr option \<times> 'q heap) option" where
  "LvmSpec_DeepCopy = copy_into as_Lvm CellLvm LvmSpec_DeepCopyInto"
definition LocalStorageSpec_DeepCopy :: "addr option \<Rightarrow> 'q heap \<Rightarrow> (addr option \<times> 'q heap) option" where
  "LocalStorageSpec_DeepCopy = copy_into as_Spec CellSpec LocalStorageSpec_DeepCopyInto"
definition LocalStorageStatus_DeepCopy :: "addr option \<Rightarrow> 'q heap \<Rightarrow> (addr option \<times> 'q heap) option" where
  "LocalStorageStatus_DeepCopy = copy_into as_Status CellStatus LocalStorageStatus_DeepCopyInto"
definition LocalStorage_DeepCopy :: "addr option \<Rightarrow> 'q heap \<Rightarrow> (addr option \<times> 'q heap) option" where
  "LocalStorage_DeepCopy = copy_into as_LocalStorage CellLocalStorage LocalStorage_DeepCopyInto"
definition LocalStorageList_DeepCopy :: "addr option \<Rightarrow> 'q heap \<Rightarrow> (addr option \<times> 'q heap) option" where
  "LocalStorageList_DeepCopy = copy_into as_List CellList LocalStorageList_DeepCopyInto"

text \<open>\<open>DeepCopyObject\<close> wraps the copy in an interface, which is nil for a nil pointer.\<close>

definition LocalStorage_DeepCopyObject :: "addr option \<Rightarrow> 'q heap \<Rightarrow> (addr option \<times> 'q heap) option" where
  "LocalStorage_DeepCopyObject p h =
     (case LocalStorage_DeepCopy p h of
        None \<Rightarrow> None
      | Some (Some c, h1) \<Rightarrow> Some (Some c, h1)
      | Some (None, h1) \<Rightarrow> Some (None, h1))"
definition LocalStorageList_DeepCopyObject :: "addr option \<Rightarrow> 'q heap \<Rightarrow> (addr option \<times> 'q heap) option" where
  "LocalStorageList_DeepCopyObject p h =
     (case LocalStorageList_DeepCopy p h of
        None \<Rightarrow> None
      | Some (Some c, h1) \<Rightarrow> Some (Some c, h1)
      | Some (None, h1) \<Rightarrow> Some (None, h1))"

section \<open>The value of a struct\<close>

definition read_pointer :: "('q cell \<Rightarrow> 's option) \<Rightarrow> ('q heap \<Rightarrow> 's \<Rightarrow> 'v option) \<Rightarrow> 'q heap \<Rightarrow> addr option \<Rightarrow> 'v option option" where
  "read_pointer as rd h p =
     (case p of
        None \<Rightarrow> Some None
      | Some a \<Rightarrow> (case deref as h a of None \<Rightarrow> None | Some s \<Rightarrow> map_option Some (rd h s)))"

definition read_slice :: "('q cell \<Rightarrow> 's list option) \<Rightarrow> 'q heap \<Rightarrow> slice option \<Rightarrow> 's list option option" where
  "read_slice as h p =
     (case p of
        None \<Rightarrow> Some None
      | Some sl \<Rightarrow>
          (case deref as h (sl_array sl) of
             None \<Rightarrow> None
           | Some xs \<Rightarrow> if sl_len sl \<le> length xs then Some (Some (take (sl_len sl) xs)) else None))"

definition read_flat :: "'q heap \<Rightarrow> 's \<Rightarrow> 's option" where
  "read_flat h s = Some s"

definition read_Lvm :: "'q heap \<Rightarrow> LvmSpec_struct \<Rightarrow> LvmSpec option" where
  "read_Lvm h s =
     map_option (\<lambda>ds. \<lparr>lv_VolumeGroup = hl_VolumeGroup s, lv_Disks = ds\<rparr>) (read_slice as_Disks h (hl_Disks s))"

definition read_Spec :: "'q heap \<Rightarrow> LocalStorageSpec_struct \<Rightarrow> LocalStorageSpec option" where
  "read_Spec h s =
     (case (read_pointer as_Path read_flat h (hs_Path s), read_pointer as_Lvm read_Lvm h (hs_Lvm s)) of
        (Some path, Some lvm) \<Rightarrow> Some \<lparr>sp_Node = hs_Node s, sp_Path = path, sp_Lvm = lvm\<rparr>
      | _ \<Rightarrow> None)"

text \<open>The value records do not tell a nil list of volumes from an empty one.\<close>

definition read_Status :: "'q heap \<Rightarrow> LocalStorageStatus_struct \<Rightarrow> 'q LocalStorageStatus option" where
  "read_Status h s =
     (case (read_pointer as_Quantity read_flat h (ht_Allocatable s),
            read_pointer as_Quantity read_flat h (ht_Capacity s), read_slice as_Volumes h (ht_Volumes s)) of
        (Some allocatable, Some capacity, Some vols) \<Rightarrow>
          Some \<lparr>st_Phase = ht_Phase s, st_Allocatable = allocatable, st_Capacity = capacity,
                st_Volumes = (case vols of None \<Rightarrow> [] | Some vs \<Rightarrow> vs), st_Mode = ht_Mode s,
                st_Conditions = ht_Conditions s\<rparr>
      | _ \<Rightarrow> None)"

definition read_LocalStorage :: "'q heap \<Rightarrow> LocalStorage_struct \<Rightarrow> 'q LocalStorage option" where
  "read_LocalStorage h s =
     (case (read_Spec h (hg_Spec s), read_Status h (hg_Status s)) of
        (Some spec, Some status) \<Rightarrow>
          Some \<lparr>ls_Kind = hg_Kind s, ls_APIVersion = hg_APIVersion s, ls_Meta = hg_Meta s,
                ls_Spec = spec, ls_Status = status\<rparr>
      | _ \<Rightarrow> None)"

fun read_all :: "('q heap \<Rightarrow> 's \<Rightarrow> 'v option) \<Rightarrow> 'q heap \<Rightarrow> 's list \<Rightarrow> 'v list option" where
  "read_all rd h [] = Some []"
| "read_all rd h (s # ss) =
     (case (rd h s, read_all rd h ss) of (Some v, Some vs) \<Rightarrow> Some (v # vs) | _ \<Rightarrow> None)"

definition read_List :: "'q heap \<Rightarrow> LocalStorageList_struct \<Rightarrow> (string \<times> 'q LocalStorage list option) option" where
  "read_List h s =
     (case read_slice as_Items h (hi_Items s) of
        None \<Rightarrow> None
      | Some None \<Rightarrow> Some (hi_ResourceVersion s, None)
      | Some (Some is) \<Rightarrow>
          map_option (\<lambda>vs. (hi_ResourceVersion s, Some vs)) (read_all read_LocalStorage h is))"

section \<open>The cells of a struct\<close>

definition cells_pointer :: "('q cell \<Rightarrow> 's option) \<Rightarrow> ('q heap \<Rightarrow> 's \<Rightarrow> addr set) \<Rightarrow> 'q heap \<Rightarrow> addr option \<Rightarrow> addr set" where
  "cells_pointer as cs h p =
     (case p of
        None \<Rightarrow> {}
      | Some a \<Rightarrow> insert a (case deref as h a of None \<Rightarrow> {} | Some s \<Rightarrow> cs h s))"

definition cells_slice :: "slice option \<Rightarrow> addr set" where
  "cells_slice p = (case p of None \<Rightarrow> {} | Some sl \<Rightarrow> {sl_array sl})"

definition cells_flat :: "'q heap \<Rightarrow> 's \<Rightarrow> addr set" where
  "cells_flat h s = {}"

definition cells_Lvm :: "'q heap \<Rightarrow> LvmSpec_struct \<Rightarrow> addr set" where
  "cells_Lvm h s = cells_slice (hl_Disks s)"

definition cells_Spec :: "'q heap \<Rightarrow> LocalStorageSpec_struct \<Rightarrow> addr set" where
  "cells_Spec h s =
     cells_pointer as_Path cells_flat h (hs_Path s) \<union> cells_pointer as_Lvm cells_Lvm h (hs_Lvm s)"

definition cells_Status :: "'q heap \<Rightarrow> LocalStorageStatus_struct \<Rightarrow> addr set" where
  "cells_Status h s =
     cells_pointer as_Quantity cells_flat h (ht_Allocatable s) \<union>
     cells_pointer as_Quantity cells_flat h (ht_Capacity s) \<union> cells_slice (ht_Volumes s)"

definition cells_LocalStorage :: "'q heap \<Rightarrow> LocalStorage_struct \<Rightarrow> addr set" where
  "cells_LocalStorage h s = cells_Spec h (hg_Spec s) \<union> cells_Status h (hg_Status s)"

definition cells_List :: "'q heap \<Rightarrow> LocalStorageList_struct \<Rightarrow> addr set" where
  "cells_List h s =
     (case hi_Items s of
        None \<Rightarrow> {}
      | Some sl \<Rightarrow>
          insert (sl_array sl)
            (case deref as_Items h (sl_array sl) of
               None \<Rightarrow> {}
             | Some xs \<Rightarrow> \<Union> (cells_LocalStorage h ` set (take (sl_len sl) xs))))"


section \<open>The contract of a deep copy\<close>

text \<open>
  Of anything that is copied (a struct, a pointer, a slice): its value depends only on its cells,
  its cells are allocated, and the copy has the same value in newly allocated cells, with every
  cell that was there unchanged.
\<close>

definition extends :: "'q heap \<Rightarrow> 'q heap \<Rightarrow> bool" where
  "extends h h' \<longleftrightarrow> hp_next h \<le> hp_next h' \<and> (\<forall>a < hp_next h. hp_cells h' a = hp_cells h a)"

lemma extends_refl: "extends h h"
  by (simp add: extends_def)

lemma extends_trans: "extends h h1 \<Longrightarrow> extends h1 h2 \<Longrightarrow> extends h h2"
  by (auto simp: extends_def)

lemma alloc_simps:
  "fst (alloc c h) = hp_next h" "hp_next (snd (alloc c h)) = hp_next h + 1"
  "hp_cells (snd (alloc c h)) = (hp_cells h)(hp_next h := Some c)"
  by (simp_all add: alloc_def)

lemma alloc_extends: "well_formed h \<Longrightarrow> well_formed (snd (alloc c h)) \<and> extends h (snd (alloc c h))"
  by (auto simp: well_formed_def extends_def alloc_def)

lemma store_simps [simp]:
  "hp_next (store a c h) = hp_next h" "hp_cells (store a c h) = (hp_cells h)(a := Some c)"
  by (simp_all add: store_def)

lemma store_extends:
  "well_formed h \<Longrightarrow> extends h0 h \<Longrightarrow> hp_next h0 \<le> a \<Longrightarrow> a < hp_next h \<Longrightarrow>
   well_formed (store a c h) \<and> extends h0 (store a c h)"
  by (auto simp: well_formed_def extends_def)

locale deep_copy =
  fixes into :: "'s \<Rightarrow> 'q heap \<Rightarrow> ('s \<times> 'q heap) option"
    and rd :: "'q heap \<Rightarrow> 's \<Rightarrow> 'v option"
    and cs :: "'q heap \<Rightarrow> 's \<Rightarrow> addr set"
  assumes frame: "rd h s = Some v \<Longrightarrow> \<forall>a \<in> cs h s. hp_cells h' a = hp_cells h a \<Longrightarrow>
      rd h' s = Some v \<and> cs h' s = cs h s"
    and used: "well_formed h \<Longrightarrow> rd h s = Some v \<Longrightarrow> cs h s \<subseteq> {..<hp_next h}"
    and copies: "well_formed h \<Longrightarrow> rd h s = Some v \<Longrightarrow>
      \<exists>out h'. into s h = Some (out, h') \<and> well_formed h' \<and> extends h h' \<and> rd h' out = Some v \<and>
        cs h' out \<subseteq> {hp_next h..<hp_next h'}"
begin

lemma kept: "well_formed h \<Longrightarrow> rd h s = Some v \<Longrightarrow> extends h h' \<Longrightarrow> rd h' s = Some v \<and> cs h' s = cs h s"
  using used [of h s v] by (intro frame) (auto simp: extends_def)

text \<open>Whatever is written to cells of the copy, the original keeps its value, and vice versa.\<close>

lemma independent:
  assumes wf: "well_formed h" and rd: "rd h s = Some v" and into: "into s h = Some (out, h')"
  shows "rd h' s = Some v \<and> rd h' out = Some v \<and> cs h' s \<inter> cs h' out = {} \<and>
    (\<forall>a x. a \<in> cs h' out \<longrightarrow> rd (store a x h') s = Some v) \<and>
    (\<forall>a x. a \<in> cs h' s \<longrightarrow> rd (store a x h') out = Some v)"
proof -
  from copies [OF wf rd] into have c: "extends h h'" "rd h' out = Some v"
    "cs h' out \<subseteq> {hp_next h..<hp_next h'}" by auto
  from kept [OF wf rd c(1)] have k: "rd h' s = Some v" "cs h' s = cs h s" by auto
  have d: "cs h' s \<inter> cs h' out = {}" using used [OF wf rd] c(3) k(2) by fastforce
  have "rd (store a x h') s = Some v" if "a \<in> cs h' out" for a x
  proof -
    have "a \<notin> cs h' s" using that d by blast
    then show ?thesis by (intro frame [OF k(1), THEN conjunct1]) auto
  qed
  moreover have "rd (store a x h') out = Some v" if "a \<in> cs h' s" for a x
  proof -
    have "a \<notin> cs h' out" using that d by blast
    then show ?thesis by (intro frame [OF c(2), THEN conjunct1]) auto
  qed
  ultimately show ?thesis using k(1) c(2) d by blast
qed

end

section \<open>How contracts compose\<close>

lemma flat_contract: "deep_copy (\<lambda>s h. Some (s, h)) read_flat cells_flat"
  by unfold_locales (auto simp: read_flat_def cells_flat_def extends_refl)

definition cell_type :: "('q cell \<Rightarrow> 's option) \<Rightarrow> ('s \<Rightarrow> 'q cell) \<Rightarrow> bool" where
  "cell_type as mk \<longleftrightarrow> (\<forall>s. as (mk s) = Some s)"

lemma cell_types:
  "cell_type as_Quantity CellQuantity" "cell_type as_Path CellPath" "cell_type as_Lvm CellLvm"
  "cell_type as_Disk CellDisk" "cell_type as_Volume CellVolume" "cell_type as_Spec CellSpec"
  "cell_type as_Status CellStatus" "cell_type as_LocalStorage CellLocalStorage"
  "cell_type as_List CellList" "cell_type as_Disks CellDisks" "cell_type as_Volumes CellVolumes"
  "cell_type as_Items CellItems"
  by (simp_all add: cell_type_def)

lemma deref_used: "well_formed h \<Longrightarrow> deref as h a = Some s \<Longrightarrow> a < hp_next h"
  unfolding well_formed_def deref_def by (metis not_le option.case(1) option.distinct(1))

lemma deref_cong: "hp_cells h' a = hp_cells h a \<Longrightarrow> deref as h' a = deref as h a"
  by (simp add: deref_def)

lemma read_pointer_Some:
  "read_pointer as rd h (Some a) = Some v \<longleftrightarrow> (\<exists>s w. deref as h a = Some s \<and> rd h s = Some w \<and> v = Some w)"
  by (auto simp: read_pointer_def split: option.splits)

lemma copy_into_copies:
  assumes c: "deep_copy into rd cs" and t: "cell_type as mk" and wf: "well_formed h"
    and i: "deref as h a = Some i" "rd h i = Some v"
  shows "\<exists>out h'. copy_into as mk into (Some a) h = Some (out, h') \<and> well_formed h' \<and> extends h h' \<and>
    read_pointer as rd h' out = Some (Some v) \<and> cells_pointer as cs h' out \<subseteq> {hp_next h..<hp_next h'}"
proof -
  let ?b = "hp_next h" and ?h1 = "snd (alloc (mk i) h)"
  have h1: "well_formed ?h1" "extends h ?h1" using alloc_extends [OF wf] by auto
  have "rd ?h1 i = Some v" using deep_copy.kept [OF c wf i(2) h1(2)] by simp
  from deep_copy.copies [OF c h1(1) this] obtain out h2 where o: "into i ?h1 = Some (out, h2)"
    "well_formed h2" "extends ?h1 h2" "rd h2 out = Some v" "cs h2 out \<subseteq> {?b + 1..<hp_next h2}"
    by (auto simp: alloc_simps)
  have b: "?b < hp_next h2" using o(3) by (simp add: extends_def alloc_simps)
  have "\<forall>a \<in> cs h2 out. hp_cells (store ?b (mk out) h2) a = hp_cells h2 a" using o(5) by auto
  from deep_copy.frame [OF c o(4) this] have r: "rd (store ?b (mk out) h2) out = Some v"
    "cs (store ?b (mk out) h2) out = cs h2 out" by auto
  have d: "deref as (store ?b (mk out) h2) ?b = Some out" using t by (simp add: deref_def cell_type_def)
  have "copy_into as mk into (Some a) h = Some (Some ?b, store ?b (mk out) h2)"
    using i o(1) by (simp add: copy_into_def alloc_def)
  moreover have "well_formed (store ?b (mk out) h2) \<and> extends h (store ?b (mk out) h2)"
    using store_extends [OF o(2) extends_trans [OF h1(2) o(3)]] b by simp
  moreover have "cells_pointer as cs (store ?b (mk out) h2) (Some ?b) \<subseteq> {hp_next h..<hp_next h2}"
    using d r(2) o(5) b by (auto simp: cells_pointer_def)
  ultimately show ?thesis using d r(1) by (auto simp: read_pointer_Some)
qed

lemma pointer_contract:
  assumes c: "deep_copy into rd cs" and t: "cell_type as mk"
  shows "deep_copy (copy_into as mk into) (read_pointer as rd) (cells_pointer as cs)"
proof (unfold_locales, goal_cases)
  case (1 h p v h')
  show ?case
  proof (cases p)
    case None
    with 1 show ?thesis by (simp add: read_pointer_def cells_pointer_def)
  next
    case (Some a)
    with 1(1) obtain s w where s: "deref as h a = Some s" "rd h s = Some w" "v = Some w"
      by (auto simp: read_pointer_Some)
    with 1(2) Some have "deref as h' a = Some s" "\<forall>a \<in> cs h s. hp_cells h' a = hp_cells h a"
      using deref_cong [of h' a h as] by (auto simp: cells_pointer_def)
    with deep_copy.frame [OF c s(2), of h'] have "rd h' s = Some w" "cs h' s = cs h s" by auto
    with s Some \<open>deref as h' a = Some s\<close> show ?thesis by (simp add: read_pointer_def cells_pointer_def)
  qed
next
  case (2 h p v)
  show ?case
  proof (cases p)
    case (Some a)
    with 2(2) obtain s w where s: "deref as h a = Some s" "rd h s = Some w"
      by (auto simp: read_pointer_Some)
    with Some deref_used [OF 2(1) s(1)] deep_copy.used [OF c 2(1) s(2)] show ?thesis
      by (auto simp: cells_pointer_def)
  qed (simp add: cells_pointer_def)
next
  case (3 h p v)
  show ?case
  proof (cases p)
    case None
    with 3 show ?thesis by (simp add: copy_into_def read_pointer_def cells_pointer_def extends_refl)
  next
    case (Some a)
    with 3(2) obtain s w where "deref as h a = Some s" "rd h s = Some w" "v = Some w"
      by (auto simp: read_pointer_Some)
    with copy_into_copies [OF c t 3(1)] Some show ?thesis by blast
  qed
qed

lemma copy_pointer_into:
  "copy_pointer as mk = copy_into as mk (\<lambda>s h. Some (s, h))"
proof -
  have "store (hp_next h) (mk x) (snd (alloc (mk x) h)) = snd (alloc (mk x) h)" for x h
    by (simp add: store_def alloc_def)
  then show ?thesis
    by (auto simp: fun_eq_iff copy_pointer_def copy_into_def alloc_def split: option.splits)
qed

lemma slice_contract:
  assumes t: "cell_type as mk"
  shows "deep_copy (copy_slice as mk) (read_slice as) (\<lambda>h. cells_slice)"
proof (unfold_locales, goal_cases)
  case (1 h p v h')
  then show ?case
    using deref_cong [of h' _ h as] by (cases p) (auto simp: read_slice_def cells_slice_def)
next
  case (2 h p v)
  then show ?case
    by (cases p) (auto simp: read_slice_def cells_slice_def split: option.splits dest: deref_used)
next
  case (3 h p v)
  show ?case
  proof (cases p)
    case None
    with 3 show ?thesis by (simp add: copy_slice_def read_slice_def cells_slice_def extends_refl)
  next
    case (Some sl)
    with 3(2) obtain xs where xs: "deref as h (sl_array sl) = Some xs" "sl_len sl \<le> length xs"
      "v = Some (take (sl_len sl) xs)"
      by (auto simp: read_slice_def split: option.splits if_splits)
    let ?c = "mk (take (sl_len sl) xs)" and ?p = "Some \<lparr>sl_array = hp_next h, sl_len = sl_len sl\<rparr>"
    have "copy_slice as mk p h = Some (?p, snd (alloc ?c h))"
      using Some xs by (simp add: copy_slice_def alloc_def)
    moreover have "read_slice as (snd (alloc ?c h)) ?p = Some v"
      using t xs by (simp add: read_slice_def deref_def alloc_simps cell_type_def)
    moreover have "cells_slice ?p \<subseteq> {hp_next h..<hp_next (snd (alloc ?c h))}"
      by (simp add: cells_slice_def alloc_simps)
    ultimately show ?thesis using alloc_extends [OF 3(1), of ?c] by blast
  qed
qed

text \<open>Two parts copied one after the other.\<close>

definition copy_both ::
    "('s \<Rightarrow> 'q heap \<Rightarrow> ('s \<times> 'q heap) option) \<Rightarrow> ('t \<Rightarrow> 'q heap \<Rightarrow> ('t \<times> 'q heap) option) \<Rightarrow>
     's \<times> 't \<Rightarrow> 'q heap \<Rightarrow> (('s \<times> 't) \<times> 'q heap) option" where
  "copy_both f g p h =
     (case f (fst p) h of
        None \<Rightarrow> None
      | Some (s, h1) \<Rightarrow> (case g (snd p) h1 of None \<Rightarrow> None | Some (t, h2) \<Rightarrow> Some ((s, t), h2)))"

definition read_both ::
    "('q heap \<Rightarrow> 's \<Rightarrow> 'v option) \<Rightarrow> ('q heap \<Rightarrow> 't \<Rightarrow> 'w option) \<Rightarrow> 'q heap \<Rightarrow> 's \<times> 't \<Rightarrow> ('v \<times> 'w) option" where
  "read_both r q h p =
     (case (r h (fst p), q h (snd p)) of (Some v, Some w) \<Rightarrow> Some (v, w) | _ \<Rightarrow> None)"

lemma read_both_Some:
  "read_both r q h p = Some x \<longleftrightarrow> r h (fst p) = Some (fst x) \<and> q h (snd p) = Some (snd x)"
  by (cases x) (auto simp: read_both_def split: option.splits)

lemma both_contract:
  assumes a: "deep_copy f r c" and b: "deep_copy g q d"
  shows "deep_copy (copy_both f g) (read_both r q) (\<lambda>h p. c h (fst p) \<union> d h (snd p))"
proof (unfold_locales, goal_cases)
  case (1 h p v h')
  then show ?case
    using deep_copy.frame [OF a, of h "fst p" "fst v" h'] deep_copy.frame [OF b, of h "snd p" "snd v" h']
    by (simp add: read_both_Some)
next
  case (2 h p v)
  then show ?case
    using deep_copy.used [OF a, of h "fst p"] deep_copy.used [OF b, of h "snd p"]
    by (simp add: read_both_Some)
next
  case (3 h p v)
  then have v: "r h (fst p) = Some (fst v)" "q h (snd p) = Some (snd v)" by (auto simp: read_both_Some)
  from deep_copy.copies [OF a 3(1) v(1)] obtain s h1 where s: "f (fst p) h = Some (s, h1)"
    "well_formed h1" "extends h h1" "r h1 s = Some (fst v)" "c h1 s \<subseteq> {hp_next h..<hp_next h1}" by blast
  have "q h1 (snd p) = Some (snd v)" using deep_copy.kept [OF b 3(1) v(2) s(3)] by simp
  from deep_copy.copies [OF b s(2) this] obtain t h2 where t: "g (snd p) h1 = Some (t, h2)"
    "well_formed h2" "extends h1 h2" "q h2 t = Some (snd v)" "d h2 t \<subseteq> {hp_next h1..<hp_next h2}" by blast
  from deep_copy.kept [OF a s(2,4) t(3)] have k: "r h2 s = Some (fst v)" "c h2 s = c h1 s" by auto
  have "copy_both f g p h = Some ((s, t), h2)" using s t by (simp add: copy_both_def)
  moreover have "c h2 s \<union> d h2 t \<subseteq> {hp_next h..<hp_next h2}"
    using s(3,5) t(3,5) k(2) by (fastforce simp: extends_def)
  ultimately show ?case using t k extends_trans [OF s(3) t(3)] by (auto simp: read_both_Some)
qed

text \<open>A struct whose parts \<open>get\<close> reads and \<open>put\<close> replaces.\<close>

lemma struct_contract:
  assumes c: "deep_copy into rd cs"
    and into: "\<And>s h. into' s h = map_option (\<lambda>r. (put (fst r) s, snd r)) (into (get s) h)"
    and rd: "\<And>h s. rd' h s = map_option (mk s) (rd h (get s))"
    and cs: "\<And>h s. cs' h s = cs h (get s)"
    and get: "\<And>x s. get (put x s) = x" and mk: "\<And>x s. mk (put x s) = mk s"
  shows "deep_copy into' rd' cs'"
proof (unfold_locales, goal_cases)
  case (1 h s v h')
  then obtain w where w: "rd h (get s) = Some w" "v = mk s w" by (auto simp: rd)
  with 1(2) deep_copy.frame [OF c w(1), of h'] show ?case by (simp add: rd cs)
next
  case (2 h s v)
  then show ?case using deep_copy.used [OF c 2(1)] by (auto simp: rd cs)
next
  case (3 h s v)
  then obtain w where w: "rd h (get s) = Some w" "v = mk s w" by (auto simp: rd)
  from deep_copy.copies [OF c 3(1) w(1)] w(2) show ?case
    by (auto simp: into rd cs get mk)
qed


text \<open>The elements of a slice, one after the other.\<close>

lemma read_all_value: "read_all rd h ss = Some vs \<Longrightarrow> s \<in> set ss \<Longrightarrow> \<exists>w. rd h s = Some w"
  by (induction ss arbitrary: vs) (auto split: option.splits)

lemma read_all_cong: "(\<And>s. s \<in> set ss \<Longrightarrow> rd h' s = rd h s) \<Longrightarrow> read_all rd h' ss = read_all rd h ss"
  by (induction ss) auto

lemma read_all_Cons:
  "read_all rd h (s # ss) = Some vs \<longleftrightarrow>
     (\<exists>v ws. vs = v # ws \<and> rd h s = Some v \<and> read_all rd h ss = Some ws)"
  by (auto split: option.splits)

lemma items_copies:
  assumes c: "deep_copy into rd cs"
  shows "well_formed h \<Longrightarrow> read_all rd h ss = Some vs \<Longrightarrow>
    \<exists>outs h'. copy_items into ss h = Some (outs, h') \<and> well_formed h' \<and> extends h h' \<and>
      read_all rd h' outs = Some vs \<and> \<Union> (cs h' ` set outs) \<subseteq> {hp_next h..<hp_next h'}"
proof (induction ss arbitrary: h vs)
  case Nil
  then show ?case by (simp add: extends_refl)
next
  case (Cons s ss)
  from Cons.prems(2) obtain v ws where v: "vs = v # ws" "rd h s = Some v" "read_all rd h ss = Some ws"
    unfolding read_all_Cons by blast
  from deep_copy.copies [OF c Cons.prems(1) v(2)] obtain out h1 where o: "into s h = Some (out, h1)"
    "well_formed h1" "extends h h1" "rd h1 out = Some v" "cs h1 out \<subseteq> {hp_next h..<hp_next h1}" by blast
  have "rd h1 t = rd h t" if "t \<in> set ss" for t
    using read_all_value [OF v(3) that] deep_copy.kept [OF c Cons.prems(1) _ o(3), of t] by auto
  then have "read_all rd h1 ss = Some ws" using v(3) read_all_cong [of ss rd h1 h] by simp
  from Cons.IH [OF o(2) this] obtain outs h2 where os: "copy_items into ss h1 = Some (outs, h2)"
    "well_formed h2" "extends h1 h2" "read_all rd h2 outs = Some ws"
    "\<Union> (cs h2 ` set outs) \<subseteq> {hp_next h1..<hp_next h2}" by blast
  from deep_copy.kept [OF c o(2,4) os(3)] have k: "rd h2 out = Some v" "cs h2 out = cs h1 out" by auto
  have "cs h2 out \<subseteq> {hp_next h..<hp_next h2}"
    using k(2) o(5) os(3) ivl_subset [of "hp_next h" "hp_next h1" "hp_next h" "hp_next h2"]
    by (auto simp: extends_def)
  moreover have "\<Union> (cs h2 ` set outs) \<subseteq> {hp_next h..<hp_next h2}"
    using os(5) o(3) by (auto simp: extends_def)
  moreover have "copy_items into (s # ss) h = Some (out # outs, h2)" using o os by simp
  moreover have "read_all rd h2 (out # outs) = Some vs" using k os v by simp
  ultimately show ?case
    using os(2) extends_trans [OF o(3) os(3)] by (intro exI [of _ "out # outs"] exI [of _ h2]) simp
qed

lemma items_contract:
  assumes c: "deep_copy into rd cs"
  shows "deep_copy (copy_items into) (read_all rd) (\<lambda>h ss. \<Union> (cs h ` set ss))"
proof (unfold_locales, goal_cases)
  case (1 h ss vs h')
  have *: "rd h' s = rd h s \<and> cs h' s = cs h s" if s: "s \<in> set ss" for s
  proof -
    obtain w where w: "rd h s = Some w" using read_all_value [OF 1(1) s] by blast
    have "\<forall>a \<in> cs h s. hp_cells h' a = hp_cells h a" using 1(2) s by blast
    from deep_copy.frame [OF c w this] w show ?thesis by simp
  qed
  then have "read_all rd h' ss = Some vs" using 1(1) read_all_cong [of ss rd h' h] by simp
  moreover have "\<Union> (cs h' ` set ss) = \<Union> (cs h ` set ss)" using * by (intro SUP_cong) auto
  ultimately show ?case by simp
next
  case (2 h ss vs)
  have "cs h s \<subseteq> {..<hp_next h}" if "s \<in> set ss" for s
    using read_all_value [OF 2(2) that] deep_copy.used [OF c 2(1), of s] by blast
  then show ?case by blast
next
  case (3 h ss vs)
  from items_copies [OF c this] show ?case .
qed

section \<open>The generated copies keep the contract\<close>

lemmas disks_contract = slice_contract [OF cell_types(10)]
lemmas volumes_contract = slice_contract [OF cell_types(11)]
lemmas quantity_contract = pointer_contract [OF flat_contract cell_types(1), folded copy_pointer_into]
lemmas path_contract = pointer_contract [OF flat_contract cell_types(2), folded copy_pointer_into]

interpretation lvm: deep_copy LvmSpec_DeepCopyInto read_Lvm cells_Lvm
  by (rule struct_contract [OF disks_contract, where get = hl_Disks and put = "\<lambda>x s. s\<lparr>hl_Disks := x\<rparr>"
        and mk = "\<lambda>s ds. \<lparr>lv_VolumeGroup = hl_VolumeGroup s, lv_Disks = ds\<rparr>"])
    (simp_all add: LvmSpec_DeepCopyInto_def read_Lvm_def cells_Lvm_def split: option.splits)

interpretation lvm_ptr: deep_copy "copy_into as_Lvm CellLvm LvmSpec_DeepCopyInto"
  "read_pointer as_Lvm read_Lvm" "cells_pointer as_Lvm cells_Lvm"
  by (rule pointer_contract [OF lvm.deep_copy_axioms cell_types(3)])

interpretation spec: deep_copy LocalStorageSpec_DeepCopyInto read_Spec cells_Spec
  by (rule struct_contract [OF both_contract [OF path_contract lvm_ptr.deep_copy_axioms],
        where get = "\<lambda>s. (hs_Path s, hs_Lvm s)" and put = "\<lambda>x s. s\<lparr>hs_Path := fst x, hs_Lvm := snd x\<rparr>"
        and mk = "\<lambda>s x. \<lparr>sp_Node = hs_Node s, sp_Path = fst x, sp_Lvm = snd x\<rparr>"])
    (auto simp: LocalStorageSpec_DeepCopyInto_def read_Spec_def cells_Spec_def copy_both_def read_both_def
      split: option.splits)

interpretation status: deep_copy LocalStorageStatus_DeepCopyInto read_Status cells_Status
  by (rule struct_contract [OF both_contract [OF both_contract [OF quantity_contract quantity_contract]
          volumes_contract],
        where get = "\<lambda>s. ((ht_Allocatable s, ht_Capacity s), ht_Volumes s)"
        and put = "\<lambda>x s. s\<lparr>ht_Allocatable := fst (fst x), ht_Capacity := snd (fst x), ht_Volumes := snd x\<rparr>"
        and mk = "\<lambda>s x. \<lparr>st_Phase = ht_Phase s, st_Allocatable = fst (fst x), st_Capacity = snd (fst x),
                st_Volumes = (case snd x of None \<Rightarrow> [] | Some vs \<Rightarrow> vs), st_Mode = ht_Mode s,
                st_Conditions = ht_Conditions s\<rparr>"])
    (auto simp: LocalStorageStatus_DeepCopyInto_def read_Status_def cells_Status_def copy_both_def read_both_def
      split: option.splits)

interpretation object: deep_copy LocalStorage_DeepCopyInto read_LocalStorage cells_LocalStorage
  by (rule struct_contract [OF both_contract [OF spec.deep_copy_axioms status.deep_copy_axioms],
        where get = "\<lambda>s. (hg_Spec s, hg_Status s)" and put = "\<lambda>x s. s\<lparr>hg_Spec := fst x, hg_Status := snd x\<rparr>"
        and mk = "\<lambda>s x. \<lparr>ls_Kind = hg_Kind s, ls_APIVersion = hg_APIVersion s, ls_Meta = hg_Meta s,
                ls_Spec = fst x, ls_Status = snd x\<rparr>"])
    (auto simp: LocalStorage_DeepCopyInto_def read_LocalStorage_def cells_LocalStorage_def copy_both_def
      read_both_def split: option.splits)

interpretation object_ptr: deep_copy LocalStorage_DeepCopy
  "read_pointer as_LocalStorage read_LocalStorage" "cells_pointer as_LocalStorage cells_LocalStorage"
  unfolding LocalStorage_DeepCopy_def
  by (rule pointer_contract [OF object.deep_copy_axioms cell_types(8)])

interpretation items: deep_copy "copy_items LocalStorage_DeepCopyInto" "read_all read_LocalStorage"
  "\<lambda>h ss. \<Union> (cells_LocalStorage h ` set ss)"
  by (rule items_contract [OF object.deep_copy_axioms])


lemma read_List_Items:
  assumes "read_List h s = Some v" and "hi_Items s = Some sl"
  obtains xs vs where "deref as_Items h (sl_array sl) = Some xs" "sl_len sl \<le> length xs"
    "read_all read_LocalStorage h (take (sl_len sl) xs) = Some vs" "v = (hi_ResourceVersion s, Some vs)"
  using assms by (auto simp: read_List_def read_slice_def split: option.splits if_splits)

lemma read_List_I:
  "hi_Items s = Some sl \<Longrightarrow> deref as_Items h (sl_array sl) = Some xs \<Longrightarrow> sl_len sl \<le> length xs \<Longrightarrow>
   read_all read_LocalStorage h (take (sl_len sl) xs) = Some vs \<Longrightarrow>
   read_List h s = Some (hi_ResourceVersion s, Some vs)"
  by (simp add: read_List_def read_slice_def)

lemma cells_List_I:
  "hi_Items s = Some sl \<Longrightarrow> deref as_Items h (sl_array sl) = Some xs \<Longrightarrow>
   cells_List h s = insert (sl_array sl) (\<Union> (cells_LocalStorage h ` set (take (sl_len sl) xs)))"
  by (simp add: cells_List_def)

lemma list_copies:
  assumes wf: "well_formed h" and rd: "read_List h s = Some v" and sl: "hi_Items s = Some sl"
  shows "\<exists>out h'. LocalStorageList_DeepCopyInto s h = Some (out, h') \<and> well_formed h' \<and> extends h h' \<and>
    read_List h' out = Some v \<and> cells_List h' out \<subseteq> {hp_next h..<hp_next h'}"
proof -
  obtain xs vs where xs: "deref as_Items h (sl_array sl) = Some xs" "sl_len sl \<le> length xs"
    "read_all read_LocalStorage h (take (sl_len sl) xs) = Some vs" "v = (hi_ResourceVersion s, Some vs)"
    using read_List_Items [OF rd sl] by blast
  let ?is = "take (sl_len sl) xs" and ?b = "hp_next h"
  let ?h1 = "snd (alloc (CellItems ?is) h)" and ?o = "s\<lparr>hi_Items := Some \<lparr>sl_array = ?b, sl_len = sl_len sl\<rparr>\<rparr>"
  have h1: "well_formed ?h1" "extends h ?h1" using alloc_extends [OF wf] by auto
  have "read_all read_LocalStorage ?h1 ?is = Some vs" using items.kept [OF wf xs(3) h1(2)] by simp
  from items.copies [OF h1(1) this] obtain outs h2 where o: "copy_items LocalStorage_DeepCopyInto ?is ?h1 = Some (outs, h2)"
    "well_formed h2" "extends ?h1 h2" "read_all read_LocalStorage h2 outs = Some vs"
    "\<Union> (cells_LocalStorage h2 ` set outs) \<subseteq> {hp_next ?h1..<hp_next h2}" by blast
  let ?h3 = "store ?b (CellItems outs) h2"
  have b: "?b < hp_next h2" using o(3) by (simp add: extends_def alloc_simps)
  have "\<forall>a \<in> \<Union> (cells_LocalStorage h2 ` set outs). hp_cells ?h3 a = hp_cells h2 a"
    using o(5) by (auto simp: alloc_simps)
  from items.frame [OF o(4) this] have r: "read_all read_LocalStorage ?h3 outs = Some vs"
    "\<Union> (cells_LocalStorage ?h3 ` set outs) = \<Union> (cells_LocalStorage h2 ` set outs)" by auto
  have len: "length outs = sl_len sl"
  proof -
    have "length ws = length ss" if "read_all rd h ss = Some ws"
      for rd :: "'b heap \<Rightarrow> LocalStorage_struct \<Rightarrow> 'c option" and h ss ws
      using that by (induction ss arbitrary: ws) (auto split: option.splits)
    from this [OF xs(3)] this [OF o(4)] xs(2) show ?thesis by simp
  qed
  have d: "deref as_Items ?h3 ?b = Some outs" by (simp add: deref_def)
  have "LocalStorageList_DeepCopyInto s h = Some (?o, ?h3)"
    using sl xs(1) o(1) by (simp add: LocalStorageList_DeepCopyInto_def alloc_def Let_def)
  moreover have "well_formed ?h3 \<and> extends h ?h3"
    using store_extends [OF o(2) extends_trans [OF h1(2) o(3)]] b by simp
  moreover have "read_List ?h3 ?o = Some v"
    using read_List_I [of ?o _ ?h3 outs vs] d r(1) len xs(4) by simp
  moreover have "cells_List ?h3 ?o \<subseteq> {hp_next h..<hp_next ?h3}"
    using cells_List_I [of ?o _ ?h3 outs] d r(2) o(5) b len by (auto simp: alloc_simps)
  ultimately show ?thesis by blast
qed

interpretation lists: deep_copy LocalStorageList_DeepCopyInto read_List cells_List
proof (unfold_locales, goal_cases)
  case (1 h s v h')
  show ?case
  proof (cases "hi_Items s")
    case None
    with 1 show ?thesis by (simp add: read_List_def read_slice_def cells_List_def)
  next
    case (Some sl)
    obtain xs vs where xs: "deref as_Items h (sl_array sl) = Some xs" "sl_len sl \<le> length xs"
      "read_all read_LocalStorage h (take (sl_len sl) xs) = Some vs" "v = (hi_ResourceVersion s, Some vs)"
      using read_List_Items [OF 1(1) Some] by blast
    have c: "\<forall>a \<in> insert (sl_array sl) (\<Union> (cells_LocalStorage h ` set (take (sl_len sl) xs))).
        hp_cells h' a = hp_cells h a"
      using 1(2) cells_List_I [OF Some xs(1)] by simp
    then have d: "deref as_Items h' (sl_array sl) = Some xs" using xs(1) deref_cong [of h' "sl_array sl" h as_Items] by simp
    from c have "\<forall>a \<in> \<Union> (cells_LocalStorage h ` set (take (sl_len sl) xs)). hp_cells h' a = hp_cells h a" by blast
    from items.frame [OF xs(3) this] show ?thesis
      using read_List_I [OF Some d xs(2)] cells_List_I [OF Some d] cells_List_I [OF Some xs(1)] xs(4) by simp
  qed
next
  case (2 h s v)
  show ?case
  proof (cases "hi_Items s")
    case None
    then show ?thesis by (simp add: cells_List_def)
  next
    case (Some sl)
    obtain xs vs where xs: "deref as_Items h (sl_array sl) = Some xs"
      "read_all read_LocalStorage h (take (sl_len sl) xs) = Some vs"
      using read_List_Items [OF 2(2) Some] by blast
    show ?thesis
      using cells_List_I [OF Some xs(1)] deref_used [OF 2(1) xs(1)] items.used [OF 2(1) xs(2)] by auto
  qed
next
  case (3 h s v)
  show ?case
  proof (cases "hi_Items s")
    case None
    with 3 show ?thesis
      by (simp add: LocalStorageList_DeepCopyInto_def read_List_def read_slice_def cells_List_def extends_refl)
  next
    case (Some sl)
    from list_copies [OF 3 this] show ?thesis .
  qed
qed

interpretation list_ptr: deep_copy LocalStorageList_DeepCopy "read_pointer as_List read_List"
  "cells_pointer as_List cells_List"
  unfolding LocalStorageList_DeepCopy_def
  by (rule pointer_contract [OF lists.deep_copy_axioms cell_types(9)])

end
