(* ===== verification/Prop_DeepCopy.thy ===== *)
theory Prop_DeepCopy
  imports LS_DeepCopy
begin

text \<open>
  What the generated deep copies guarantee: a copy with the same value that shares nothing. It is
  what allows the rest of the development to treat an object as a value.
\<close>

text \<open>The object and its cells behind a pointer.\<close>

definition object_at :: "'q heap \<Rightarrow> addr option \<Rightarrow> 'q LocalStorage option option" where
  "object_at = read_pointer as_LocalStorage read_LocalStorage"

definition object_cells :: "'q heap \<Rightarrow> addr option \<Rightarrow> addr set" where
  "object_cells = cells_pointer as_LocalStorage cells_LocalStorage"

text \<open>
  C20. \<open>DeepCopy\<close> of a localstorage always succeeds and returns an object with the same value in
  cells that were all unused before; nothing that was there changes. So no write to a cell of the
  copy changes the value of the original, and no write to a cell of the original changes the
  copy, also when the original shares cells between its own fields. \<open>DeepCopyObject\<close> returns the
  same.
\<close>

theorem DeepCopy_independent:
  assumes wf: "well_formed h" and obj: "object_at h p = Some v"
  shows "\<exists>out h'. LocalStorage_DeepCopy p h = Some (out, h') \<and>
    LocalStorage_DeepCopyObject p h = Some (out, h') \<and>
    object_at h' out = Some v \<and> object_at h' p = Some v \<and>
    object_cells h' out \<subseteq> {hp_next h..<hp_next h'} \<and>
    (\<forall>a < hp_next h. hp_cells h' a = hp_cells h a) \<and>
    (\<forall>a c. a \<in> object_cells h' out \<longrightarrow> object_at (store a c h') p = Some v) \<and>
    (\<forall>a c. a \<in> object_cells h' p \<longrightarrow> object_at (store a c h') out = Some v)"
proof -
  from object_ptr.copies [OF wf, of p v] obj obtain out h' where c: "LocalStorage_DeepCopy p h = Some (out, h')"
    "extends h h'" "object_cells h' out \<subseteq> {hp_next h..<hp_next h'}"
    unfolding object_at_def object_cells_def by blast
  from object_ptr.independent [OF wf obj [unfolded object_at_def] c(1)] show ?thesis
    using c by (intro exI [of _ out] exI [of _ h'])
      (auto simp: object_at_def object_cells_def LocalStorage_DeepCopyObject_def extends_def split: option.splits)
qed

text \<open>An object as initialisation leaves it: both quantities are the same cell.\<close>

definition shared_heap :: "nat heap" where
  "shared_heap = \<lparr>hp_next = 3,
     hp_cells = [0 \<mapsto> CellQuantity 7, 1 \<mapsto> CellVolumes [],
       2 \<mapsto> CellLocalStorage \<lparr>hg_Kind = [], hg_APIVersion = [],
         hg_Meta = \<lparr>om_Name = ''n'', om_ResourceVersion = ''1'', om_Annotations = Map.empty,
                    om_Finalizers = [], om_DeletionTimestamp = None\<rparr>,
         hg_Spec = \<lparr>hs_Node = ''n'', hs_Path = None, hs_Lvm = None\<rparr>,
         hg_Status = \<lparr>ht_Phase = LocalStorageReady, ht_Allocatable = Some 0, ht_Capacity = Some 0,
                      ht_Volumes = Some \<lparr>sl_array = 1, sl_len = 0\<rparr>, ht_Mode = [], ht_Conditions = []\<rparr>\<rparr>]\<rparr>"

lemma DeepCopy_independent_witness:
  "\<exists>out h'. LocalStorage_DeepCopy (Some 2) shared_heap = Some (out, h') \<and> object_cells h' out \<subseteq> {3..<hp_next h'}"
proof -
  have wf: "well_formed shared_heap" by (simp add: well_formed_def shared_heap_def)
  obtain v where "object_at shared_heap (Some 2) = Some v"
    by (simp add: object_at_def read_pointer_def deref_def shared_heap_def read_LocalStorage_def
        read_Spec_def read_Status_def read_slice_def read_flat_def)
  from DeepCopy_independent [OF wf this] show ?thesis by (auto simp: shared_heap_def)
qed

text \<open>
  The same of a list of localstorages: the copied list has the same items, nil if and only if
  the original has none, and writing to one leaves the other.
\<close>

theorem ListDeepCopy_independent:
  assumes wf: "well_formed h" and list: "read_pointer as_List read_List h p = Some v"
  shows "\<exists>out h'. LocalStorageList_DeepCopy p h = Some (out, h') \<and>
    read_pointer as_List read_List h' out = Some v \<and>
    cells_pointer as_List cells_List h' p \<inter> cells_pointer as_List cells_List h' out = {} \<and>
    (\<forall>a c. a \<in> cells_pointer as_List cells_List h' out \<longrightarrow>
       read_pointer as_List read_List (store a c h') p = Some v)"
proof -
  from list_ptr.copies [OF wf list] obtain out h' where c: "LocalStorageList_DeepCopy p h = Some (out, h')"
    by blast
  from list_ptr.independent [OF wf list c] show ?thesis
    using c by (intro exI [of _ out] exI [of _ h']) simp
qed

lemma ListDeepCopy_independent_witness:
  "\<exists>out h'. LocalStorageList_DeepCopy (Some 0)
     \<lparr>hp_next = 1, hp_cells = [0 \<mapsto> CellList \<lparr>hi_Kind = [], hi_APIVersion = [], hi_ResourceVersion = ''7'', hi_Items = None\<rparr>]\<rparr>
     = Some (out, h') \<and> read_pointer as_List read_List h' out = Some (Some (''7'', None :: nat LocalStorage list option))"
proof -
  let ?h = "\<lparr>hp_next = 1, hp_cells = [0 \<mapsto> CellList \<lparr>hi_Kind = [], hi_APIVersion = [], hi_ResourceVersion = ''7'', hi_Items = None\<rparr>]\<rparr> :: nat heap"
  have wf: "well_formed ?h" by (simp add: well_formed_def)
  have "read_pointer as_List read_List ?h (Some 0) = Some (Some (''7'', None))"
    by (simp add: read_pointer_def deref_def read_List_def read_slice_def)
  from ListDeepCopy_independent [OF wf this] show ?thesis by blast
qed

end
