(* ===== verification/LS_Client.thy ===== *)
theory LS_Client
  imports LS_Services
begin

text \<open>
  The generated typed client of \<^verbatim>\<open>pkg/client/clientset/versioned\<close>: the requests each of its methods
  builds, the construction of a client set, and the fact that a client whose server keeps to what
  Kubernetes documents is one of the services the rest of the program relies on. The REST client
  itself is code outside the repository.
\<close>

section \<open>Group and version\<close>

text \<open>\<^verbatim>\<open>pkg/apis/localstorage\<close>: the names under which the types are registered.\<close>

definition GroupName :: string where "GroupName = ''storage.caoyingjunz.io''"

record group_version =
  gv_Group :: string
  gv_Version :: string

definition SchemeGroupVersion :: group_version where
  "SchemeGroupVersion = \<lparr>gv_Group = GroupName, gv_Version = ''v1''\<rparr>"

text \<open>A qualified name: of a kind or of a resource.\<close>

definition Kind :: "string \<Rightarrow> string \<times> string" where
  "Kind kind = (gv_Group SchemeGroupVersion, kind)"
definition Resource :: "string \<Rightarrow> string \<times> string" where
  "Resource resource = (gv_Group SchemeGroupVersion, resource)"

text \<open>\<open>known\<close> is \<open>AddKnownTypes\<close> of the library's scheme, for types given by name, \<open>versioned\<close> is
  \<open>metav1.AddToGroupVersion\<close>.\<close>

definition addKnownTypes ::
    "(group_version \<Rightarrow> string list \<Rightarrow> 's \<Rightarrow> 's) \<Rightarrow> (group_version \<Rightarrow> 's \<Rightarrow> 's) \<Rightarrow> 's \<Rightarrow>
     gerror option \<times> 's" where
  "addKnownTypes known versioned scheme =
     (None, versioned SchemeGroupVersion
              (known SchemeGroupVersion [''LocalStorage'', ''LocalStorageList''] scheme))"

section \<open>Requests\<close>

text \<open>The list options the client reads; everything else in the options of a call is passed through
  unread and is a parameter \<open>'o\<close>. A duration is in nanoseconds.\<close>

record 'o list_options =
  lo_TimeoutSeconds :: "int64 option"
  lo_Watch :: bool
  lo_Rest :: 'o

datatype 'o call_options = CallOptions 'o | ListOptions "'o list_options"

datatype verb = GET | POST | PUT | DELETE | PATCH string

datatype ('q, 'o) body = NoBody | ObjectBody "'q LocalStorage" | OptionsBody 'o | DataBody string

record ('q, 'o) request =
  rq_Verb :: verb
  rq_Resource :: string
  rq_Name :: "string option"
  rq_SubResource :: "string list"
  rq_Params :: "'o call_options option"
  rq_Timeout :: "int64 option"
  rq_Body :: "('q, 'o) body"

definition new_request :: "verb \<Rightarrow> ('q, 'o) request" where
  "new_request v = \<lparr>rq_Verb = v, rq_Resource = [], rq_Name = None, rq_SubResource = [],
     rq_Params = None, rq_Timeout = None, rq_Body = NoBody\<rparr>"

text \<open>\<open>time.Duration(n) * time.Second\<close> wraps around.\<close>

definition time_Second :: int64 where "time_Second = 1000000000"

definition list_timeout :: "'o list_options \<Rightarrow> int64" where
  "list_timeout opts = (case lo_TimeoutSeconds opts of None \<Rightarrow> 0 | Some n \<Rightarrow> n * time_Second)"

definition Get_request :: "string \<Rightarrow> 'o \<Rightarrow> ('q, 'o) request" where
  "Get_request name opts = (new_request GET)\<lparr>rq_Resource := ''localstorages'', rq_Name := Some name,
     rq_Params := Some (CallOptions opts)\<rparr>"

definition List_request :: "'o list_options \<Rightarrow> ('q, 'o) request" where
  "List_request opts = (new_request GET)\<lparr>rq_Resource := ''localstorages'',
     rq_Params := Some (ListOptions opts), rq_Timeout := Some (list_timeout opts)\<rparr>"

definition Watch_request :: "'o list_options \<Rightarrow> ('q, 'o) request" where
  "Watch_request opts =
     (let timeout = list_timeout opts; opts1 = opts\<lparr>lo_Watch := True\<rparr>
      in (new_request GET)\<lparr>rq_Resource := ''localstorages'',
           rq_Params := Some (ListOptions opts1), rq_Timeout := Some timeout\<rparr>)"

definition Create_request :: "'q LocalStorage \<Rightarrow> 'o \<Rightarrow> ('q, 'o) request" where
  "Create_request l opts = (new_request POST)\<lparr>rq_Resource := ''localstorages'',
     rq_Params := Some (CallOptions opts), rq_Body := ObjectBody l\<rparr>"

definition Update_request :: "'q LocalStorage \<Rightarrow> 'o \<Rightarrow> ('q, 'o) request" where
  "Update_request l opts = (new_request PUT)\<lparr>rq_Resource := ''localstorages'', rq_Name := Some (ls_Name l),
     rq_Params := Some (CallOptions opts), rq_Body := ObjectBody l\<rparr>"

definition UpdateStatus_request :: "'q LocalStorage \<Rightarrow> 'o \<Rightarrow> ('q, 'o) request" where
  "UpdateStatus_request l opts = (new_request PUT)\<lparr>rq_Resource := ''localstorages'', rq_Name := Some (ls_Name l),
     rq_SubResource := [''status''], rq_Params := Some (CallOptions opts), rq_Body := ObjectBody l\<rparr>"

definition Delete_request :: "string \<Rightarrow> 'o \<Rightarrow> ('q, 'o) request" where
  "Delete_request name opts = (new_request DELETE)\<lparr>rq_Resource := ''localstorages'', rq_Name := Some name,
     rq_Body := OptionsBody opts\<rparr>"

definition DeleteCollection_request :: "'o \<Rightarrow> 'o list_options \<Rightarrow> ('q, 'o) request" where
  "DeleteCollection_request opts listOpts = (new_request DELETE)\<lparr>rq_Resource := ''localstorages'',
     rq_Params := Some (ListOptions listOpts), rq_Timeout := Some (list_timeout listOpts),
     rq_Body := OptionsBody opts\<rparr>"

definition Patch_request :: "string \<Rightarrow> string \<Rightarrow> string \<Rightarrow> 'o \<Rightarrow> string list \<Rightarrow> ('q, 'o) request" where
  "Patch_request name pt data opts subresources = (new_request (PATCH pt))\<lparr>rq_Resource := ''localstorages'',
     rq_Name := Some name, rq_SubResource := subresources, rq_Params := Some (CallOptions opts),
     rq_Body := DataBody data\<rparr>"

text \<open>\<open>Do(ctx).Into(result)\<close> of the REST client decodes an object or a list, or gives an error.\<close>

record ('q, 'o, 'a) rest =
  rs_Object :: "('q, 'o) request \<Rightarrow> 'a \<Rightarrow> (gerror + 'q LocalStorage) \<times> 'a"
  rs_List :: "('q, 'o) request \<Rightarrow> 'a \<Rightarrow> gerror + 'q LocalStorage list"
  rs_Error :: "('q, 'o) request \<Rightarrow> 'a \<Rightarrow> gerror option \<times> 'a"

definition client_Get :: "('q, 'o, 'a) rest \<Rightarrow> string \<Rightarrow> 'o \<Rightarrow> 'a \<Rightarrow> (gerror + 'q LocalStorage) \<times> 'a" where
  "client_Get R name opts = rs_Object R (Get_request name opts)"
definition client_List :: "('q, 'o, 'a) rest \<Rightarrow> 'o list_options \<Rightarrow> 'a \<Rightarrow> gerror + 'q LocalStorage list" where
  "client_List R opts = rs_List R (List_request opts)"
definition client_Create :: "('q, 'o, 'a) rest \<Rightarrow> 'q LocalStorage \<Rightarrow> 'o \<Rightarrow> 'a \<Rightarrow> (gerror + 'q LocalStorage) \<times> 'a" where
  "client_Create R l opts = rs_Object R (Create_request l opts)"
definition client_Update :: "('q, 'o, 'a) rest \<Rightarrow> 'q LocalStorage \<Rightarrow> 'o \<Rightarrow> 'a \<Rightarrow> (gerror + 'q LocalStorage) \<times> 'a" where
  "client_Update R l opts = rs_Object R (Update_request l opts)"
definition client_UpdateStatus :: "('q, 'o, 'a) rest \<Rightarrow> 'q LocalStorage \<Rightarrow> 'o \<Rightarrow> 'a \<Rightarrow> (gerror + 'q LocalStorage) \<times> 'a" where
  "client_UpdateStatus R l opts = rs_Object R (UpdateStatus_request l opts)"
definition client_Delete :: "('q, 'o, 'a) rest \<Rightarrow> string \<Rightarrow> 'o \<Rightarrow> 'a \<Rightarrow> gerror option \<times> 'a" where
  "client_Delete R name opts = rs_Error R (Delete_request name opts)"
definition client_DeleteCollection :: "('q, 'o, 'a) rest \<Rightarrow> 'o \<Rightarrow> 'o list_options \<Rightarrow> 'a \<Rightarrow> gerror option \<times> 'a" where
  "client_DeleteCollection R opts listOpts = rs_Error R (DeleteCollection_request opts listOpts)"
definition client_Patch :: "('q, 'o, 'a) rest \<Rightarrow> string \<Rightarrow> string \<Rightarrow> string \<Rightarrow> 'o \<Rightarrow> string list \<Rightarrow> 'a \<Rightarrow> (gerror + 'q LocalStorage) \<times> 'a" where
  "client_Patch R name pt data opts subresources = rs_Object R (Patch_request name pt data opts subresources)"

section \<open>The client as a service\<close>

text \<open>The services of \<open>LS_Services\<close> with the three calls of the program made by the client; \<open>zero\<close> is
  the zero value of the options.\<close>

definition client_services ::
    "('q, 'o, 'a) rest \<Rightarrow> 'o \<Rightarrow> ('q, 'a) services \<Rightarrow> ('q, 'a) services" where
  "client_services R zero S = S\<lparr>
     sv_Update := (\<lambda>l. client_Update R l zero),
     sv_Create := (\<lambda>l. client_Create R l zero),
     sv_List := client_List R \<lparr>lo_TimeoutSeconds = None, lo_Watch = False, lo_Rest = zero\<rparr>\<rparr>"

text \<open>
  What the API server does with a request for a cluster-scoped custom resource, as Kubernetes
  documents it. \<open>D\<close> lists the subresources that the resource's definition declares; the one in
  \<^verbatim>\<open>deploy/crds\<close> declares none. Of the options of a call the server reads whether the call is a dry
  run; of those of a list, which objects it selects, and whether it asks for all of them as they
  are stored (no page, no watch, no older version).
\<close>

record ('q, 'o) option_reading =
  or_DryRun :: "'o \<Rightarrow> bool"
  or_Complete :: "'o \<Rightarrow> bool"
  or_Selects :: "'o \<Rightarrow> 'q LocalStorage \<Rightarrow> bool"

text \<open>The zero value of the options: no dry run, no page, no selector.\<close>

definition plain_options :: "('q, 'o) option_reading \<Rightarrow> 'o \<Rightarrow> bool" where
  "plain_options M z \<longleftrightarrow> \<not> or_DryRun M z \<and> or_Complete M z \<and> (\<forall>l. or_Selects M z l)"

text \<open>
  What a request that the server carries out does to the stored objects: a PUT to an object
  replaces it if the version is the current one, but for the status when that is a subresource; a
  PUT to the status replaces just that; a POST stores a new object under a free name; a DELETE
  removes the object, or marks it while it has finalizers; a PATCH replaces one object; a GET and
  a dry run change nothing.
\<close>

inductive server_effect ::
    "('q, 'o) option_reading \<Rightarrow> string list \<Rightarrow> ('q, 'o) request \<Rightarrow>
     (string \<rightharpoonup> 'q LocalStorage) \<Rightarrow> (string \<rightharpoonup> 'q LocalStorage) \<Rightarrow> bool"
  for M D rq m where
  got: "rq_Verb rq = GET \<Longrightarrow> server_effect M D rq m m"
| dry: "rq_Params rq = Some (CallOptions z) \<Longrightarrow> or_DryRun M z \<Longrightarrow> server_effect M D rq m m"
| put: "rq_Verb rq = PUT \<Longrightarrow> rq_Name rq = Some n \<Longrightarrow> rq_SubResource rq = [] \<Longrightarrow> rq_Body rq = ObjectBody obj \<Longrightarrow>
     ls_Name obj = n \<Longrightarrow> m n = Some cur \<Longrightarrow> ls_Version obj = ls_Version cur \<Longrightarrow>
     ls_Name new = n \<Longrightarrow> ls_Spec new = ls_Spec obj \<Longrightarrow>
     ls_Status new = (if ''status'' \<in> set D then ls_Status cur else ls_Status obj) \<Longrightarrow>
     server_effect M D rq m (m(n \<mapsto> new))"
| put_status: "rq_Verb rq = PUT \<Longrightarrow> rq_Name rq = Some n \<Longrightarrow> rq_SubResource rq = [''status''] \<Longrightarrow> ''status'' \<in> set D \<Longrightarrow>
     rq_Body rq = ObjectBody obj \<Longrightarrow> ls_Name obj = n \<Longrightarrow> m n = Some cur \<Longrightarrow> ls_Version obj = ls_Version cur \<Longrightarrow>
     ls_Name new = n \<Longrightarrow> ls_Spec new = ls_Spec cur \<Longrightarrow> ls_Status new = ls_Status obj \<Longrightarrow>
     server_effect M D rq m (m(n \<mapsto> new))"
| post: "rq_Verb rq = POST \<Longrightarrow> rq_Name rq = None \<Longrightarrow> rq_SubResource rq = [] \<Longrightarrow> rq_Body rq = ObjectBody obj \<Longrightarrow>
     m (ls_Name obj) = None \<Longrightarrow> ls_Name new = ls_Name obj \<Longrightarrow> ls_Spec new = ls_Spec obj \<Longrightarrow>
     server_effect M D rq m (m(ls_Name obj \<mapsto> new))"
| delete: "rq_Verb rq = DELETE \<Longrightarrow> rq_Name rq = Some n \<Longrightarrow> rq_SubResource rq = [] \<Longrightarrow>
     server_effect M D rq m (m(n := None))"
| mark: "rq_Verb rq = DELETE \<Longrightarrow> rq_Name rq = Some n \<Longrightarrow> rq_SubResource rq = [] \<Longrightarrow> m n = Some cur \<Longrightarrow>
     applied cur new \<Longrightarrow> server_effect M D rq m (m(n \<mapsto> new))"
| delete_all: "rq_Verb rq = DELETE \<Longrightarrow> rq_Name rq = None \<Longrightarrow> m' \<subseteq>\<^sub>m m \<Longrightarrow> server_effect M D rq m m'"
| patch: "rq_Verb rq = PATCH pt \<Longrightarrow> rq_Name rq = Some n \<Longrightarrow> m n \<noteq> None \<Longrightarrow> ls_Name new = n \<Longrightarrow>
     server_effect M D rq m (m(n \<mapsto> new))"

text \<open>
  A request is refused or lost, which is an error and changes nothing, or carried out, and then the
  reply may still be lost. A list that asks for everything it selects gets that.
\<close>

definition rest_contract ::
    "('q, 'o) option_reading \<Rightarrow> string list \<Rightarrow> ('q, 'o, 'a) rest \<Rightarrow> ('a \<Rightarrow> string \<rightharpoonup> 'q LocalStorage) \<Rightarrow> bool" where
  "rest_contract M D R stored \<longleftrightarrow>
     (\<forall>rq a r a'. rs_Object R rq a = (r, a') \<longrightarrow>
        ((\<exists>e. r = Inl e) \<and> stored a' = stored a) \<or> server_effect M D rq (stored a) (stored a')) \<and>
     (\<forall>rq a r a'. rs_Error R rq a = (r, a') \<longrightarrow>
        (r \<noteq> None \<and> stored a' = stored a) \<or> server_effect M D rq (stored a) (stored a')) \<and>
     (\<forall>rq opts a items. rs_List R rq a = Inr items \<longrightarrow> rq_Verb rq = GET \<longrightarrow> rq_Name rq = None \<longrightarrow>
        rq_Params rq = Some (ListOptions opts) \<longrightarrow> \<not> lo_Watch opts \<longrightarrow> or_Complete M (lo_Rest opts) \<longrightarrow>
        set items = {l \<in> ran (stored a). or_Selects M (lo_Rest opts) l})"

lemma object_reply:
  assumes "rest_contract M D R stored" and "rs_Object R rq a = (r, a')"
  obtains (failed) e where "r = Inl e" "stored a' = stored a"
  | (carried) "server_effect M D rq (stored a) (stored a')"
  using assms unfolding rest_contract_def by blast

lemmas request_defs = new_request_def Get_request_def List_request_def Watch_request_def
  Create_request_def Update_request_def UpdateStatus_request_def Delete_request_def
  DeleteCollection_request_def Patch_request_def

section \<open>Client sets\<close>

text \<open>The fields of a REST configuration the constructors read or set; \<open>rc_OwnCodecs\<close> tells whether
  \<open>NegotiatedSerializer\<close> is \<open>scheme.Codecs.WithoutConversion()\<close> of the client set.\<close>

record 'k rest_config =
  rc_UserAgent :: string
  rc_QPS :: rat
  rc_Burst :: int
  rc_RateLimiter :: "'k option"
  rc_GroupVersion :: "group_version option"
  rc_APIPath :: string
  rc_OwnCodecs :: bool

text \<open>
  The libraries: \<open>cl_UserAgent\<close> is \<open>rest.DefaultKubernetesUserAgent()\<close>, \<open>cl_HTTP\<close> is
  \<open>rest.HTTPClientFor\<close>, \<open>cl_Limiter\<close> makes a token bucket, \<open>cl_REST\<close> is
  \<open>rest.RESTClientForConfigAndClient\<close>, \<open>cl_Discovery\<close> the discovery client's constructor.
\<close>

record ('k, 'h, 'r, 'd) client_library =
  cl_UserAgent :: string
  cl_HTTP :: "'k rest_config \<Rightarrow> gerror + 'h"
  cl_Limiter :: "rat \<Rightarrow> int \<Rightarrow> 'k"
  cl_REST :: "'k rest_config \<Rightarrow> 'h \<Rightarrow> gerror + 'r"
  cl_Discovery :: "'k rest_config \<Rightarrow> 'h \<Rightarrow> gerror + 'd"

definition setConfigDefaults ::
    "('k, 'h, 'r, 'd) client_library \<Rightarrow> 'k rest_config \<Rightarrow> 'k rest_config" where
  "setConfigDefaults L config =
     (let c1 = config\<lparr>rc_GroupVersion := Some SchemeGroupVersion, rc_APIPath := ''/apis'',
                      rc_OwnCodecs := True\<rparr>
      in if rc_UserAgent c1 = [] then c1\<lparr>rc_UserAgent := cl_UserAgent L\<rparr> else c1)"

text \<open>The receiver of \<open>RESTClient\<close> and \<open>Discovery\<close> may be nil, which is \<open>None\<close>.\<close>

record 'r StorageV1Client =
  sv1_restClient :: 'r

definition storagev1_New :: "'r \<Rightarrow> 'r StorageV1Client" where
  "storagev1_New c = \<lparr>sv1_restClient = c\<rparr>"

definition storagev1_RESTClient :: "'r StorageV1Client option \<Rightarrow> 'r option" where
  "storagev1_RESTClient c = (case c of None \<Rightarrow> None | Some cl \<Rightarrow> Some (sv1_restClient cl))"

record 'r localStorages =
  lc_client :: "'r option"

definition newLocalStorages :: "'r StorageV1Client option \<Rightarrow> 'r localStorages" where
  "newLocalStorages c = \<lparr>lc_client = storagev1_RESTClient c\<rparr>"

definition storagev1_LocalStorages :: "'r StorageV1Client option \<Rightarrow> 'r localStorages" where
  "storagev1_LocalStorages c = newLocalStorages c"

definition storagev1_NewForConfigAndClient ::
    "('k, 'h, 'r, 'd) client_library \<Rightarrow> 'k rest_config \<Rightarrow> 'h \<Rightarrow> gerror + 'r StorageV1Client" where
  "storagev1_NewForConfigAndClient L c h =
     (case cl_REST L (setConfigDefaults L c) h of
        Inl err \<Rightarrow> Inl err
      | Inr client \<Rightarrow> Inr \<lparr>sv1_restClient = client\<rparr>)"

definition storagev1_NewForConfig ::
    "('k, 'h, 'r, 'd) client_library \<Rightarrow> 'k rest_config \<Rightarrow> gerror + 'r StorageV1Client" where
  "storagev1_NewForConfig L c =
     (let config = setConfigDefaults L c
      in case cl_HTTP L config of
           Inl err \<Rightarrow> Inl err
         | Inr h \<Rightarrow> storagev1_NewForConfigAndClient L config h)"

definition storagev1_NewForConfigOrDie ::
    "('k, 'h, 'r, 'd) client_library \<Rightarrow> 'k rest_config \<Rightarrow> 'r StorageV1Client outcome" where
  "storagev1_NewForConfigOrDie L c =
     (case storagev1_NewForConfig L c of Inl _ \<Rightarrow> Panic | Inr r \<Rightarrow> Ret r)"

record ('r, 'd) clientset =
  cs_storageV1 :: "'r StorageV1Client option"
  cs_Discovery :: 'd

definition clientset_StorageV1 :: "('r, 'd) clientset \<Rightarrow> 'r StorageV1Client option" where
  "clientset_StorageV1 c = cs_storageV1 c"

definition clientset_Discovery :: "('r, 'd) clientset option \<Rightarrow> 'd option" where
  "clientset_Discovery c = (case c of None \<Rightarrow> None | Some cs \<Rightarrow> Some (cs_Discovery cs))"

text \<open>\<open>discovery\<close> is \<open>discovery.NewDiscoveryClient\<close>.\<close>

definition clientset_New :: "('r \<Rightarrow> 'd) \<Rightarrow> 'r \<Rightarrow> ('r, 'd) clientset" where
  "clientset_New discovery c = \<lparr>cs_storageV1 = Some (storagev1_New c), cs_Discovery = discovery c\<rparr>"

definition NewForConfigAndClient ::
    "('k, 'h, 'r, 'd) client_library \<Rightarrow> 'k rest_config \<Rightarrow> 'h \<Rightarrow> gerror + ('r, 'd) clientset" where
  "NewForConfigAndClient L c h =
     (let needs_limiter = (rc_RateLimiter c = None \<and> 0 < rc_QPS c)
      in if needs_limiter \<and> rc_Burst c \<le> 0 then
           Inl (FmtError ''burst is required to be greater than 0 when RateLimiter is not set and QPS is set to greater than 0'')
         else
           let c1 = (if needs_limiter then c\<lparr>rc_RateLimiter := Some (cl_Limiter L (rc_QPS c) (rc_Burst c))\<rparr> else c)
           in (case storagev1_NewForConfigAndClient L c1 h of
                 Inl err \<Rightarrow> Inl err
               | Inr r \<Rightarrow>
                   (case cl_Discovery L c1 h of
                      Inl err \<Rightarrow> Inl err
                    | Inr d \<Rightarrow> Inr \<lparr>cs_storageV1 = Some r, cs_Discovery = d\<rparr>)))"

definition NewForConfig ::
    "('k, 'h, 'r, 'd) client_library \<Rightarrow> 'k rest_config \<Rightarrow> gerror + ('r, 'd) clientset" where
  "NewForConfig L c =
     (let c1 = (if rc_UserAgent c = [] then c\<lparr>rc_UserAgent := cl_UserAgent L\<rparr> else c)
      in case cl_HTTP L c1 of Inl err \<Rightarrow> Inl err | Inr h \<Rightarrow> NewForConfigAndClient L c1 h)"

definition NewForConfigOrDie ::
    "('k, 'h, 'r, 'd) client_library \<Rightarrow> 'k rest_config \<Rightarrow> ('r, 'd) clientset outcome" where
  "NewForConfigOrDie L c = (case NewForConfig L c of Inl _ \<Rightarrow> Panic | Inr cs \<Rightarrow> Ret cs)"

end
