(* ===== verification/LS_Informers.thy ===== *)
theory LS_Informers
  imports LS_Client "HOL-Library.Finite_Map"
begin

text \<open>
  The generated informer factory of \<^verbatim>\<open>pkg/client/informers/externalversions\<close>: one informer per
  type, made when it is first asked for, and started at most once. Every method of the factory
  holds its lock, so each is a step. Go visits a map in an order of its own choice: the order is
  the argument \<open>order\<close>. The informers themselves are code outside the repository; an informer is
  the arguments it was made with, and its identity.
\<close>

section \<open>Informers\<close>

type_synonym 'o tweak = "'o list_options \<Rightarrow> 'o list_options"

text \<open>Types are named by their type name.\<close>

record ('c, 'o) informer =
  in_id :: nat
  in_client :: 'c
  in_type :: string
  in_resync :: int64
  in_indexers :: "string list"
  in_tweak :: "'o tweak option"

definition LocalStorage_type :: string where
  "LocalStorage_type = ''*v1.LocalStorage''"

definition NamespaceIndex :: string where
  "NamespaceIndex = ''namespace''"

definition apply_tweak :: "'o tweak option \<Rightarrow> 'o list_options \<Rightarrow> 'o list_options" where
  "apply_tweak t opts = (case t of None \<Rightarrow> opts | Some f \<Rightarrow> f opts)"

text \<open>The list and watch functions of the informer: the requests they send.\<close>

definition ListFunc :: "'o tweak option \<Rightarrow> 'o list_options \<Rightarrow> ('q, 'o) request" where
  "ListFunc t opts = List_request (apply_tweak t opts)"
definition WatchFunc :: "'o tweak option \<Rightarrow> 'o list_options \<Rightarrow> ('q, 'o) request" where
  "WatchFunc t opts = Watch_request (apply_tweak t opts)"

text \<open>\<open>new_id\<close> is the identity of the informer that is made.\<close>

definition NewFilteredLocalStorageInformer ::
    "'c \<Rightarrow> int64 \<Rightarrow> string list \<Rightarrow> 'o tweak option \<Rightarrow> nat \<Rightarrow> ('c, 'o) informer" where
  "NewFilteredLocalStorageInformer client resyncPeriod indexers t new_id =
     \<lparr>in_id = new_id, in_client = client, in_type = LocalStorage_type, in_resync = resyncPeriod,
      in_indexers = indexers, in_tweak = t\<rparr>"

definition NewLocalStorageInformer ::
    "'c \<Rightarrow> int64 \<Rightarrow> string list \<Rightarrow> nat \<Rightarrow> ('c, 'o) informer" where
  "NewLocalStorageInformer client resyncPeriod indexers =
     NewFilteredLocalStorageInformer client resyncPeriod indexers None"

definition defaultInformer :: "'o tweak option \<Rightarrow> 'c \<Rightarrow> int64 \<Rightarrow> nat \<Rightarrow> ('c, 'o) informer" where
  "defaultInformer t client resyncPeriod =
     NewFilteredLocalStorageInformer client resyncPeriod [NamespaceIndex] t"

section \<open>The factory\<close>

text \<open>\<open>sf_running\<close> is the list of informers whose goroutine was started, \<open>sf_next\<close> the next identity.\<close>

record ('c, 'o) factory =
  sf_client :: 'c
  sf_namespace :: string
  sf_tweak :: "'o tweak option"
  sf_defaultResync :: int64
  sf_customResync :: "string \<rightharpoonup> int64"
  sf_informers :: "(string, ('c, 'o) informer) fmap"
  sf_started :: "string \<Rightarrow> bool"
  sf_running :: "('c, 'o) informer list"
  sf_next :: nat

type_synonym ('c, 'o) factory_option = "('c, 'o) factory \<Rightarrow> ('c, 'o) factory"
type_synonym ('c, 'o) map_order = "(string, ('c, 'o) informer) fmap \<Rightarrow> string list"

definition WithCustomResyncConfig :: "(string \<times> int64) list \<Rightarrow> ('c, 'o) factory_option" where
  "WithCustomResyncConfig resyncConfig f =
     fold (\<lambda>e f. f\<lparr>sf_customResync := (sf_customResync f)(fst e \<mapsto> snd e)\<rparr>) resyncConfig f"

definition WithTweakListOptions :: "'o tweak option \<Rightarrow> ('c, 'o) factory_option" where
  "WithTweakListOptions t f = f\<lparr>sf_tweak := t\<rparr>"

definition WithNamespace :: "string \<Rightarrow> ('c, 'o) factory_option" where
  "WithNamespace namespace f = f\<lparr>sf_namespace := namespace\<rparr>"

definition NewSharedInformerFactoryWithOptions ::
    "'c \<Rightarrow> int64 \<Rightarrow> ('c, 'o) factory_option list \<Rightarrow> ('c, 'o) factory" where
  "NewSharedInformerFactoryWithOptions client defaultResync options =
     fold (\<lambda>opt f. opt f) options
       \<lparr>sf_client = client, sf_namespace = [], sf_tweak = None, sf_defaultResync = defaultResync,
        sf_customResync = Map.empty, sf_informers = fmempty, sf_started = (\<lambda>_. False),
        sf_running = [], sf_next = 0\<rparr>"

definition NewSharedInformerFactory :: "'c \<Rightarrow> int64 \<Rightarrow> ('c, 'o) factory" where
  "NewSharedInformerFactory client defaultResync =
     NewSharedInformerFactoryWithOptions client defaultResync []"

definition NewFilteredSharedInformerFactory ::
    "'c \<Rightarrow> int64 \<Rightarrow> string \<Rightarrow> 'o tweak option \<Rightarrow> ('c, 'o) factory" where
  "NewFilteredSharedInformerFactory client defaultResync namespace t =
     NewSharedInformerFactoryWithOptions client defaultResync
       [WithNamespace namespace, WithTweakListOptions t]"

definition start_one :: "string \<Rightarrow> ('c, 'o) factory \<Rightarrow> ('c, 'o) factory" where
  "start_one informerType f =
     (case fmlookup (sf_informers f) informerType of
        None \<Rightarrow> f
      | Some informer \<Rightarrow>
          if \<not> sf_started f informerType
          then f\<lparr>sf_running := sf_running f @ [informer],
                 sf_started := (sf_started f)(informerType := True)\<rparr>
          else f)"

definition factory_Start :: "('c, 'o) map_order \<Rightarrow> ('c, 'o) factory \<Rightarrow> ('c, 'o) factory" where
  "factory_Start order f = fold start_one (order (sf_informers f)) f"

text \<open>\<open>synced\<close> is the answer of \<open>cache.WaitForCacheSync\<close> for an informer.\<close>

definition WaitForCacheSync ::
    "('c, 'o) map_order \<Rightarrow> (('c, 'o) informer \<Rightarrow> bool) \<Rightarrow> ('c, 'o) factory \<Rightarrow> (string, bool) fmap" where
  "WaitForCacheSync order synced f =
     (let informers = fold (\<lambda>t m. case fmlookup (sf_informers f) t of
              None \<Rightarrow> m
            | Some informer \<Rightarrow> if sf_started f t then fmupd t informer m else m)
            (order (sf_informers f)) fmempty
      in fold (\<lambda>t res. case fmlookup informers t of
              None \<Rightarrow> res | Some informer \<Rightarrow> fmupd t (synced informer) res)
            (order informers) fmempty)"

definition InformerFor ::
    "string \<Rightarrow> ('c \<Rightarrow> int64 \<Rightarrow> nat \<Rightarrow> ('c, 'o) informer) \<Rightarrow> ('c, 'o) factory \<Rightarrow>
     ('c, 'o) informer \<times> ('c, 'o) factory" where
  "InformerFor informerType newFunc f =
     (case fmlookup (sf_informers f) informerType of
        Some informer \<Rightarrow> (informer, f)
      | None \<Rightarrow>
          (let resyncPeriod = (case sf_customResync f informerType of
                                 None \<Rightarrow> sf_defaultResync f | Some d \<Rightarrow> d);
               informer = newFunc (sf_client f) resyncPeriod (sf_next f)
           in (informer, f\<lparr>sf_informers := fmupd informerType informer (sf_informers f),
                           sf_next := sf_next f + 1\<rparr>)))"

section \<open>Access by group and version\<close>

text \<open>
  The chain \<open>Storage().V1().LocalStorages()\<close>. Its links hold the factory by reference (here the
  factory is the state the calls read and change) and pass namespace and tweak on.
\<close>

record 'o informer_group =
  gp_namespace :: string
  gp_tweak :: "'o tweak option"

record 'o informer_version =
  vs_namespace :: string
  vs_tweak :: "'o tweak option"

record 'o localStorageInformer =
  li_tweak :: "'o tweak option"

definition group_New :: "string \<Rightarrow> 'o tweak option \<Rightarrow> 'o informer_group" where
  "group_New namespace t = \<lparr>gp_namespace = namespace, gp_tweak = t\<rparr>"

definition version_New :: "string \<Rightarrow> 'o tweak option \<Rightarrow> 'o informer_version" where
  "version_New namespace t = \<lparr>vs_namespace = namespace, vs_tweak = t\<rparr>"

definition factory_Storage :: "('c, 'o) factory \<Rightarrow> 'o informer_group" where
  "factory_Storage f = group_New (sf_namespace f) (sf_tweak f)"

definition group_V1 :: "'o informer_group \<Rightarrow> 'o informer_version" where
  "group_V1 g = version_New (gp_namespace g) (gp_tweak g)"

definition version_LocalStorages :: "'o informer_version \<Rightarrow> 'o localStorageInformer" where
  "version_LocalStorages v = \<lparr>li_tweak = vs_tweak v\<rparr>"

definition localStorageInformer_Informer ::
    "'o localStorageInformer \<Rightarrow> ('c, 'o) factory \<Rightarrow> ('c, 'o) informer \<times> ('c, 'o) factory" where
  "localStorageInformer_Informer l f = InformerFor LocalStorage_type (defaultInformer (li_tweak l)) f"

text \<open>A lister reads an index; the index of an informer is named by the informer.\<close>

record 'i localStorageLister =
  ll_indexer :: 'i

definition NewLocalStorageLister :: "'i \<Rightarrow> 'i localStorageLister" where
  "NewLocalStorageLister indexer = \<lparr>ll_indexer = indexer\<rparr>"

definition localStorageInformer_Lister ::
    "'o localStorageInformer \<Rightarrow> ('c, 'o) factory \<Rightarrow>
     ('c, 'o) informer localStorageLister \<times> ('c, 'o) factory" where
  "localStorageInformer_Lister l f =
     (let r = localStorageInformer_Informer l f in (NewLocalStorageLister (fst r), snd r))"

definition LocalStorages_of :: "('c, 'o) factory \<Rightarrow> 'o localStorageInformer" where
  "LocalStorages_of f = version_LocalStorages (group_V1 (factory_Storage f))"

lemma LocalStorages_tweak [simp]: "li_tweak (LocalStorages_of f) = sf_tweak f"
  by (simp add: LocalStorages_of_def version_LocalStorages_def group_V1_def version_New_def
      factory_Storage_def group_New_def)

text \<open>Access by resource: an informer with its resource, whose lister reads its index.\<close>

record 'i genericInformer =
  gi_informer :: 'i
  gi_resource :: "string \<times> string"

definition generic_Informer :: "'i genericInformer \<Rightarrow> 'i" where
  "generic_Informer g = gi_informer g"

definition generic_Lister :: "'i genericInformer \<Rightarrow> 'i \<times> string \<times> string" where
  "generic_Lister g = (generic_Informer g, gi_resource g)"

definition ForResource ::
    "group_version \<times> string \<Rightarrow> ('c, 'o) factory \<Rightarrow>
     (gerror + ('c, 'o) informer genericInformer) \<times> ('c, 'o) factory" where
  "ForResource resource f =
     (if resource = (SchemeGroupVersion, ''localstorages'') then
        (let r = localStorageInformer_Informer (LocalStorages_of f) f
         in (Inr \<lparr>gi_informer = fst r, gi_resource = (gv_Group (fst resource), snd resource)\<rparr>, snd r))
      else (Inl (FmtError (''no informer found for '' @ gv_Group (fst resource) @ ''/'' @
              gv_Version (fst resource) @ '', Resource='' @ snd resource)), f))"

section \<open>Runs of a factory\<close>

definition is_map_order :: "('c, 'o) map_order \<Rightarrow> bool" where
  "is_map_order order \<longleftrightarrow> (\<forall>m. distinct (order m) \<and> set (order m) = fset (fmdom m))"

text \<open>What can happen to a factory: its methods, in any order, for any type and constructor that
  gives the informer the identity it is handed.\<close>

inductive factory_step :: "('c, 'o) map_order \<Rightarrow> ('c, 'o) factory \<Rightarrow> ('c, 'o) factory \<Rightarrow> bool"
  for order where
  start: "factory_step order f (factory_Start order f)"
| informer: "(\<And>c r n. in_id (new c r n) = n) \<Longrightarrow> factory_step order f (snd (InformerFor t new f))"
| resource: "factory_step order f (snd (ForResource gvr f))"

inductive_cases factory_stepE: "factory_step order f f'"

text \<open>Identities are those handed out, no two informers have the same, and the running ones are
  those of the started types, each once.\<close>

definition running_of :: "('c, 'o) factory \<Rightarrow> ('c, 'o) informer set" where
  "running_of f = {i. \<exists>t. sf_started f t \<and> fmlookup (sf_informers f) t = Some i}"

definition ids_distinct :: "('c, 'o) factory \<Rightarrow> bool" where
  "ids_distinct f \<longleftrightarrow>
     (\<forall>t t' i i'. fmlookup (sf_informers f) t = Some i \<longrightarrow> fmlookup (sf_informers f) t' = Some i' \<longrightarrow>
        in_id i = in_id i' \<longrightarrow> t = t')"

definition factory_inv :: "('c, 'o) factory \<Rightarrow> bool" where
  "factory_inv f \<longleftrightarrow>
     (\<forall>t i. fmlookup (sf_informers f) t = Some i \<longrightarrow> in_id i < sf_next f) \<and> ids_distinct f \<and>
     set (sf_running f) = running_of f \<and>
     (\<forall>t. sf_started f t \<longrightarrow> fmlookup (sf_informers f) t \<noteq> None) \<and>
     distinct (map in_id (sf_running f))"

lemma fold_options_fields:
  assumes "\<And>opt f. opt \<in> set options \<Longrightarrow> sf_informers (opt f) = sf_informers f \<and>
      sf_started (opt f) = sf_started f \<and> sf_running (opt f) = sf_running f"
  shows "sf_informers (fold (\<lambda>opt f. opt f) options f) = sf_informers f \<and>
    sf_started (fold (\<lambda>opt f. opt f) options f) = sf_started f \<and>
    sf_running (fold (\<lambda>opt f. opt f) options f) = sf_running f"
  using assms by (induction options arbitrary: f) auto

lemma start_one_fields [simp]:
  "sf_informers (start_one t f) = sf_informers f" "sf_next (start_one t f) = sf_next f"
  by (simp_all add: start_one_def split: option.splits)

lemma start_one_inv:
  assumes inv: "factory_inv f"
  shows "factory_inv (start_one t f)"
proof (cases "fmlookup (sf_informers f) t")
  case None
  with inv show ?thesis by (simp add: start_one_def)
next
  case (Some i)
  show ?thesis
  proof (cases "sf_started f t")
    case True
    with Some inv show ?thesis by (simp add: start_one_def)
  next
    case False
    have new: "in_id i \<notin> in_id ` set (sf_running f)"
    proof
      assume "in_id i \<in> in_id ` set (sf_running f)"
      then obtain j where "j \<in> set (sf_running f)" "in_id j = in_id i" by auto
      with inv obtain u where u: "sf_started f u" "fmlookup (sf_informers f) u = Some j" "in_id j = in_id i"
        unfolding factory_inv_def running_of_def by blast
      with inv Some have "u = t" unfolding factory_inv_def ids_distinct_def by blast
      with u False show False by simp
    qed
    have s: "start_one t f = f\<lparr>sf_running := sf_running f @ [i], sf_started := (sf_started f)(t := True)\<rparr>"
      using Some False by (simp add: start_one_def)
    have "running_of (start_one t f) = insert i (running_of f)"
      unfolding s running_of_def using Some False by auto
    with inv new Some show ?thesis
      unfolding factory_inv_def by (simp add: s ids_distinct_def)
  qed
qed

lemma fold_start_inv: "factory_inv f \<Longrightarrow> factory_inv (fold start_one ts f)"
  by (induction ts arbitrary: f) (auto simp: start_one_inv)

lemma fold_start_fields [simp]:
  "sf_informers (fold start_one ts f) = sf_informers f"
  by (induction ts arbitrary: f) auto

lemma fold_start_started:
  "sf_started (fold start_one ts f) u \<longleftrightarrow>
     sf_started f u \<or> (u \<in> set ts \<and> fmlookup (sf_informers f) u \<noteq> None)"
  by (induction ts arbitrary: f) (auto simp: start_one_def split: option.splits)

lemma InformerFor_inv:
  assumes inv: "factory_inv f" and new: "\<And>c r n. in_id (new c r n) = n"
  shows "factory_inv (snd (InformerFor t new f))"
proof (cases "fmlookup (sf_informers f) t")
  case None
  let ?f = "snd (InformerFor t new f)"
  obtain i where f: "?f = f\<lparr>sf_informers := fmupd t i (sf_informers f), sf_next := sf_next f + 1\<rparr>"
    and i: "in_id i = sf_next f"
    using None new by (auto simp: InformerFor_def Let_def)
  have ids: "in_id j < sf_next f" if "fmlookup (sf_informers f) u = Some j" for u j
    using inv that by (auto simp: factory_inv_def)
  have "\<not> sf_started f t" using inv None by (auto simp: factory_inv_def)
  then have "running_of ?f = running_of f" unfolding f running_of_def by auto
  moreover have "ids_distinct ?f"
    using inv i ids unfolding f factory_inv_def ids_distinct_def by (auto split: if_splits) force+
  ultimately show ?thesis
    using inv i ids unfolding factory_inv_def by (auto simp: f less_Suc_eq)
qed (use assms in \<open>simp add: InformerFor_def\<close>)

lemma defaultInformer_id: "in_id (defaultInformer t c r n) = n"
  by (simp add: defaultInformer_def NewFilteredLocalStorageInformer_def)

lemma factory_step_inv: "factory_step order f f' \<Longrightarrow> factory_inv f \<Longrightarrow> factory_inv f'"
proof (erule factory_stepE)
  fix gvr :: "group_version \<times> string"
  assume "f' = snd (ForResource gvr f)" and "factory_inv f"
  then show "factory_inv f'"
    by (auto simp: ForResource_def Let_def localStorageInformer_Informer_def defaultInformer_id intro!: InformerFor_inv)
qed (auto simp: factory_Start_def fold_start_inv InformerFor_inv)

lemma factory_steps_inv: "(factory_step order)\<^sup>*\<^sup>* f f' \<Longrightarrow> factory_inv f \<Longrightarrow> factory_inv f'"
  by (induction rule: rtranclp_induct) (auto intro: factory_step_inv)

text \<open>An informer that is registered stays.\<close>

lemma InformerFor_keeps:
  "fmlookup (sf_informers f) t = Some i \<Longrightarrow> fmlookup (sf_informers (snd (InformerFor u new f))) t = Some i"
  by (auto simp: InformerFor_def Let_def split: option.splits)

lemma factory_step_keeps:
  "factory_step order f f' \<Longrightarrow> fmlookup (sf_informers f) t = Some i \<Longrightarrow>
   fmlookup (sf_informers f') t = Some i"
  by (erule factory_stepE)
    (auto simp: factory_Start_def InformerFor_keeps ForResource_def Let_def localStorageInformer_Informer_def)

lemma factory_steps_keeps:
  "(factory_step order)\<^sup>*\<^sup>* f f' \<Longrightarrow> fmlookup (sf_informers f) t = Some i \<Longrightarrow>
   fmlookup (sf_informers f') t = Some i"
  by (induction rule: rtranclp_induct) (auto intro: factory_step_keeps)

lemma InformerFor_registers:
  "InformerFor t new f = (i, f') \<Longrightarrow> fmlookup (sf_informers f') t = Some i"
  by (auto simp: InformerFor_def Let_def split: option.splits)

lemma Start_runs_all:
  assumes "is_map_order order" and "factory_inv f"
  shows "set (sf_running (factory_Start order f)) = fmran' (sf_informers f)"
proof -
  have "factory_inv (factory_Start order f)" using assms(2) by (simp add: factory_Start_def fold_start_inv)
  then have "set (sf_running (factory_Start order f)) = running_of (factory_Start order f)"
    by (simp add: factory_inv_def)
  also have "\<dots> = fmran' (sf_informers f)"
    using assms(1) by (auto simp: running_of_def factory_Start_def fold_start_started is_map_order_def
        fmran'_def ran_def fmlookup_dom_iff)
  finally show ?thesis .
qed

end
