(* ===== verification/LS_Main.thy ===== *)
theory LS_Main
  imports LS_Process LS_Client Go_Json
begin

text \<open>
  The entry points of \<^verbatim>\<open>cmd\<close>, and how the constructors wire informer events to the handlers of
  \<open>LS_Plugin\<close> and \<open>LS_Controller\<close>. What the libraries answer is a record of results; \<open>klog.Fatalf\<close>
  ends the process with code 255. A running process is a state that reacts to what happens to it:
  signals, the lease, an error of the webhook server.
\<close>

section \<open>Wiring of events\<close>

datatype 'q informer_event =
    Added "'q event_object"
  | Updated "'q LocalStorage" "'q LocalStorage"
  | Deleted "'q deleted_object"

fun NewStorageController_handle :: "'k queue_ops \<Rightarrow> 'q informer_event \<Rightarrow> 'k \<Rightarrow> 'k" where
  "NewStorageController_handle O' (Added obj) q = controller_addStorage O' obj q"
| "NewStorageController_handle O' (Updated old cur) q = controller_updateStorage O' old cur q"
| "NewStorageController_handle O' (Deleted obj) q = controller_deleteStorage O' obj q"

text \<open>
  The plugin registers its handlers behind a filter. The library's filtering handler calls
  \<open>UpdateFunc\<close> when both objects pass, \<open>AddFunc\<close> when only the new one does, and a delete
  handler, which the plugin does not set, when only the old one does.
\<close>

fun NewLocalStorage_handle :: "Config \<Rightarrow> 'k queue_ops \<Rightarrow> 'q informer_event \<Rightarrow> 'k \<Rightarrow> 'k" where
  "NewLocalStorage_handle cfg O' (Added obj) q =
     (case obj of
        LsObject l \<Rightarrow> if plugin_FilterFunc cfg obj then plugin_addStorage O' l q else q
      | OtherObject \<Rightarrow> q)"
| "NewLocalStorage_handle cfg O' (Updated old cur) q =
     (case (plugin_FilterFunc cfg (LsObject cur), plugin_FilterFunc cfg (LsObject old)) of
        (True, True) \<Rightarrow> plugin_updateStorage O' old cur q
      | (True, False) \<Rightarrow> plugin_addStorage O' cur q
      | (False, _) \<Rightarrow> q)"
| "NewLocalStorage_handle cfg O' (Deleted obj) q = q"

section \<open>cmd/localstorage-controller\<close>

definition workers :: nat where "workers = 5"

record controller_flags =
  cm_kubeconfig :: string
  cm_kubeAPIQPS :: int
  cm_kubeAPIBurst :: int
  cm_host :: string
  cm_port :: int
  cm_certDir :: string
  cm_certName :: string
  cm_keyName :: string
  cm_healthzPort :: int
  cm_leaderElect :: bool
  cm_retryPeriod :: int
  cm_resourceLock :: string
  cm_resourceName :: string
  cm_resourceNamespace :: string
  cm_leaseDuration :: int
  cm_renewDeadline :: int

definition LeaseDuration :: int where "LeaseDuration = 15"
definition RenewDeadline :: int where "RenewDeadline = 10"
definition RetryPeriod :: int where "RetryPeriod = 2"
definition ResourceLock :: string where "ResourceLock = ''endpointsleases''"
definition ResourceName :: string where "ResourceName = ''localstorage-manager''"
definition ResourceNamespace :: string where "ResourceNamespace = ''kube-system''"

definition controller_default_flags :: controller_flags where
  "controller_default_flags =
     \<lparr>cm_kubeconfig = [], cm_kubeAPIQPS = 5, cm_kubeAPIBurst = 10,
      cm_host = [], cm_port = 8443, cm_certDir = ''/tmp/webhook-server'', cm_certName = ''tls.crt'',
      cm_keyName = ''tls.key'', cm_healthzPort = 0, cm_leaderElect = True,
      cm_retryPeriod = RetryPeriod, cm_resourceLock = ResourceLock, cm_resourceName = ResourceName,
      cm_resourceNamespace = ResourceNamespace, cm_leaseDuration = LeaseDuration,
      cm_renewDeadline = RenewDeadline\<rparr>"

record webhook_server =
  ws_Host :: string
  ws_Port :: int
  ws_CertDir :: string
  ws_CertName :: string
  ws_KeyName :: string
  ws_Paths :: "string list"

definition installCert :: "controller_flags \<Rightarrow> webhook_server \<Rightarrow> webhook_server" where
  "installCert fl s = s\<lparr>ws_CertDir := cm_certDir fl, ws_CertName := cm_certName fl, ws_KeyName := cm_keyName fl\<rparr>"

record leader_config =
  le_Lock :: "string \<times> string \<times> string"
  le_Identity :: string
  le_LeaseDuration :: int64
  le_RenewDeadline :: int64
  le_RetryPeriod :: int64
  le_Name :: string

text \<open>What the libraries answer: \<open>mb_config\<close> to building the configuration, \<open>mb_manager\<close> is
  \<open>manager.New\<close>, \<open>mb_kube\<close> and \<open>mb_clients\<close> the two client sets, \<open>mb_lock\<close> is
  \<open>resourcelock.New\<close>, \<open>mb_elector\<close> the check of the leader election's configuration, which panics,
  and \<open>mb_synced\<close> whether the informer's cache syncs.\<close>

record main_library =
  mb_config :: "gerror option"
  mb_manager :: "gerror option"
  mb_kube :: "gerror option"
  mb_clients :: "gerror option"
  mb_hostname :: "gerror + string"
  mb_uuid :: string
  mb_lock :: "string \<Rightarrow> gerror option"
  mb_elector :: "leader_config \<Rightarrow> gerror option"
  mb_synced :: bool

record controller_process =
  cp_signal :: signal_state
  cp_server :: webhook_server
  cp_serving :: bool
  cp_healthz :: "string option"
  cp_leader :: "leader_config option"
  cp_leading :: bool
  cp_workers :: nat
  cp_exit :: "int option"

text \<open>\<open>run\<close> starts the workers and blocks forever; \<open>klog.Fatalf\<close> exits with 255.\<close>

definition controller_start :: "main_library \<Rightarrow> controller_process \<Rightarrow> controller_process" where
  "controller_start B p =
     (case mb_clients B of
        Some err \<Rightarrow> p\<lparr>cp_exit := Some 255\<rparr>
      | None \<Rightarrow> p\<lparr>cp_leading := True, cp_workers := controller_Run (mb_synced B) workers\<rparr>)"

datatype main_result = MainFatal string gerror | MainPanic | MainRunning controller_process

definition leader_config_of :: "controller_flags \<Rightarrow> string \<Rightarrow> leader_config" where
  "leader_config_of fl ident =
     \<lparr>le_Lock = (cm_resourceLock fl, cm_resourceNamespace fl, cm_resourceName fl), le_Identity = ident,
      le_LeaseDuration = word_of_int (cm_leaseDuration fl) * time_Second,
      le_RenewDeadline = word_of_int (cm_renewDeadline fl) * time_Second,
      le_RetryPeriod = word_of_int (cm_retryPeriod fl) * time_Second, le_Name = ''localstorage-manager''\<rparr>"

definition controller_main :: "controller_flags \<Rightarrow> main_library \<Rightarrow> main_result" where
  "controller_main fl B =
     (case mb_config B of
        Some err \<Rightarrow> MainFatal ''Failed to build kube config: '' err
      | None \<Rightarrow>
     (case mb_manager B of
        Some err \<Rightarrow> MainFatal ''unable to set up overall controller manager: '' err
      | None \<Rightarrow>
     (let server = (installCert fl \<lparr>ws_Host = cm_host fl, ws_Port = cm_port fl, ws_CertDir = [],
            ws_CertName = [], ws_KeyName = [], ws_Paths = []\<rparr>)
            \<lparr>ws_Paths := [''/mutate-v1-localstorage'', ''/validate-v1-localstorage'']\<rparr>
      in case mb_kube B of
        Some err \<Rightarrow> MainFatal ''Failed to build kube clientSet: '' err
      | None \<Rightarrow>
     (let p = \<lparr>cp_signal = \<lparr>sg_installed = True, sg_cancelled = False, sg_exit = None\<rparr>,
            cp_server = server, cp_serving = True,
            cp_healthz = (if 0 < cm_healthzPort fl then Some ('':'' @ dec_int (cm_healthzPort fl)) else None),
            cp_leader = None, cp_leading = False, cp_workers = 0, cp_exit = None\<rparr>
      in if \<not> cm_leaderElect fl then MainRunning (controller_start B p)
         else case mb_hostname B of
           Inl err \<Rightarrow> MainFatal ''Failed to get hostname: '' err
         | Inr host \<Rightarrow>
             (let ident = host @ ''_'' @ mb_uuid B; lec = leader_config_of fl ident
              in case mb_lock B (cm_resourceLock fl) of
                   Some err \<Rightarrow> MainFatal ''error creating lock: '' err
                 | None \<Rightarrow>
                     if mb_elector B lec \<noteq> None then MainPanic
                     else MainRunning (p\<lparr>cp_leader := Some lec\<rparr>))))))"

datatype main_event = Signal | LeaseGained | LeaseLost | WebhookError gerror

text \<open>
  The signal's context is that of the webhook server, and that of the workers only when there is
  no leader election: the election runs with a context of its own.
\<close>

fun main_step :: "main_library \<Rightarrow> main_event \<Rightarrow> controller_process \<Rightarrow> controller_process" where
  "main_step B Signal p =
     (if cp_exit p \<noteq> None then p
      else let s = on_signal (cp_signal p) in
        case sg_exit s of
          Some code \<Rightarrow> p\<lparr>cp_signal := s, cp_exit := Some code\<rparr>
        | None \<Rightarrow> p\<lparr>cp_signal := s, cp_serving := False,
                    cp_workers := (if cp_leader p = None then 0 else cp_workers p)\<rparr>)"
| "main_step B LeaseGained p =
     (if cp_exit p \<noteq> None \<or> cp_leader p = None \<or> cp_leading p then p else controller_start B p)"
| "main_step B LeaseLost p =
     (if cp_exit p \<noteq> None \<or> \<not> (cp_leader p \<noteq> None \<and> cp_leading p) then p else p\<lparr>cp_exit := Some 255\<rparr>)"
| "main_step B (WebhookError err) p =
     (if cp_exit p \<noteq> None \<or> \<not> cp_serving p then p else p\<lparr>cp_exit := Some 255\<rparr>)"

section \<open>cmd/localstorageplugin\<close>

text \<open>The results of building the configuration and the client sets are arguments; the driver runs
  until \<open>Run\<close> returns an error. The message about the client sets is printed without formatting.\<close>

datatype plugin_result = PluginFatal string gerror | PluginRunning Config run_state

definition plugin_main :: "Config \<Rightarrow> gerror option \<Rightarrow> gerror option \<Rightarrow> bool \<Rightarrow> plugin_result" where
  "plugin_main cfg config clients synced =
     (case config of
        Some err \<Rightarrow> PluginFatal ''Failed to build kube config: '' err
      | None \<Rightarrow>
          (case clients of
             Some err \<Rightarrow> PluginFatal ''failed to build clientSets: %v'' err
           | None \<Rightarrow>
               (case NewLocalStorage cfg of
                  Inl err \<Rightarrow> PluginFatal ''Failed to initialize localstorage driver :'' err
                | Inr driver \<Rightarrow>
                    (case plugin_Run synced of
                       RunReturned (Some err) \<Rightarrow> PluginFatal ''Failed to run localstorage driver :'' err
                     | r \<Rightarrow> PluginRunning driver r))))"

text \<open>The flags of the plugin with their defaults, and \<open>main\<close> on them. With the pprof flag the process
  also ends when the profiling server does; \<open>listen\<close> is \<open>http.ListenAndServe\<close>.\<close>

record plugin_flags =
  pf_endpoint :: string
  pf_driverName :: string
  pf_nodeId :: string
  pf_volumeDir :: string
  pf_kubeconfig :: string
  pf_kubeAPIQPS :: int
  pf_kubeAPIBurst :: int
  pf_enablePprof :: bool
  pf_pprofPort :: string

definition plugin_DefaultDriverName :: string where
  "plugin_DefaultDriverName = ''localstorage.csi.caoyingjunz.io''"

definition plugin_default_flags :: plugin_flags where
  "plugin_default_flags =
     \<lparr>pf_endpoint = ''unix://tmp/csi.sock'', pf_driverName = plugin_DefaultDriverName, pf_nodeId = [],
      pf_volumeDir = ''/tmp'', pf_kubeconfig = [], pf_kubeAPIQPS = 5, pf_kubeAPIBurst = 10,
      pf_enablePprof = False, pf_pprofPort = ''6060''\<rparr>"

definition plugin_pprof :: "plugin_flags \<Rightarrow> (string \<Rightarrow> gerror option) \<Rightarrow> plugin_result option" where
  "plugin_pprof fl listen =
     (if pf_enablePprof fl
      then map_option (PluginFatal ''Failed to start pprof server: '') (listen ('':'' @ pf_pprofPort fl))
      else None)"

definition plugin_start ::
    "plugin_flags \<Rightarrow> string \<Rightarrow> (string \<Rightarrow> gerror option) \<Rightarrow> gerror option \<Rightarrow> bool \<Rightarrow> plugin_result" where
  "plugin_start fl env_NODE_NAME config clients synced =
     plugin_main
       (plugin_config (pf_driverName fl) (pf_endpoint fl) (pf_nodeId fl) (pf_volumeDir fl) env_NODE_NAME)
       (config (pf_kubeconfig fl)) clients synced"

section \<open>cmd/scheduler-extender\<close>

record extender_flags =
  ef_kubeconfig :: string
  ef_port :: int

definition extender_default_flags :: extender_flags where
  "extender_default_flags = \<lparr>ef_kubeconfig = [], ef_port = 8090\<rparr>"

text \<open>\<open>listen\<close> is \<open>http.ListenAndServe\<close>: it serves until it has an error. What the process waits
  for besides does not depend on the signal handler's context.\<close>

datatype extender_result = ExtenderFatal string "gerror option" | ExtenderServing string

definition scheduler_Run :: "bool \<Rightarrow> (string \<Rightarrow> gerror option) \<Rightarrow> string \<Rightarrow> (string \<times> gerror option) option" where
  "scheduler_Run synced listen addr =
     (if \<not> synced then Some (''failed to WaitForNamedCacheSync'', None)
      else map_option (\<lambda>err. (''failed to start localstorage scheduler extender server: '', Some err)) (listen addr))"

definition extender_main ::
    "(string \<Rightarrow> gerror + 'c) \<Rightarrow> ('c \<Rightarrow> gerror + 'k) \<Rightarrow> bool \<Rightarrow> (string \<Rightarrow> gerror option) \<Rightarrow> string \<Rightarrow> int \<Rightarrow>
     extender_result" where
  "extender_main config clients synced listen kubeconfig port =
     (case config kubeconfig of
        Inl err \<Rightarrow> ExtenderFatal ''Failed to build kube config: '' (Some err)
      | Inr kubeConfig \<Rightarrow>
          (case clients kubeConfig of
             Inl err \<Rightarrow> ExtenderFatal ''Failed to build clientSets: '' (Some err)
           | Inr _ \<Rightarrow>
               (case scheduler_Run synced listen ('':'' @ dec_int port) of
                  Some (msg, err) \<Rightarrow> ExtenderFatal msg err
                | None \<Rightarrow> ExtenderServing ('':'' @ dec_int port))))"

section \<open>The life of plugin and extender\<close>

text \<open>
  The plugin's \<open>main\<close> waits for the context of the signal handler and returns, which ends the process
  with code 0 whatever its goroutines do; \<open>Run\<close> goes on beside it, and an error of it, of the gRPC
  server or of the profiling server ends the process with 255.
\<close>

record plugin_process =
  pp_signal :: signal_state
  pp_run :: run_state
  pp_exit :: "int option"

definition plugin_launch :: "plugin_result \<Rightarrow> plugin_process option" where
  "plugin_launch r =
     (case r of
        PluginFatal msg err \<Rightarrow> None
      | PluginRunning cfg rs \<Rightarrow>
          Some \<lparr>pp_signal = \<lparr>sg_installed = True, sg_cancelled = False, sg_exit = None\<rparr>, pp_run = rs,
                pp_exit = None\<rparr>)"

datatype plugin_event = PluginSignal | PluginRunGoesOn | ServerFails gerror

fun plugin_life :: "plugin_event \<Rightarrow> plugin_process \<Rightarrow> plugin_process" where
  "plugin_life PluginSignal p =
     (if pp_exit p \<noteq> None then p
      else let s = on_signal (pp_signal p) in
        (case sg_exit s of
           Some code \<Rightarrow> p\<lparr>pp_signal := s, pp_exit := Some code\<rparr>
         | None \<Rightarrow> p\<lparr>pp_signal := s, pp_exit := Some 0\<rparr>))"
| "plugin_life PluginRunGoesOn p =
     (if pp_exit p \<noteq> None then p
      else (case run_step (pp_run p) of
              RunReturned (Some err) \<Rightarrow> p\<lparr>pp_run := RunReturned (Some err), pp_exit := Some 255\<rparr>
            | r \<Rightarrow> p\<lparr>pp_run := r\<rparr>))"
| "plugin_life (ServerFails err) p = (if pp_exit p \<noteq> None then p else p\<lparr>pp_exit := Some 255\<rparr>)"

text \<open>The extender's \<open>main\<close> is in \<open>ListenAndServe\<close>, which the context does not reach.\<close>

record extender_process =
  xp_signal :: signal_state
  xp_addr :: string
  xp_exit :: "int option"

definition extender_launch :: "extender_result \<Rightarrow> extender_process option" where
  "extender_launch r =
     (case r of
        ExtenderFatal msg err \<Rightarrow> None
      | ExtenderServing addr \<Rightarrow>
          Some \<lparr>xp_signal = \<lparr>sg_installed = True, sg_cancelled = False, sg_exit = None\<rparr>, xp_addr = addr,
                xp_exit = None\<rparr>)"

datatype extender_event = ExtenderSignal | ListenEnds gerror

fun extender_life :: "extender_event \<Rightarrow> extender_process \<Rightarrow> extender_process" where
  "extender_life ExtenderSignal p =
     (if xp_exit p \<noteq> None then p
      else let s = on_signal (xp_signal p) in p\<lparr>xp_signal := s, xp_exit := sg_exit s\<rparr>)"
| "extender_life (ListenEnds err) p = (if xp_exit p \<noteq> None then p else p\<lparr>xp_exit := Some 255\<rparr>)"

section \<open>What signals do to the controller\<close>

text \<open>A process that runs, whose signal handler has seen \<open>n\<close> signals.\<close>

definition seen_signals :: "controller_process \<Rightarrow> nat \<Rightarrow> bool" where
  "seen_signals p n \<longleftrightarrow> sg_installed (cp_signal p) \<and> sg_exit (cp_signal p) = None \<and>
     cp_exit p = None \<and> (sg_cancelled (cp_signal p) \<longleftrightarrow> n = 1) \<and> n \<le> 1"

lemma first_signal:
  "seen_signals p 0 \<Longrightarrow> seen_signals (main_step B Signal p) 1 \<and> \<not> cp_serving (main_step B Signal p) \<and>
     cp_leader (main_step B Signal p) = cp_leader p \<and> cp_leading (main_step B Signal p) = cp_leading p \<and>
     cp_workers (main_step B Signal p) = (if cp_leader p = None then 0 else cp_workers p)"
  by (simp add: seen_signals_def on_signal_def)

lemma second_signal: "seen_signals p 1 \<Longrightarrow> cp_exit (main_step B Signal p) = Some 1"
  by (simp add: seen_signals_def on_signal_def)

lemma lease_gained:
  "seen_signals p n \<Longrightarrow> mb_clients B = None \<Longrightarrow> cp_leader p \<noteq> None \<Longrightarrow>
   seen_signals (main_step B LeaseGained p) n \<and> cp_leader (main_step B LeaseGained p) = cp_leader p \<and>
   cp_leading (main_step B LeaseGained p) \<and> cp_serving (main_step B LeaseGained p) = cp_serving p \<and>
   cp_workers (main_step B LeaseGained p) =
     (if cp_leading p then cp_workers p else controller_Run (mb_synced B) workers)"
  by (simp add: seen_signals_def controller_start_def)

section \<open>Defaults\<close>

text \<open>
  With its default flags the plugin runs exactly when the node is named in the environment and
  configuration and clients are there and the cache syncs; its configuration then has the driver
  name the scheduler's lookups expect, and no profiling server runs.
\<close>

theorem plugin_starts_by_default:
  "(\<exists>cfg r. plugin_start plugin_default_flags env config clients synced = PluginRunning cfg r) \<longleftrightarrow>
     env \<noteq> [] \<and> config [] = None \<and> clients = None \<and> synced"
  "plugin_start plugin_default_flags env config clients synced = PluginRunning cfg r \<Longrightarrow>
     cfg = \<lparr>cf_DriverName = ''localstorage.csi.caoyingjunz.io'', cf_Endpoint = ''unix://tmp/csi.sock'',
            cf_VendorVersion = ''v1.0.0'', cf_NodeId = env, cf_VolumeDir = ''/tmp''\<rparr>"
  "plugin_pprof plugin_default_flags listen = None"
proof -
  have cfg: "plugin_config ''localstorage.csi.caoyingjunz.io'' ''unix://tmp/csi.sock'' [] ''/tmp'' env =
      \<lparr>cf_DriverName = ''localstorage.csi.caoyingjunz.io'', cf_Endpoint = ''unix://tmp/csi.sock'',
       cf_VendorVersion = ''v1.0.0'', cf_NodeId = env, cf_VolumeDir = ''/tmp''\<rparr>"
    by (simp add: plugin_config_def Let_def)
  show "(\<exists>cfg r. plugin_start plugin_default_flags env config clients synced = PluginRunning cfg r) \<longleftrightarrow>
     env \<noteq> [] \<and> config [] = None \<and> clients = None \<and> synced"
    by (auto simp: plugin_start_def plugin_default_flags_def plugin_DefaultDriverName_def cfg plugin_main_def
        NewLocalStorage_def plugin_Run_def split: option.splits)
  show "plugin_start plugin_default_flags env config clients synced = PluginRunning cfg r \<Longrightarrow>
     cfg = \<lparr>cf_DriverName = ''localstorage.csi.caoyingjunz.io'', cf_Endpoint = ''unix://tmp/csi.sock'',
            cf_VendorVersion = ''v1.0.0'', cf_NodeId = env, cf_VolumeDir = ''/tmp''\<rparr>"
    by (auto simp: plugin_start_def plugin_default_flags_def plugin_DefaultDriverName_def cfg plugin_main_def
        NewLocalStorage_def plugin_Run_def split: option.splits if_splits run_state.splits)
  show "plugin_pprof plugin_default_flags listen = None"
    by (simp add: plugin_pprof_def plugin_default_flags_def)
qed

end
