(* ===== verification/Prop_Clients.thy ===== *)
theory Prop_Clients
  imports LS_Informers LS_Main LS_Instance "HOL-Library.Char_ord" "HOL-Library.List_Lexorder"
begin

text \<open>
  What the generated clients and informers guarantee to the rest of the program, and what a signal
  does to the controller.
\<close>









text \<open>
  The timeout a list or watch request carries is the requested number of seconds exactly when
  that is at most 9223372036 in absolute value; beyond, the multiplication wraps around.
\<close>

theorem list_timeout_exact:
  assumes "lo_TimeoutSeconds opts = Some n"
  shows "sint (list_timeout opts) = sint n * 1000000000 \<longleftrightarrow> \<bar>sint n\<bar> \<le> 9223372036"
proof -
  have t: "list_timeout opts = n * 1000000000" using assms by (simp add: list_timeout_def time_Second_def)
  show ?thesis
  proof
    assume "sint (list_timeout opts) = sint n * 1000000000"
    with sint_int64_bounds [of "list_timeout opts"] show "\<bar>sint n\<bar> \<le> 9223372036" by auto
  next
    assume *: "\<bar>sint n\<bar> \<le> 9223372036"
    have "sint (list_timeout opts) = signed_take_bit 63 (sint n * 1000000000)"
      using t by (simp add: sint_word_ariths)
    also have "\<dots> = sint n * 1000000000"
      using * by (intro signed_take_bit_int_eq_self) auto
    finally show "sint (list_timeout opts) = sint n * 1000000000" .
  qed
qed

lemma list_timeout_exact_witness:
  "sint (list_timeout \<lparr>lo_TimeoutSeconds = Some 30, lo_Watch = False, lo_Rest = ()\<rparr>) = 30 * 1000000000"
  using list_timeout_exact [of "\<lparr>lo_TimeoutSeconds = Some 30, lo_Watch = False, lo_Rest = ()\<rparr>" 30] by simp

text \<open>
  C27. However a factory is used, no informer runs twice, only registered informers run, a call of
  \<open>Start\<close> makes every informer registered so far run, and whoever asks for the informer of a type
  later gets the same informer that an earlier caller got.
\<close>

theorem factory_starts_once:
  fixes f :: "('c, 'o) factory"
  assumes ord: "is_map_order order" and run: "(factory_step order)\<^sup>*\<^sup>* (NewSharedInformerFactory c d) f"
    and new: "\<And>c r n. in_id (new c r n) = n"
    and get: "InformerFor t new f = (i, g)" and later: "(factory_step order)\<^sup>*\<^sup>* g h"
  shows "distinct (map in_id (sf_running f)) \<and> set (sf_running f) \<subseteq> fmran' (sf_informers f) \<and>
    set (sf_running (factory_Start order f)) = fmran' (sf_informers f) \<and>
    distinct (map in_id (sf_running (factory_Start order f))) \<and>
    InformerFor t new' h = (i, h)"
proof -
  have "factory_inv (NewSharedInformerFactory c d :: ('c, 'o) factory)"
    by (simp add: NewSharedInformerFactory_def NewSharedInformerFactoryWithOptions_def factory_inv_def
        running_of_def ids_distinct_def)
  then have inv: "factory_inv f" using factory_steps_inv [OF run] by simp
  then have "factory_inv (factory_Start order f)" by (simp add: factory_Start_def fold_start_inv)
  moreover have "set (sf_running f) \<subseteq> fmran' (sf_informers f)"
    using inv by (auto simp: factory_inv_def running_of_def fmran'_def ran_def)
  moreover have "fmlookup (sf_informers h) t = Some i"
    using factory_steps_keeps [OF later InformerFor_registers [OF get]] .
  then have "InformerFor t new' h = (i, h)" by (simp add: InformerFor_def)
  ultimately show ?thesis using inv Start_runs_all [OF ord inv] by (simp add: factory_inv_def)
qed

lemma factory_starts_once_witness:
  "fst (InformerFor LocalStorage_type (defaultInformer None)
     (factory_Start (\<lambda>m. sorted_list_of_fset (fmdom m))
        (snd (localStorageInformer_Informer (LocalStorages_of (NewSharedInformerFactory () 300)) (NewSharedInformerFactory () 300)))))
   = NewFilteredLocalStorageInformer () 300 [NamespaceIndex] (None :: unit tweak option) 0"
proof -
  let ?o = "\<lambda>m :: (string, (unit, unit) informer) fmap. sorted_list_of_fset (fmdom m)"
  let ?f = "NewSharedInformerFactory () 300 :: (unit, unit) factory"
  let ?i = "NewFilteredLocalStorageInformer () 300 [NamespaceIndex] (None :: unit tweak option) 0"
  have ord: "is_map_order ?o" by (simp add: is_map_order_def sorted_list_of_fset.rep_eq)
  obtain g where get: "InformerFor LocalStorage_type (defaultInformer None) ?f = (?i, g)"
    and g: "snd (localStorageInformer_Informer (LocalStorages_of ?f) ?f) = g"
    by (simp add: localStorageInformer_Informer_def InformerFor_def NewSharedInformerFactory_def Let_def
        NewSharedInformerFactoryWithOptions_def defaultInformer_def)
  have "(factory_step ?o)\<^sup>*\<^sup>* g (factory_Start ?o g)" by (rule r_into_rtranclp) (rule factory_step.start)
  from factory_starts_once [OF ord rtranclp.rtrancl_refl defaultInformer_id get this, of "defaultInformer None"]
  show ?thesis by (simp add: g)
qed

text \<open>
  C36. The first signal does not end the controller. With leader election the process keeps its
  lease and its five workers after it, in whatever order the lease and the signal come, and only
  the webhook server stops, until a second signal ends it with code 1. Without leader election the
  workers stop but the process stays.
\<close>

lemma controller_main_start:
  assumes "controller_main fl B = MainRunning p" and "mb_clients B = None" and "mb_synced B"
  shows "seen_signals p 0 \<and> cp_serving p \<and> (cp_leader p = None \<longleftrightarrow> \<not> cm_leaderElect fl) \<and>
    (cp_leader p = None \<longrightarrow> cp_workers p = 5) \<and> (cp_leader p \<noteq> None \<longrightarrow> \<not> cp_leading p)"
  using assms
  by (auto simp: controller_main_def controller_start_def seen_signals_def controller_Run_def workers_def
      Let_def split: option.splits if_splits sum.splits)

definition quiet :: "main_event list \<Rightarrow> bool" where
  "quiet evs \<longleftrightarrow> set evs \<subseteq> {Signal, LeaseGained} \<and> count_list evs Signal \<le> 1"

lemma quiet_run:
  assumes p: "seen_signals p 0" "cp_serving p" "cp_leader p = None \<longrightarrow> cp_workers p = 5"
      "cp_leader p \<noteq> None \<longrightarrow> \<not> cp_leading p"
    and B: "mb_clients B = None" "mb_synced B" and evs: "quiet evs"
  defines "q \<equiv> fold (main_step B) evs p"
  shows "seen_signals q (count_list evs Signal) \<and> cp_leader q = cp_leader p \<and>
    (cp_serving q \<longleftrightarrow> Signal \<notin> set evs) \<and>
    (cp_leader p \<noteq> None \<longrightarrow> (cp_leading q \<longleftrightarrow> LeaseGained \<in> set evs) \<and> (cp_leading q \<longrightarrow> cp_workers q = 5)) \<and>
    (cp_leader p = None \<longrightarrow> cp_workers q = (if Signal \<in> set evs then 0 else 5))"
  using evs unfolding q_def
proof (induction evs rule: rev_induct)
  case Nil
  with p show ?case by simp
next
  case (snoc e evs)
  let ?q = "fold (main_step B) evs p"
  have q: "quiet evs" and e: "e = Signal \<or> e = LeaseGained"
    using snoc.prems by (auto simp: quiet_def split: if_splits)
  note ih = snoc.IH [OF q]
  from e show ?case
  proof
    assume s: "e = Signal"
    with snoc.prems have "count_list evs Signal = 0" by (simp add: quiet_def)
    then have n: "Signal \<notin> set evs" by (simp add: count_list_0_iff)
    with ih have "seen_signals ?q 0" by (simp add: count_list_0_iff)
    from first_signal [OF this, of B] ih n s show ?thesis by (auto simp: count_list_0_iff)
  next
    assume l: "e = LeaseGained"
    show ?thesis
    proof (cases "cp_leader p = None")
      case True
      with ih l show ?thesis by simp
    next
      case False
      with ih have "seen_signals ?q (count_list evs Signal)" "cp_leader ?q \<noteq> None" by auto
      from lease_gained [OF this(1) B(1) this(2)] ih l False B(2) show ?thesis
        by (auto simp: controller_Run_def workers_def)
    qed
  qed
qed

theorem first_signal_does_not_stop:
  assumes main: "controller_main fl B = MainRunning p" and B: "mb_clients B = None" "mb_synced B"
    and evs: "quiet evs" "Signal \<in> set evs"
  shows "cp_exit (fold (main_step B) evs p) = None \<and> \<not> cp_serving (fold (main_step B) evs p) \<and>
    (if cm_leaderElect fl
     then LeaseGained \<in> set evs \<longrightarrow> cp_leading (fold (main_step B) evs p) \<and> cp_workers (fold (main_step B) evs p) = 5
     else cp_workers (fold (main_step B) evs p) = 0) \<and>
    cp_exit (main_step B Signal (fold (main_step B) evs p)) = Some 1"
proof -
  note s = controller_main_start [OF main B]
  have "count_list evs Signal = 1"
    using evs count_list_0_iff [of evs Signal] unfolding quiet_def by linarith
  with quiet_run [of p B evs] s B evs(1) have "seen_signals (fold (main_step B) evs p) 1" by simp
  with quiet_run [of p B evs] s B evs second_signal [OF this, of B] show ?thesis
    by (auto simp: seen_signals_def)
qed

definition sample_library :: main_library where
  "sample_library =
     \<lparr>mb_config = None, mb_manager = None, mb_kube = None, mb_clients = None, mb_hostname = Inr ''h'',
      mb_uuid = ''u'', mb_lock = (\<lambda>_. None), mb_elector = (\<lambda>_. None), mb_synced = True\<rparr>"

lemma first_signal_does_not_stop_witness:
  "\<exists>p. controller_main controller_default_flags sample_library = MainRunning p \<and>
    cp_workers (fold (main_step sample_library) [LeaseGained, Signal] p) = 5"
proof -
  obtain p where p: "controller_main controller_default_flags sample_library = MainRunning p"
    by (simp add: controller_main_def controller_default_flags_def sample_library_def Let_def)
  have B: "mb_clients sample_library = None" "mb_synced sample_library"
    by (simp_all add: sample_library_def)
  have l: "cm_leaderElect controller_default_flags" by (simp add: controller_default_flags_def)
  have q: "quiet [LeaseGained, Signal]" "Signal \<in> set [LeaseGained, Signal]" by (simp_all add: quiet_def)
  from first_signal_does_not_stop [OF p B q] l
  have "cp_workers (fold (main_step sample_library) [LeaseGained, Signal] p) = 5"
    by (simp del: fold.simps main_step.simps)
  with p show ?thesis by blast
qed

text \<open>
  The other two processes: the first signal ends the plugin with code 0, although \<open>Run\<close> still waits
  and the queue was not shut down; the extender goes on serving, and ends with code 1 at the second.
\<close>

theorem plugin_and_extender_on_signals:
  assumes plugin: "plugin_launch (plugin_start fl env config clients synced) = Some p"
    and extender: "extender_launch (extender_main kconfig kclients ksynced listen kubeconfig port) = Some x"
  shows "pp_exit (fold plugin_life (replicate n PluginRunGoesOn @ [PluginSignal]) p) = Some 0 \<and>
    (\<exists>s. pp_run (fold plugin_life (replicate n PluginRunGoesOn @ [PluginSignal]) p) = RunWaiting s) \<and>
    xp_exit (extender_life ExtenderSignal x) = None \<and>
    xp_exit (extender_life ExtenderSignal (extender_life ExtenderSignal x)) = Some 1"
proof -
  have p: "pp_exit p = None" "pp_run p = RunWaiting (Start NewNonBlockingGRPCServer)"
      "pp_signal p = \<lparr>sg_installed = True, sg_cancelled = False, sg_exit = None\<rparr>"
    using plugin by (auto simp: plugin_launch_def plugin_start_def plugin_main_def plugin_Run_def
        split: option.splits sum.splits run_state.splits if_splits)
  then have "plugin_life PluginRunGoesOn p = p"
    by (simp add: Wait_returns_now_def Start_def NewNonBlockingGRPCServer_def)
  then have "fold plugin_life (replicate n PluginRunGoesOn) p = p" by (induction n) simp_all
  with p have "pp_exit (fold plugin_life (replicate n PluginRunGoesOn @ [PluginSignal]) p) = Some 0"
    and "pp_run (fold plugin_life (replicate n PluginRunGoesOn @ [PluginSignal]) p) = pp_run p"
    by (simp_all add: on_signal_def)
  moreover have "xp_exit x = None" "xp_signal x = \<lparr>sg_installed = True, sg_cancelled = False, sg_exit = None\<rparr>"
    using extender by (auto simp: extender_launch_def split: extender_result.splits)
  ultimately show ?thesis using p(2) by (simp add: on_signal_def)
qed

end
