(* ===== verification/Prop_Lifecycle.thy ===== *)
theory Prop_Lifecycle
  imports Prop_Volumes
begin

text \<open>
  Several calls of the plugin in a row: what a creation and a deletion leave together, and what
  repeating either does.
  Between two calls the world may move on in any way that leaves the stored objects alone (the
  cache catches up, time passes); that is \<open>same_store\<close>.
\<close>

section \<open>One object per node\<close>

definition same_store :: "('a \<Rightarrow> string \<rightharpoonup> 'q LocalStorage) \<Rightarrow> 'a world \<Rightarrow> 'a world \<Rightarrow> bool" where
  "same_store stored w w' \<longleftrightarrow> stored (w_sv w') = stored (w_sv w)"

lemma same_store_refl [simp]: "same_store stored w w"
  by (simp add: same_store_def)

lemma one_per_nodeD:
  "one_per_node m \<Longrightarrow> m j = Some l \<Longrightarrow> m k = Some l' \<Longrightarrow> ls_Node l = ls_Node l' \<Longrightarrow> j = k \<and> l = l'"
  unfolding one_per_node_def by (metis option.inject)

text \<open>What a creation, seen from the one object of the node, does to the store.\<close>

lemma CreateVolume_on:
  assumes S: "update_contract S stored" "cache_contract S stored" "uuid_contract S stored"
    and fresh: "fresh_uuid S stored (w_sv w)" and one: "one_per_node (stored (w_sv w))"
    and s: "stored (w_sv w) k = Some s" "ls_Node s = cf_NodeId cfg"
    and run: "CreateVolume Q S cfg req w = (Ret v, w')"
  obtains s' q where "stored (w_sv w') = (stored (w_sv w))(k \<mapsto> s')"
    "ls_Spec s' = ls_Spec s" "ls_Phase s' = ls_Phase s"
    "ls_Volumes s' = ls_Volumes s @ [new_Volume cfg req (cs_VolumeId v)]"
    "cs_VolumeId v \<notin> v_VolID ` set (ls_Volumes s)"
    "st_Allocatable (ls_Status s) = Some q"
    "st_Allocatable (ls_Status s') = Some (q_Sub Q q (q_New Q (cv_RequiredBytes req)))"
    "st_Capacity (ls_Status s') = st_Capacity (ls_Status s)"
    "CreateVolumeDir (parseVolumePath (cf_VolumeDir cfg) (cs_VolumeId v)) (w_fs w) = (None, w_fs w')"
  using S run
proof (rule CreateVolume_store)
  fix t t' q
  assume t: "GetLocalStorageByNode S (cf_NodeId cfg) (w_sv w) = Inr t"
    and i: "fst (sv_NewUUID S (w_sv w)) = cs_VolumeId v" and q: "st_Allocatable (ls_Status t) = Some q"
    and cur: "stored (w_sv w) (ls_Name t) = Some t"
    and st: "stored (w_sv w') = (stored (w_sv w))(ls_Name t \<mapsto> t')"
    and ap: "applied (allocate Q (new_Volume cfg req (cs_VolumeId v)) t) t'"
    and dir: "CreateVolumeDir (parseVolumePath (cf_VolumeDir cfg) (cs_VolumeId v)) (w_fs w) = (None, w_fs w')"
  have k: "k = ls_Name t" and st': "s = t"
    using one_per_nodeD [OF one s(1) cur] s(2) GetLocalStorageByNode_Inr(2) [OF t] by auto
  have new: "cs_VolumeId v \<notin> v_VolID ` set (ls_Volumes t)"
    using fresh cur i by (auto simp: fresh_uuid_def)
  then have "ls_Volumes t' = ls_Volumes t @ [new_Volume cfg req (cs_VolumeId v)]"
    "ls_Phase t' = ls_Phase t" "ls_Spec t' = ls_Spec t" "st_Capacity (ls_Status t') = st_Capacity (ls_Status t)"
    "st_Allocatable (ls_Status t') = Some (q_Sub Q q (q_New Q (cv_RequiredBytes req)))"
    using ap q AddVolume_new [of "new_Volume cfg req (cs_VolumeId v)" t]
    by (simp_all add: applied_def allocate_def)
  then show ?thesis using k st' st new q dir by (intro that [of t' q]) simp_all
qed

lemma DeleteVolume_on:
  assumes S: "update_contract S stored" "cache_contract S stored"
    and one: "one_per_node (stored (w_sv w))"
    and s: "stored (w_sv w) k = Some s" "ls_Node s = cf_NodeId cfg" "distinct (map v_VolID (ls_Volumes s))"
    and run: "DeleteVolume Q S cfg i w = (Ret u, w')"
  obtains s' q where "stored (w_sv w') = (stored (w_sv w))(k \<mapsto> s')"
    "ls_Spec s' = ls_Spec s" "ls_Phase s' = ls_Phase s"
    "ls_Volumes s' = filter (\<lambda>v. v_VolID v \<noteq> i) (ls_Volumes s)"
    "st_Allocatable (ls_Status s) = Some q"
    "st_Allocatable (ls_Status s') = Some (q_Add Q q (q_New Q (v_VolSize
       (case find (\<lambda>v. v_VolID v = i) (ls_Volumes s) of None \<Rightarrow> zero_Volume | Some v \<Rightarrow> v))))"
    "st_Capacity (ls_Status s') = st_Capacity (ls_Status s)"
    "DeleteVolumeDir (parseVolumePath (cf_VolumeDir cfg) i) (w_fs w) = (None, w_fs w')"
  using S run
proof (rule DeleteVolume_store)
  fix t t' q
  assume t: "GetLocalStorageByNode S (cf_NodeId cfg) (w_sv w) = Inr t"
    and q: "st_Allocatable (ls_Status t) = Some q" and cur: "stored (w_sv w) (ls_Name t) = Some t"
    and st: "stored (w_sv w') = (stored (w_sv w))(ls_Name t \<mapsto> t')" and ap: "applied (release Q i t) t'"
    and dir: "DeleteVolumeDir (parseVolumePath (cf_VolumeDir cfg) i) (w_fs w) = (None, w_fs w')"
  have k: "k = ls_Name t" and st': "s = t"
    using one_per_nodeD [OF one s(1) cur] s(2) GetLocalStorageByNode_Inr(2) [OF t] by auto
  with s(3) have d: "distinct (map v_VolID (ls_Volumes t))" by simp
  show ?thesis
    using k st' st q dir ap RemoveVolume_distinct [OF d, of i]
    by (intro that [of t' q]) (simp_all add: applied_def release_def)
qed

section \<open>Creating and deleting\<close>

lemma volume_dir_gone:
  assumes c: "CreateVolumeDir (parseVolumePath base i) f = (None, g)"
    and d: "DeleteVolumeDir (parseVolumePath base i) g = (None, h)" and plain: "plain_name i"
    and q: "\<not> prefix q (pos_of f base @ [i])"
  shows "exists_at h q \<longleftrightarrow> exists_at f q \<and> \<not> prefix (pos_of f base @ [i]) q"
proof -
  have p: "pos_of f (parseVolumePath base i) = pos_of f base @ [i]"
    using plain by (simp add: pos_of_def parseVolumePath_def resolve_below)
  have g: "pos_of g (parseVolumePath base i) = pos_of f base @ [i]"
    using same_env_pos [OF dirs.create_env [OF c]] p by metis
  have ne: "parseVolumePath base i \<noteq> []"
    using plain unfolding parseVolumePath_def by (intro Join_nonempty) (simp add: plain_name_def)
  have "exists_at g q = exists_at f q"
    using dirs.create_keeps [OF c] dirs.create_only [OF c] p q by metis
  then show ?thesis
    using dirs.delete_ok [OF d ne] dirs.delete_keeps [OF d] g by auto
qed

text \<open>
  C11. A volume that is created and then deleted leaves no trace: the node's object has the phase, the
  volumes and the amount of free space it had, and the files are those that were there, except
  that a missing part of the volume directory's path may have been made.
\<close>

theorem create_delete_roundtrip:
  assumes Q: "quantity_laws Q val"
    and S: "update_contract S stored" "cache_contract S stored" "uuid_contract S stored"
    and fresh: "fresh_uuid S stored (w_sv w)" and plain: "plain_name (cs_VolumeId v)"
    and inv: "one_per_node (stored (w_sv w))" "all_balanced val (stored (w_sv w))"
    and s: "stored (w_sv w) k = Some s" "ls_Node s = cf_NodeId cfg"
    and create: "CreateVolume Q S cfg req w = (Ret v, w1)"
    and between: "same_store stored w1 w2" "w_fs w2 = w_fs w1"
    and delete: "DeleteVolume Q S cfg (cs_VolumeId v) w2 = (Ret u, w3)"
  shows "(\<exists>s'. stored (w_sv w3) = (stored (w_sv w))(k \<mapsto> s') \<and>
      ls_Spec s' = ls_Spec s \<and> ls_Phase s' = ls_Phase s \<and> ls_Volumes s' = ls_Volumes s \<and>
      st_Capacity (ls_Status s') = st_Capacity (ls_Status s) \<and>
      map_option val (st_Allocatable (ls_Status s')) = map_option val (st_Allocatable (ls_Status s))) \<and>
    (let p = pos_of (w_fs w) (cf_VolumeDir cfg) @ [cs_VolumeId v] in
       \<forall>q. \<not> prefix q p \<longrightarrow> exists_at (w_fs w3) q \<longleftrightarrow> exists_at (w_fs w) q \<and> \<not> prefix p q)"
  using S fresh inv(1) s create
proof (rule CreateVolume_on)
  fix s1 q
  assume s1: "stored (w_sv w1) = (stored (w_sv w))(k \<mapsto> s1)" "ls_Spec s1 = ls_Spec s" "ls_Phase s1 = ls_Phase s"
    "ls_Volumes s1 = ls_Volumes s @ [new_Volume cfg req (cs_VolumeId v)]"
    and new: "cs_VolumeId v \<notin> v_VolID ` set (ls_Volumes s)"
    and q: "st_Allocatable (ls_Status s) = Some q"
      "st_Allocatable (ls_Status s1) = Some (q_Sub Q q (q_New Q (cv_RequiredBytes req)))"
      "st_Capacity (ls_Status s1) = st_Capacity (ls_Status s)"
    and d1: "CreateVolumeDir (parseVolumePath (cf_VolumeDir cfg) (cs_VolumeId v)) (w_fs w) = (None, w_fs w1)"
  have "distinct (map v_VolID (ls_Volumes s))"
    using inv(2) s(1) balanced_distinct unfolding all_balanced_def by blast
  with new s1(4) have dist: "distinct (map v_VolID (ls_Volumes s1))" by simp
  have w2: "one_per_node (stored (w_sv w2))" "stored (w_sv w2) k = Some s1" "ls_Node s1 = cf_NodeId cfg"
    using between(1) s1 one_per_node_replace [OF inv(1) s(1), of s1] s(2) by (auto simp: same_store_def)
  have f: "filter (\<lambda>x. v_VolID x \<noteq> cs_VolumeId v) (ls_Volumes s) = ls_Volumes s"
    using new by (auto simp: filter_id_conv)
  have fd: "find (\<lambda>x. v_VolID x = cs_VolumeId v) (ls_Volumes s1) = Some (new_Volume cfg req (cs_VolumeId v))"
    using s1(4) find_key_None [OF new] by (simp add: find_append)
  show ?thesis
    using S(1,2) w2 dist delete
  proof (rule DeleteVolume_on)
    fix s' q'
    assume st: "stored (w_sv w3) = (stored (w_sv w2))(k \<mapsto> s')" "ls_Spec s' = ls_Spec s1" "ls_Phase s' = ls_Phase s1"
      "ls_Volumes s' = filter (\<lambda>x. v_VolID x \<noteq> cs_VolumeId v) (ls_Volumes s1)"
      and q': "st_Allocatable (ls_Status s1) = Some q'"
        "st_Allocatable (ls_Status s') = Some (q_Add Q q' (q_New Q (v_VolSize
           (case find (\<lambda>x. v_VolID x = cs_VolumeId v) (ls_Volumes s1) of None \<Rightarrow> zero_Volume | Some v \<Rightarrow> v))))"
        "st_Capacity (ls_Status s') = st_Capacity (ls_Status s1)"
      and d2: "DeleteVolumeDir (parseVolumePath (cf_VolumeDir cfg) (cs_VolumeId v)) (w_fs w2) = (None, w_fs w3)"
    have "stored (w_sv w3) = (stored (w_sv w))(k \<mapsto> s')" using st(1) s1(1) between(1) by (simp add: same_store_def)
    moreover have "ls_Volumes s' = ls_Volumes s" using st(4) s1(4) f by simp
    moreover have "map_option val (st_Allocatable (ls_Status s')) = map_option val (st_Allocatable (ls_Status s))"
      using q q' fd Q by (simp add: quantity_laws_simps)
    ultimately show ?thesis
      using st s1 q q' volume_dir_gone [OF d1 d2 [unfolded between(2)] plain] by (auto simp: Let_def)
  qed
qed

lemma ready_world_one: "one_per_node (api_stored (w_sv ready_world))"
  by (auto simp: one_per_node_def ready_world_def split: if_splits)

lemma ready_world_object:
  "api_stored (w_sv ready_world) ''ls-n'' = Some (sample_ls LocalStorageReady (Some 95) (Some 100) [sample_vol ''a'' 5])"
  "ls_Node (sample_ls LocalStorageReady (Some 95) (Some 100) [sample_vol ''a'' 5]) = cf_NodeId sample_cfg"
  by (simp_all add: ready_world_def sample_cfg_def)

definition refreshed :: "api world \<Rightarrow> api world" where
  "refreshed w = w\<lparr>w_sv := api_refresh (w_sv w)\<rparr>"

lemma refreshed_same [simp]: "same_store api_stored w (refreshed w)" "w_fs (refreshed w) = w_fs w"
  by (simp_all add: same_store_def refreshed_def api_refresh_def api_stored_def fun_eq_iff)

definition created_world :: "api world" where
  "created_world = refreshed (snd (CreateVolume int_quantity api_services sample_cfg sample_req ready_world))"

lemma created_id:
  assumes "CreateVolume int_quantity api_services sample_cfg sample_req ready_world = (Ret v, w)"
  shows "cs_VolumeId v = ''pv''"
proof -
  have i: "fst (sv_NewUUID api_services (w_sv ready_world)) = ''pv''"
    by (simp add: api_services_def ready_world_def sample_api_def)
  show ?thesis
    by (rule CreateVolume_store [OF api_update_contract api_cache_contract api_uuid_contract assms])
      (simp add: i [symmetric])
qed

lemma create_delete_roundtrip_witness:
  "\<exists>w s'. DeleteVolume int_quantity api_services sample_cfg ''pv'' created_world = (Ret (), w) \<and>
     api_stored (w_sv w) ''ls-n'' = Some s' \<and> ls_Volumes s' = [sample_vol ''a'' 5] \<and>
     st_Allocatable (ls_Status s') = Some 95"
proof -
  obtain v w1 where run: "CreateVolume int_quantity api_services sample_cfg sample_req ready_world = (Ret v, w1)"
    by (rule outcome_split [OF create_runs])
  note v = created_id [OF run]
  have w: "created_world = refreshed w1" by (simp add: created_world_def run)
  have "is_Ret (fst (DeleteVolume int_quantity api_services sample_cfg ''pv'' created_world))" by code_simp
  then obtain u w3 where del: "DeleteVolume int_quantity api_services sample_cfg (cs_VolumeId v) (refreshed w1) = (Ret u, w3)"
    unfolding v w by (rule outcome_split)
  have p: "plain_name (cs_VolumeId v)" using plain_sample(2) v by simp
  from create_delete_roundtrip [OF int_quantity_laws api_update_contract api_cache_contract api_uuid_contract
      ready_world_fresh p ready_world_one ready_world_balanced ready_world_object run refreshed_same del]
  show ?thesis using del unfolding v w by (auto simp: map_option_case split: option.splits)
qed

text \<open>
  \<open>CreateVolume\<close> is not idempotent, although the CSI specification asks for it: a caller that
  repeats a request (because the answer was lost) gets a second volume with another ID under
  the same name, and the size is taken off twice.
\<close>

theorem CreateVolume_repeated:
  assumes Q: "quantity_laws Q val"
    and S: "update_contract S stored" "cache_contract S stored" "uuid_contract S stored"
    and fresh: "fresh_uuid S stored (w_sv w)" "fresh_uuid S stored (w_sv w2)"
    and one: "one_per_node (stored (w_sv w))" and s: "stored (w_sv w) k = Some s" "ls_Node s = cf_NodeId cfg"
    and first: "CreateVolume Q S cfg req w = (Ret v1, w1)" and between: "same_store stored w1 w2"
    and again: "CreateVolume Q S cfg req w2 = (Ret v2, w3)"
  shows "cs_VolumeId v2 \<noteq> cs_VolumeId v1 \<and>
    (\<exists>s'. stored (w_sv w3) = (stored (w_sv w))(k \<mapsto> s') \<and>
       ls_Volumes s' = ls_Volumes s @ [new_Volume cfg req (cs_VolumeId v1), new_Volume cfg req (cs_VolumeId v2)] \<and>
       map_option val (st_Allocatable (ls_Status s')) =
         map_option (\<lambda>q. val q - 2 * of_int (sint (cv_RequiredBytes req))) (st_Allocatable (ls_Status s)))"
  using S fresh(1) one s first
proof (rule CreateVolume_on)
  fix s1 q
  assume s1: "stored (w_sv w1) = (stored (w_sv w))(k \<mapsto> s1)" "ls_Spec s1 = ls_Spec s"
      "ls_Volumes s1 = ls_Volumes s @ [new_Volume cfg req (cs_VolumeId v1)]"
    and q: "st_Allocatable (ls_Status s) = Some q"
      "st_Allocatable (ls_Status s1) = Some (q_Sub Q q (q_New Q (cv_RequiredBytes req)))"
  have w2: "one_per_node (stored (w_sv w2))" "stored (w_sv w2) k = Some s1" "ls_Node s1 = cf_NodeId cfg"
    using between s1 one_per_node_replace [OF one s(1), of s1] s(2) by (auto simp: same_store_def)
  show ?thesis
    using S fresh(2) w2 again
  proof (rule CreateVolume_on)
    fix s' q'
    assume "stored (w_sv w3) = (stored (w_sv w2))(k \<mapsto> s')"
      "ls_Volumes s' = ls_Volumes s1 @ [new_Volume cfg req (cs_VolumeId v2)]"
      "cs_VolumeId v2 \<notin> v_VolID ` set (ls_Volumes s1)"
      "st_Allocatable (ls_Status s1) = Some q'"
      "st_Allocatable (ls_Status s') = Some (q_Sub Q q' (q_New Q (cv_RequiredBytes req)))"
    with s1 q between Q show ?thesis
      by (intro conjI exI [of _ s']) (simp_all add: same_store_def quantity_laws_simps)
  qed
qed

lemma CreateVolume_repeated_witness:
  "\<exists>w s'. CreateVolume int_quantity api_services sample_cfg sample_req created_world = w \<and>
     api_stored (w_sv (snd w)) ''ls-n'' = Some s' \<and> map v_VolName (ls_Volumes s') = [[], ''pvc'', ''pvc''] \<and>
     st_Allocatable (ls_Status s') = Some 75"
proof -
  obtain v w1 where run: "CreateVolume int_quantity api_services sample_cfg sample_req ready_world = (Ret v, w1)"
    by (rule outcome_split [OF create_runs])
  have w: "created_world = refreshed w1" by (simp add: created_world_def run)
  have "is_Ret (fst (CreateVolume int_quantity api_services sample_cfg sample_req created_world))" by code_simp
  then obtain v2 w3 where again: "CreateVolume int_quantity api_services sample_cfg sample_req (refreshed w1) = (Ret v2, w3)"
    unfolding w by (rule outcome_split)
  have "list_all (\<lambda>l. fst (sv_NewUUID api_services (w_sv created_world)) \<notin> v_VolID ` set (ls_Volumes l))
      (api_objs (w_sv created_world))" by code_simp
  then have f: "fresh_uuid api_services api_stored (w_sv (refreshed w1))" unfolding w by (rule fresh_api)
  have "v_VolName (sample_vol ''a'' 5) = []" "cv_Name sample_req = ''pvc''" "cv_RequiredBytes sample_req = 10"
    by (simp_all add: sample_vol_def zero_Volume_def sample_req_def)
  with CreateVolume_repeated [OF int_quantity_laws api_update_contract api_cache_contract api_uuid_contract
      ready_world_fresh f ready_world_one ready_world_object run refreshed_same(1) again]
  show ?thesis using again unfolding w
    by (auto simp: map_option_case simp flip: of_int_diff split: option.splits)
qed

section \<open>Repeating a deletion\<close>

text \<open>
  Attempts to delete one volume: each may fail anywhere (the update is refused, or applied with
  the answer lost, or the directory cannot be removed), and files and cache may change between
  them.
\<close>

inductive delete_attempts ::
    "'q quantity_ops \<Rightarrow> ('q, 'a) services \<Rightarrow> ('a \<Rightarrow> string \<rightharpoonup> 'q LocalStorage) \<Rightarrow> Config \<Rightarrow> string \<Rightarrow>
     'a world \<Rightarrow> 'a world \<Rightarrow> bool"
  for Q S stored cfg i w where
  none: "same_store stored w w1 \<Longrightarrow> delete_attempts Q S stored cfg i w w1"
| attempt: "delete_attempts Q S stored cfg i w w1 \<Longrightarrow> DeleteVolume Q S cfg i w1 = (r, w2) \<Longrightarrow>
     same_store stored w2 w3 \<Longrightarrow> delete_attempts Q S stored cfg i w w3"

lemma ledger_release_idem [simp]: "ledger_release i (ledger_release i L) = ledger_release i L"
  by (simp add: ledger_release_def)

text \<open>The object of the node after some attempts: as it was, or without the volume.\<close>

definition maybe_released ::
    "('q \<Rightarrow> rat) \<Rightarrow> string \<Rightarrow> string \<Rightarrow> 'q LocalStorage \<Rightarrow> (string \<rightharpoonup> 'q LocalStorage) \<Rightarrow> (string \<rightharpoonup> 'q LocalStorage) \<Rightarrow> bool" where
  "maybe_released val i k s m m' \<longleftrightarrow>
     (\<exists>s'. m' = m(k \<mapsto> s') \<and> ls_Node s' = ls_Node s \<and>
        (abs_ledger val s' = abs_ledger val s \<or> abs_ledger val s' = ledger_release i (abs_ledger val s)))"

lemma attempt_releases:
  assumes S: "update_contract S stored" "cache_contract S stored"
    and m: "one_per_node m" "m k = Some s" "ls_Node s = cf_NodeId cfg"
    and inv: "maybe_released val i k s m (stored (w_sv w))" "all_balanced val (stored (w_sv w))"
    and run: "DeleteVolume Q S cfg i w = (r, w')"
  shows "maybe_released val i k s m (stored (w_sv w'))"
    and "r = Ret u \<Longrightarrow> \<exists>s'. stored (w_sv w') = m(k \<mapsto> s') \<and>
      abs_ledger val s' = ledger_release i (abs_ledger val s) \<and> st_Allocatable (ls_Status s') \<noteq> None"
proof -
  obtain s1 where s1: "stored (w_sv w) = m(k \<mapsto> s1)" "ls_Node s1 = ls_Node s"
    and led: "abs_ledger val s1 = abs_ledger val s \<or> abs_ledger val s1 = ledger_release i (abs_ledger val s)"
    using inv(1) unfolding maybe_released_def by blast
  have one: "one_per_node (stored (w_sv w))"
    using one_per_node_replace [OF m(1,2) s1(2)] s1(1) by simp
  have "maybe_released val i k s m (stored (w_sv w')) \<and> (r = Ret u \<longrightarrow>
      (\<exists>s'. stored (w_sv w') = m(k \<mapsto> s') \<and> abs_ledger val s' = ledger_release i (abs_ledger val s) \<and>
         st_Allocatable (ls_Status s') \<noteq> None))"
    using S run
  proof (cases rule: DeleteVolume_effect)
    case nothing
    with inv show ?thesis by simp
  next
    case (released t t')
    have "stored (w_sv w) k = Some s1" using s1(1) by simp
    from one_per_nodeD [OF one released(1) this] released(2) s1(2) m(3) have t: "ls_Name t = k" "t = s1" by auto
    have "distinct (map v_VolID (ls_Volumes s1))"
      using inv(2) released(1) t balanced_distinct unfolding all_balanced_def by blast
    from release_refines [OF this, of val Q i] released(4) t led
    have "abs_ledger val t' = ledger_release i (abs_ledger val s)"
      by (auto simp: applied_def abs_ledger_def)
    moreover have "st_Allocatable (ls_Status t') \<noteq> None" "ls_Node t' = ls_Node s" "stored (w_sv w') = m(k \<mapsto> t')"
      using released t s1 by (simp_all add: applied_def release_def)
    ultimately show ?thesis unfolding maybe_released_def by blast
  qed
  then show "maybe_released val i k s m (stored (w_sv w'))"
    and "r = Ret u \<Longrightarrow> \<exists>s'. stored (w_sv w') = m(k \<mapsto> s') \<and>
      abs_ledger val s' = ledger_release i (abs_ledger val s) \<and> st_Allocatable (ls_Status s') \<noteq> None"
    by simp_all
qed

lemma attempts_released:
  assumes Q: "quantity_laws Q val" and S: "update_contract S stored" "cache_contract S stored"
    and m: "one_per_node (stored (w_sv w))" "all_balanced val (stored (w_sv w))"
      "stored (w_sv w) k = Some s" "ls_Node s = cf_NodeId cfg"
    and runs: "delete_attempts Q S stored cfg i w w1"
  shows "maybe_released val i k s (stored (w_sv w)) (stored (w_sv w1)) \<and> all_balanced val (stored (w_sv w1))"
  using runs
proof (induction rule: delete_attempts.induct)
  case (none w1)
  have "stored (w_sv w) = (stored (w_sv w))(k \<mapsto> s)" by (rule ext) (simp add: m(3))
  with none m(2) show ?case unfolding same_store_def maybe_released_def by metis
next
  case (attempt w1 r w2 w3)
  then show ?case
    using attempt_releases(1) [OF S m(1,3,4) _ _ attempt.hyps(2), of val]
      DeleteVolume_all_balanced [OF Q S _ attempt.hyps(2)]
    by (simp add: same_store_def)
qed

text \<open>
  C13. Deleting is exactly once under retries: however many attempts failed before, and wherever they
  failed, once \<open>DeleteVolume\<close> succeeds the ledger of the node is the initial one with the volume
  released, and what is allocatable is the free space of that ledger.
\<close>

theorem deletes_release_once:
  assumes Q: "quantity_laws Q val" and S: "update_contract S stored" "cache_contract S stored"
    and inv: "one_per_node (stored (w_sv w))" "all_balanced val (stored (w_sv w))"
    and s: "stored (w_sv w) k = Some s" "ls_Node s = cf_NodeId cfg"
    and failed: "delete_attempts Q S stored cfg i w w1" and ok: "DeleteVolume Q S cfg i w1 = (Ret u, w2)"
  shows "\<exists>s' a. stored (w_sv w2) = (stored (w_sv w))(k \<mapsto> s') \<and>
    abs_ledger val s' = ledger_release i (abs_ledger val s) \<and>
    st_Allocatable (ls_Status s') = Some a \<and> val a = ledger_free (ledger_release i (abs_ledger val s))"
proof -
  note run = attempts_released [OF Q S inv s failed]
  obtain s' where s': "stored (w_sv w2) = (stored (w_sv w))(k \<mapsto> s')"
    "abs_ledger val s' = ledger_release i (abs_ledger val s)" "st_Allocatable (ls_Status s') \<noteq> None"
    using attempt_releases(2) [OF S inv(1) s _ _ ok refl] run by blast
  have "all_balanced val (stored (w_sv w2))" using run DeleteVolume_all_balanced [OF Q S _ ok] by blast
  then have "balanced val s'" using s'(1) unfolding all_balanced_def by (metis fun_upd_same)
  with balanced_free s'(2,3) show ?thesis using s'(1) by fastforce
qed

text \<open>A node where the directory of volume \<open>a\<close> cannot be removed, and the same node later.\<close>

definition busy_world :: "api world" where
  "busy_world = ready_world\<lparr>w_fs := sample_fs\<lparr>fs_nodes := [([''d''], Dir ModePerm), ([''d'', ''a''], Dir ModePerm)],
     fs_deny := (\<lambda>op q. if op = OpRemove then Some (OsError EBUSY) else None)\<rparr>\<rparr>"

definition freed :: "api world \<Rightarrow> api world" where
  "freed w = (refreshed w)\<lparr>w_fs := (w_fs w)\<lparr>fs_deny := \<lambda>_ _. None\<rparr>\<rparr>"

lemma freed_same [simp]: "same_store api_stored w (freed w)"
  using refreshed_same(1) [of w] by (simp add: same_store_def freed_def)

lemma busy_world_sv [simp]: "w_sv busy_world = w_sv ready_world"
  by (simp add: busy_world_def)

lemma deletes_release_once_witness:
  "\<exists>e w u w' s'. DeleteVolume int_quantity api_services sample_cfg ''a'' busy_world = (Err e, w) \<and>
     DeleteVolume int_quantity api_services sample_cfg ''a'' (freed w) = (Ret u, w') \<and>
     api_stored (w_sv w') ''ls-n'' = Some s' \<and> ls_Volumes s' = [] \<and>
     st_Allocatable (ls_Status s') = Some 100"
proof -
  obtain r w where run: "DeleteVolume int_quantity api_services sample_cfg ''a'' busy_world = (r, w)"
    by fastforce
  have "fst (DeleteVolume int_quantity api_services sample_cfg ''a'' busy_world) = Err (OsError EBUSY)" by code_simp
  then have r: "r = Err (OsError EBUSY)" using run by simp
  have "is_Ret (fst (DeleteVolume int_quantity api_services sample_cfg ''a''
      (freed (snd (DeleteVolume int_quantity api_services sample_cfg ''a'' busy_world)))))" by code_simp
  then obtain u w' where ok: "DeleteVolume int_quantity api_services sample_cfg ''a'' (freed w) = (Ret u, w')"
    unfolding run snd_conv by (rule outcome_split)
  have failed: "delete_attempts int_quantity api_services api_stored sample_cfg ''a'' busy_world (freed w)"
    by (rule delete_attempts.attempt [OF delete_attempts.none [OF same_store_refl] run freed_same])
  obtain s' where s': "api_stored (w_sv w') = (api_stored (w_sv busy_world))(''ls-n'' \<mapsto> s')"
    "abs_ledger of_int s' = ledger_release ''a'' (abs_ledger of_int
        (sample_ls LocalStorageReady (Some 95) (Some 100) [sample_vol ''a'' 5]))"
    and a: "\<exists>a. st_Allocatable (ls_Status s') = Some a \<and> rat_of_int a = ledger_free (ledger_release ''a''
        (abs_ledger of_int (sample_ls LocalStorageReady (Some 95) (Some 100) [sample_vol ''a'' 5])))"
    using deletes_release_once [OF int_quantity_laws api_update_contract api_cache_contract _ _ _ ready_world_object(2) failed ok,
      where k = "''ls-n''"] ready_world_one ready_world_balanced ready_world_object(1) by auto
  have L: "ledger_release ''a'' (abs_ledger rat_of_int (sample_ls LocalStorageReady (Some 95) (Some 100) [sample_vol ''a'' 5])) =
      \<lparr>nl_total = 100, nl_used = Map.empty\<rparr>"
    by (simp add: ledger_release_def abs_ledger_def used_of_def sample_vol_def fun_eq_iff)
  have "used_of (ls_Volumes s') = Map.empty" using s'(2) unfolding L by (simp add: abs_ledger_def)
  then have "ls_Volumes s' = []" by (simp add: used_of_def)
  moreover have "st_Allocatable (ls_Status s') = Some 100"
    using a unfolding L by (auto simp: ledger_free_def)
  ultimately show ?thesis using run ok s'(1) unfolding r by auto
qed

end
