(* ===== verification/Prop_Placement.thy ===== *)
theory Prop_Placement
  imports Prop_Lifecycle Prop_Scheduler
begin

text \<open>
  Scheduler and plugin together. \<open>CreateVolume\<close> does not look at the free space; what keeps a node
  from being promised twice is that \<open>Filter\<close> refuses nodes without room. The theorem says what
  that is worth: as long as each claim is created on the object \<open>Filter\<close> saw, no node is
  overcommitted, whatever fails on the way and however stale the plugin's cache is.
\<close>

section \<open>Room on a node\<close>

definition roomy :: "('q \<Rightarrow> rat) \<Rightarrow> 'q LocalStorage \<Rightarrow> bool" where
  "roomy val l \<longleftrightarrow>
     (\<forall>a. st_Allocatable (ls_Status l) = Some a \<longrightarrow> 0 \<le> val a) \<and>
     (\<forall>v \<in> set (ls_Volumes l). 0 \<le> sint (v_VolSize v))"

definition all_roomy :: "('q \<Rightarrow> rat) \<Rightarrow> (string \<rightharpoonup> 'q LocalStorage) \<Rightarrow> bool" where
  "all_roomy val m \<longleftrightarrow> (\<forall>k l. m k = Some l \<longrightarrow> roomy val l)"

lemma all_roomy_upd: "all_roomy val m \<Longrightarrow> roomy val l \<Longrightarrow> all_roomy val (m(k \<mapsto> l))"
  by (simp add: all_roomy_def)

lemma roomy_status: "ls_Status l' = ls_Status l \<Longrightarrow> roomy val l' = roomy val l"
  by (simp add: roomy_def)

lemma RemoveVolume_loop_snd: "snd (RemoveVolume_loop i vs k vol) \<in> insert vol (set vs)"
proof (induction i vs k vol rule: RemoveVolume_loop.induct)
  case (1 i vs k vol)
  have "set (take k vs @ drop (Suc k) vs) \<subseteq> set vs" by (auto dest: in_set_takeD in_set_dropD)
  moreover have "k < length vs \<Longrightarrow> vs ! k \<in> set vs" by simp
  ultimately show ?case
    using 1 by (subst RemoveVolume_loop.simps) (auto simp del: set_append)
qed

lemma release_roomy:
  assumes "quantity_laws Q val" and "roomy val s"
  shows "roomy val (release Q i s)"
proof -
  have "snd (RemoveVolume s i) \<in> insert zero_Volume (set (ls_Volumes s))"
    using RemoveVolume_loop_snd by (simp add: RemoveVolume_def Let_def GetVolumes_def)
  then have "0 \<le> sint (v_VolSize (snd (RemoveVolume s i)))"
    using assms(2) by (auto simp: roomy_def zero_Volume_def)
  then have "(0 :: rat) \<le> of_int (sint (v_VolSize (snd (RemoveVolume s i))))" by (simp only: of_int_0_le_iff)
  then show ?thesis
    using assms RemoveVolume_subset [of s i]
    by (auto simp: roomy_def release_def quantity_laws_simps intro: add_nonneg_nonneg)
qed

lemma allocate_roomy:
  assumes "quantity_laws Q val" and "roomy val s" and "st_Allocatable (ls_Status s) = Some a"
    and "0 \<le> sint (v_VolSize v)" and "of_int (sint (v_VolSize v)) \<le> val a"
  shows "roomy val (allocate Q v s)"
  using assms AddVolume_subset [of s v] by (auto simp: roomy_def allocate_def quantity_laws_simps)

section \<open>What the extender promises\<close>

lemma filter_loop_selected:
  "filter_loop Q r m names (sch, failed) = Ret (sch', failed') \<Longrightarrow> n \<in> set sch' \<Longrightarrow>
   n \<in> set sch \<or> (\<exists>l al. m n = Some l \<and> ls_Phase l = LocalStorageReady \<and>
     st_Allocatable (ls_Status l) = Some al \<and> \<not> 0 < q_Cmp Q r al)"
  by (induction names arbitrary: sch failed) (fastforce split: option.splits if_splits)+

text \<open>
  \<open>Filter\<close>, run for a pod with a local claim that asks for \<open>r\<close>, answers node \<open>n\<close>, and \<open>s\<close> is the
  object of \<open>n\<close> its cache has.
\<close>

definition admits ::
    "'q quantity_ops \<Rightarrow> ('q, 'e) services \<Rightarrow> ('q, 'e) cluster_ops \<Rightarrow> extender_args \<Rightarrow> 'e \<Rightarrow>
     string \<Rightarrow> 'q \<Rightarrow> 'q LocalStorage \<Rightarrow> bool" where
  "admits Q S K args e n r s \<longleftrightarrow>
     (\<exists>p pvc e1 res names m. ea_Pod args = Some p \<and>
        GetLocalStoragePersistentVolumeClaimFromPod K p e = Some (Inr (Some pvc), e1) \<and>
        pvc_Requests pvc ResourceStorage = Some r \<and> Filter Q S K args e = Some (Ret res, e1) \<and>
        fr_NodeNames res = Some names \<and> n \<in> set names \<and> GetLocalStorageMap S e1 = Inr m \<and> m n = Some s)"

lemma admits_room:
  assumes "quantity_laws Q val" and "admits Q S K args e n r s"
  obtains a where "ls_Phase s = LocalStorageReady" "st_Allocatable (ls_Status s) = Some a" "val r \<le> val a"
proof -
  obtain p pvc e1 res names m where *: "ea_Pod args = Some p"
      "GetLocalStoragePersistentVolumeClaimFromPod K p e = Some (Inr (Some pvc), e1)"
      "pvc_Requests pvc ResourceStorage = Some r" "Filter Q S K args e = Some (Ret res, e1)"
      "fr_NodeNames res = Some names" "n \<in> set names" "GetLocalStorageMap S e1 = Inr m" "m n = Some s"
    using assms(2) unfolding admits_def by blast
  then obtain all failed where "filter_loop Q r m all ([], Map.empty) = Ret (names, failed)"
    by (auto simp: Filter_def split: option.splits outcome.splits)
  from filter_loop_selected [OF this *(6)] *(8) that assms(1) show ?thesis
    by (auto simp: quantity_laws_simps)
qed

section \<open>Scheduled creations\<close>

text \<open>
  Runs in which every creation follows a decision of the extender: the claim's size is at most
  what \<open>Filter\<close> was asked for, the node is one it answered, and the object it saw is still the
  stored one. Both may fail anywhere; deletions come at any time, on any node.
\<close>

inductive scheduled ::
    "'q quantity_ops \<Rightarrow> ('q, 'a) services \<Rightarrow> ('a \<Rightarrow> string \<rightharpoonup> 'q LocalStorage) \<Rightarrow>
     ('q, 'e) services \<Rightarrow> ('q, 'e) cluster_ops \<Rightarrow> ('q \<Rightarrow> rat) \<Rightarrow> 'a world \<Rightarrow> 'a world \<Rightarrow> bool"
  for Q S stored E K val w where
  start: "scheduled Q S stored E K val w w"
| move: "scheduled Q S stored E K val w w1 \<Longrightarrow> same_store stored w1 w2 \<Longrightarrow>
     scheduled Q S stored E K val w w2"
| place: "scheduled Q S stored E K val w w1 \<Longrightarrow> admits Q E K args e (cf_NodeId cfg) r s \<Longrightarrow>
     stored (w_sv w1) (ls_Name s) = Some s \<Longrightarrow> ls_Node s = cf_NodeId cfg \<Longrightarrow>
     0 \<le> sint (cv_RequiredBytes req) \<Longrightarrow> of_int (sint (cv_RequiredBytes req)) \<le> val r \<Longrightarrow>
     CreateVolume Q S cfg req w1 = (res, w2) \<Longrightarrow> scheduled Q S stored E K val w w2"
| remove: "scheduled Q S stored E K val w w1 \<Longrightarrow> DeleteVolume Q S cfg i w1 = (out, w2) \<Longrightarrow>
     scheduled Q S stored E K val w w2"

lemma place_roomy:
  assumes Q: "quantity_laws Q val"
    and S: "update_contract S stored" "cache_contract S stored" "uuid_contract S stored"
    and one: "one_per_node (stored (w_sv w))" and room: "all_roomy val (stored (w_sv w))"
    and adm: "admits Q E K args e (cf_NodeId cfg) r s"
    and s: "stored (w_sv w) (ls_Name s) = Some s" "ls_Node s = cf_NodeId cfg"
    and n: "0 \<le> sint (cv_RequiredBytes req)" "of_int (sint (cv_RequiredBytes req)) \<le> val r"
    and run: "CreateVolume Q S cfg req w = (res, w')"
  shows "one_per_node (stored (w_sv w')) \<and> all_roomy val (stored (w_sv w'))"
  using S run
proof (cases rule: CreateVolume_effect)
  case (allocated t t' i)
  have t: "t = s" using one_per_nodeD [OF one allocated(1) s(1)] allocated(2) s(2) by simp
  obtain a where a: "st_Allocatable (ls_Status s) = Some a" "val r \<le> val a"
    using admits_room [OF Q adm] by blast
  have "roomy val s" using room s(1) unfolding all_roomy_def by blast
  from allocate_roomy [OF Q this a(1)] n a(2) have "roomy val (allocate Q (new_Volume cfg req i) s)" by simp
  with allocated(4) t roomy_status have r: "roomy val t'" unfolding applied_def by metis
  have "ls_Node t' = ls_Node t" using allocated(4) by (simp add: applied_def)
  with one_per_node_replace [OF one allocated(1)] allocated(3) all_roomy_upd [OF room r]
  show ?thesis by simp
qed (use one room in simp)

lemma remove_roomy:
  assumes Q: "quantity_laws Q val" and S: "update_contract S stored" "cache_contract S stored"
    and one: "one_per_node (stored (w_sv w))" and room: "all_roomy val (stored (w_sv w))"
    and run: "DeleteVolume Q S cfg i w = (res, w')"
  shows "one_per_node (stored (w_sv w')) \<and> all_roomy val (stored (w_sv w'))"
  using S run
proof (cases rule: DeleteVolume_effect)
  case (released t t')
  have "roomy val t" using room released(1) unfolding all_roomy_def by blast
  with release_roomy [OF Q] released(4) roomy_status have r: "roomy val t'" unfolding applied_def by metis
  have "ls_Node t' = ls_Node t" using released(4) by (simp add: applied_def)
  with one_per_node_replace [OF one released(1)] released(3) all_roomy_upd [OF room r]
  show ?thesis by simp
qed (use one room in simp)

text \<open>
  C7. Scheduler and plugin together never overcommit a node: if every creation was admitted by
  \<open>Filter\<close> on the object that is still stored when the volume is created, then whatever creations
  and deletions happened, on whatever stale cache of the plugin and with whatever failures, no
  allocatable quantity is negative.
\<close>

theorem scheduled_never_overcommits:
  assumes Q: "quantity_laws Q val"
    and S: "update_contract S stored" "cache_contract S stored" "uuid_contract S stored"
    and inv: "one_per_node (stored (w_sv w))" "all_roomy val (stored (w_sv w))"
    and run: "scheduled Q S stored E K val w w'"
    and obj: "stored (w_sv w') k = Some l" "st_Allocatable (ls_Status l) = Some a"
  shows "0 \<le> val a"
proof -
  have "one_per_node (stored (w_sv w')) \<and> all_roomy val (stored (w_sv w'))"
    using run
  proof (induction rule: scheduled.induct)
    case start
    with inv show ?case by simp
  next
    case (move w1 w2)
    then show ?case by (simp add: same_store_def)
  next
    case (place w1 args e cfg r s req res w2)
    then show ?case using place_roomy [OF Q S _ _ place.hyps(2-7)] by simp
  next
    case (remove w1 cfg i out w2)
    then show ?case using remove_roomy [OF Q S(1,2)] by blast
  qed
  with obj show ?thesis unfolding all_roomy_def roomy_def by blast
qed

lemma sample_admits:
  "admits int_quantity cluster_services (cluster_ops_of 50 0) (sample_args [Some ''data'']) sample_cluster
     ''n'' 50 (sample_ls LocalStorageReady (Some 95) (Some 100) [sample_vol ''a'' 5])"
proof -
  have m: "GetLocalStorageMap cluster_services sample_cluster =
      Inr [''n'' \<mapsto> sample_ls LocalStorageReady (Some 95) (Some 100) [sample_vol ''a'' 5]]"
    by (simp add: GetLocalStorageMap_eq cluster_list node_map_def)
  have "\<exists>res. Filter int_quantity cluster_services (cluster_ops_of 50 0) (sample_args [Some ''data'']) sample_cluster =
      Some (Ret res, sample_cluster) \<and> fr_NodeNames res = Some [''n'']"
    using data_claim [of 50 "[]"] m
    by (simp add: Filter_def sample_args_def ResourceStorage_def int_quantity_def)
  then show ?thesis
    using data_claim [of 50 "[]"] m unfolding admits_def sample_args_def
    by (fastforce simp: ResourceStorage_def)
qed

lemma scheduled_never_overcommits_witness:
  "\<exists>w l a. scheduled int_quantity api_services api_stored cluster_services (cluster_ops_of 50 0) rat_of_int ready_world w \<and>
     api_stored (w_sv w) ''ls-n'' = Some l \<and> map v_VolName (ls_Volumes l) = [[], ''pvc''] \<and>
     st_Allocatable (ls_Status l) = Some a \<and> 0 \<le> a"
proof -
  let ?s = "sample_ls LocalStorageReady (Some 95) (Some 100) [sample_vol ''a'' 5]"
  have n: "cf_NodeId sample_cfg = ''n''" "cv_RequiredBytes sample_req = 10" "cv_Name sample_req = ''pvc''"
    "v_VolName (sample_vol ''a'' 5) = []"
    by (simp_all add: sample_cfg_def sample_req_def sample_vol_def zero_Volume_def)
  obtain v w where run: "CreateVolume int_quantity api_services sample_cfg sample_req ready_world = (Ret v, w)"
    by (rule outcome_split [OF create_runs])
  have sched: "scheduled int_quantity api_services api_stored cluster_services (cluster_ops_of 50 0) rat_of_int ready_world w"
    by (rule scheduled.place [OF scheduled.start sample_admits [folded n(1)] _ _ _ _ run])
      (use ready_world_object n in simp_all)
  have room: "all_roomy rat_of_int (api_stored (w_sv ready_world))"
    by (auto simp: all_roomy_def roomy_def ready_world_def sample_vol_def split: if_splits)
  show ?thesis
    using api_update_contract api_cache_contract api_uuid_contract ready_world_fresh ready_world_one
      ready_world_object run
  proof (rule CreateVolume_on)
    fix s' q
    assume s': "api_stored (w_sv w) = (api_stored (w_sv ready_world))(''ls-n'' \<mapsto> s')"
      "ls_Volumes s' = ls_Volumes ?s @ [new_Volume sample_cfg sample_req (cs_VolumeId v)]"
      "st_Allocatable (ls_Status s') = Some (q_Sub int_quantity q (q_New int_quantity (cv_RequiredBytes sample_req)))"
    then have "api_stored (w_sv w) ''ls-n'' = Some s'" by simp
    from scheduled_never_overcommits [OF int_quantity_laws api_update_contract api_cache_contract api_uuid_contract
        ready_world_one room sched this s'(3)]
    show ?thesis using sched s' n by auto
  qed
qed

end
