(* ===== verification/Prop_Ownership.thy ===== *)
theory Prop_Ownership
  imports Prop_Reconcile LS_Main
begin

text \<open>
  A plugin runs on every node, and all of them watch all objects. What keeps them apart: the event
  filter drops objects of other nodes, so only names seen on the own node enter the queue, and the
  CSI handlers look their object up by node. \<open>sync\<close> itself does not look at the node again: the
  object it finds under a name may by then be another one, of another node.
\<close>

section \<open>What a plugin does\<close>

datatype plugin_act = Work | Create | Delete

text \<open>The plugin of \<open>cfg\<close> reconciles a key from its queue, or serves a CSI call.\<close>

inductive plugin_acts ::
    "'q quantity_ops \<Rightarrow> ('q, 'a) services \<Rightarrow> 'k queue_ops \<Rightarrow> Config \<Rightarrow> plugin_act \<Rightarrow>
     'a world \<times> 'k \<Rightarrow> 'a world \<times> 'k \<Rightarrow> bool"
  for Q S O' cfg where
  work: "plugin_processNextWorkItem Q S O' (w, q) = (cont, w1, q1) \<Longrightarrow>
     plugin_acts Q S O' cfg Work (w, q) (w1, q1)"
| create: "CreateVolume Q S cfg req w = (v, w1) \<Longrightarrow> plugin_acts Q S O' cfg Create (w, q) (w1, q)"
| delete: "DeleteVolume Q S cfg i w = (u, w1) \<Longrightarrow> plugin_acts Q S O' cfg Delete (w, q) (w1, q)"

text \<open>
  Its runs, from an empty queue, with the events it has handled: any events, and everything else
  may change the objects, the cache and the files in any way at any time.
\<close>

inductive plugin_runs ::
    "'q quantity_ops \<Rightarrow> ('q, 'a) services \<Rightarrow> 'k queue_ops \<Rightarrow> ('k \<Rightarrow> string set) \<Rightarrow> Config \<Rightarrow>
     'q informer_event list \<Rightarrow> 'a world \<times> 'k \<Rightarrow> bool"
  for Q S O' keys cfg where
  start: "keys q = {} \<Longrightarrow> plugin_runs Q S O' keys cfg [] (w, q)"
| event: "plugin_runs Q S O' keys cfg es (w, q) \<Longrightarrow>
     plugin_runs Q S O' keys cfg (e # es) (w, NewLocalStorage_handle cfg O' e q)"
| acts: "plugin_runs Q S O' keys cfg es s \<Longrightarrow> plugin_acts Q S O' cfg a s t \<Longrightarrow>
     plugin_runs Q S O' keys cfg es t"
| others: "plugin_runs Q S O' keys cfg es (w, q) \<Longrightarrow> plugin_runs Q S O' keys cfg es (w', q)"

text \<open>The names of the objects the events showed on the plugin's own node.\<close>

fun shown :: "'q informer_event \<Rightarrow> 'q LocalStorage list" where
  "shown (Added (LsObject l)) = [l]"
| "shown (Added OtherObject) = []"
| "shown (Updated old cur) = [cur]"
| "shown (Deleted obj) = []"

definition own_names :: "Config \<Rightarrow> 'q informer_event list \<Rightarrow> string set" where
  "own_names cfg es = {ls_Name l |l e. e \<in> set es \<and> l \<in> set (shown e) \<and> ls_Node l = cf_NodeId cfg}"

text \<open>The indexer finds objects under their names.\<close>

definition indexer_law :: "('q, 'a) services \<Rightarrow> bool" where
  "indexer_law S \<longleftrightarrow> (\<forall>k a l. sv_GetByKey S k a = Inr (Some l) \<longrightarrow> ls_Name l = k)"

section \<open>One step\<close>

text \<open>A change of one stored object that stays on its node, and satisfies \<open>P\<close>.\<close>

definition one_change ::
    "(string \<Rightarrow> 'q LocalStorage \<Rightarrow> bool) \<Rightarrow> (string \<rightharpoonup> 'q LocalStorage) \<Rightarrow> (string \<rightharpoonup> 'q LocalStorage) \<Rightarrow> bool" where
  "one_change P m m' \<longleftrightarrow>
     m' = m \<or> (\<exists>k l l'. m k = Some l \<and> m' = m(k \<mapsto> l') \<and> ls_Node l' = ls_Node l \<and> P k l)"

lemma same_one_change [simp]: "one_change P m m"
  by (simp add: one_change_def)

lemma one_changeI: "m k = Some l \<Longrightarrow> m' = m(k \<mapsto> l') \<Longrightarrow> ls_Node l' = ls_Node l \<Longrightarrow> P k l \<Longrightarrow> one_change P m m'"
  unfolding one_change_def by blast

lemma one_changeD:
  assumes "one_change P m m'" and "m' k \<noteq> m k"
  shows "\<exists>l l'. m k = Some l \<and> m' k = Some l' \<and> ls_Node l' = ls_Node l \<and> P k l"
  using assms unfolding one_change_def by (auto split: if_splits)

lemma FilterFunc_node: "plugin_FilterFunc cfg (LsObject l) \<Longrightarrow> ls_Node l = cf_NodeId cfg"
  by (auto simp: AssignedLocalstorage_def split: if_splits)

lemma sync_one:
  assumes S: "update_contract S stored" "cache_contract S stored" and I: "indexer_law S"
    and run: "sync Q S key w = (e, w')"
  shows "one_change (\<lambda>k l. k = key) (stored (w_sv w)) (stored (w_sv w'))"
  using S run
proof (cases rule: sync_effect)
  case (moved l l')
  then have "ls_Name l = key" using I by (auto simp: indexer_law_def lister_Get_Inr)
  with moved show ?thesis by (intro one_changeI [of _ key l _ l']) simp_all
qed simp

lemma CreateVolume_own:
  assumes S: "update_contract S stored" "cache_contract S stored" "uuid_contract S stored"
    and run: "CreateVolume Q S cfg req w = (v, w')"
  shows "one_change (\<lambda>k l. ls_Node l = cf_NodeId cfg) (stored (w_sv w)) (stored (w_sv w'))"
  using S run
proof (cases rule: CreateVolume_effect)
  case (allocated s s' i)
  then show ?thesis by (intro one_changeI [of _ "ls_Name s" s _ s']) (simp_all add: applied_def)
qed simp

lemma DeleteVolume_own:
  assumes S: "update_contract S stored" "cache_contract S stored"
    and run: "DeleteVolume Q S cfg i w = (u, w')"
  shows "one_change (\<lambda>k l. ls_Node l = cf_NodeId cfg) (stored (w_sv w)) (stored (w_sv w'))"
  using S run
proof (cases rule: DeleteVolume_effect)
  case (released s s')
  then show ?thesis by (intro one_changeI [of _ "ls_Name s" s _ s']) (simp_all add: applied_def)
qed simp

lemma handle_keys:
  fixes e :: "'q informer_event"
  assumes L: "key_laws O' keys"
  shows "keys (NewLocalStorage_handle cfg O' e q) \<subseteq> keys q \<union> own_names cfg [e]"
proof -
  have add: "keys (qo_Add O' (ls_Name l) q) \<subseteq> keys q \<union> own_names cfg [e]"
    if "plugin_FilterFunc cfg (LsObject l)" "l \<in> set (shown e)" for l :: "'q LocalStorage"
  proof -
    have "keys (qo_Add O' (ls_Name l) q) \<subseteq> insert (ls_Name l) (keys q)" using L unfolding key_laws_def by blast
    moreover have "ls_Name l \<in> own_names cfg [e]" using that FilterFunc_node by (auto simp: own_names_def)
    ultimately show ?thesis by blast
  qed
  show ?thesis
    using add by (cases "(cfg, O', e, q)" rule: NewLocalStorage_handle.cases)
      (auto simp: plugin_addStorage_def plugin_updateStorage_def plugin_enqueue_def
        simp del: plugin_FilterFunc.simps split: event_object.splits bool.splits)
qed

lemma own_names_Cons: "own_names cfg (e # es) = own_names cfg [e] \<union> own_names cfg es"
  by (auto simp: own_names_def)

lemma plugin_acts_keys:
  assumes "key_laws O' keys" and "plugin_acts Q S O' cfg a s t"
  shows "keys (snd t) \<subseteq> keys (snd s)"
  using assms(2)
proof (cases rule: plugin_acts.cases)
  case (work w q cont w1 q1)
  with plugin_loop.takes_known_key [OF assms(1) work(4)] show ?thesis by auto
qed auto

lemma plugin_runs_keys:
  assumes L: "key_laws O' keys" and run: "plugin_runs Q S O' keys cfg es s"
  shows "keys (snd s) \<subseteq> own_names cfg es"
  using run
proof (induction rule: plugin_runs.induct)
  case (event es w q e)
  with handle_keys [OF L, of cfg e q] show ?case unfolding own_names_Cons [of cfg e es] by auto
next
  case (acts es s a t)
  with plugin_acts_keys [OF L acts.hyps(2)] show ?case by blast
qed simp_all

lemma plugin_acts_change:
  assumes S: "update_contract S stored" "cache_contract S stored" "uuid_contract S stored"
    and L: "indexer_law S" "key_laws O' keys" and act: "plugin_acts Q S O' cfg a s t"
  shows "one_change (\<lambda>k l. ls_Node l = cf_NodeId cfg \<or> a = Work \<and> k \<in> keys (snd s))
    (stored (w_sv (fst s))) (stored (w_sv (fst t)))"
  using act
proof (cases rule: plugin_acts.cases)
  case (work w q cont w1 q1)
  from plugin_loop.takes_known_key [OF L(2) work(4)]
  consider "w1 = w" | key err where "key \<in> keys q" "sync Q S key w = (err, w1)" by auto
  then show ?thesis
  proof cases
    case 2
    with sync_one [OF S(1,2) L(1) 2(2)] work(1-3) show ?thesis unfolding one_change_def by auto
  qed (use work in simp)
next
  case (create req w v w1 q)
  with CreateVolume_own [OF S create(4)] show ?thesis unfolding one_change_def by auto
next
  case (delete i w u w1 q)
  with DeleteVolume_own [OF S(1,2) delete(4)] show ?thesis unfolding one_change_def by auto
qed

text \<open>
  C10. A plugin changes objects of its own node only, but for one way out: whatever events it
  handled and whatever everything else did before, a step of it creates and removes no object, an
  object it changes stays on its node, and is on the plugin's own node, or it is changed by the
  worker under a name that an earlier event showed on the plugin's own node (the object was
  deleted and created anew for another node meanwhile, and \<open>sync\<close> does not look at the node).
\<close>

theorem plugin_keeps_other_nodes:
  assumes S: "update_contract S stored" "cache_contract S stored" "uuid_contract S stored"
    and L: "indexer_law S" "key_laws O' keys"
    and run: "plugin_runs Q S O' keys cfg es (w, q)"
    and act: "plugin_acts Q S O' cfg a (w, q) (w', q')"
    and changed: "stored (w_sv w') k \<noteq> stored (w_sv w) k"
  shows "\<exists>l l'. stored (w_sv w) k = Some l \<and> stored (w_sv w') k = Some l' \<and> ls_Node l' = ls_Node l \<and>
    (ls_Node l = cf_NodeId cfg \<or> a = Work \<and> k \<in> own_names cfg es)"
proof -
  have "keys q \<subseteq> own_names cfg es" using plugin_runs_keys [OF L(2) run] by simp
  moreover have "one_change (\<lambda>k l. ls_Node l = cf_NodeId cfg \<or> a = Work \<and> k \<in> keys q)
      (stored (w_sv w)) (stored (w_sv w'))"
    using plugin_acts_change [OF S L act] by simp
  from one_changeD [OF this changed] obtain l l' where "stored (w_sv w) k = Some l" "stored (w_sv w') k = Some l'"
    "ls_Node l' = ls_Node l" "ls_Node l = cf_NodeId cfg \<or> a = Work \<and> k \<in> keys q" by blast
  ultimately show ?thesis by blast
qed

lemma work_keys: "key_laws work_ops (\<lambda>q. set (wk_keys q))"
  by (auto simp: key_laws_def work_ops_def split: list.splits)

lemma api_indexer: "indexer_law api_services"
  by (auto simp: indexer_law_def api_services_def dest: find_SomeD)

definition other_ls :: "int LocalStorage" where
  "other_ls = (let l = sample_ls LocalStoragePending None None []
     in l\<lparr>ls_Meta := (ls_Meta l)\<lparr>om_Name := ''ls-m''\<rparr>, ls_Spec := (ls_Spec l)\<lparr>sp_Node := ''m''\<rparr>\<rparr>)"

definition two_nodes :: "api world" where
  "two_nodes = \<lparr>w_fs = sample_fs, w_sv =
     (let ls = [sample_ls LocalStoragePending None None [], other_ls]
      in \<lparr>api_objs = ls, api_cache = ls, api_count = 1, api_ids = 1\<rparr>)\<rparr>"

lemma plugin_keeps_other_nodes_witness:
  "\<exists>w q. plugin_acts int_quantity api_services work_ops sample_cfg Work
       (two_nodes, \<lparr>wk_keys = [''ls-n''], wk_count = \<lambda>_. 0\<rparr>) (w, q) \<and>
     api_stored (w_sv w) ''ls-m'' = Some other_ls \<and>
     map_option ls_Phase (api_stored (w_sv w) ''ls-n'') = Some LocalStorageInitiating"
proof -
  let ?l = "sample_ls LocalStoragePending None None [] :: int LocalStorage"
  let ?q0 = "\<lparr>wk_keys = [], wk_count = \<lambda>_. 0\<rparr> :: work" and ?q1 = "\<lparr>wk_keys = [''ls-n''], wk_count = \<lambda>_. 0\<rparr> :: work"
  let ?es = "[Added (LsObject other_ls), Added (LsObject ?l)]"
  have other: "ls_Name other_ls = ''ls-m''" "ls_Node other_ls = ''m''"
    by (simp_all add: other_ls_def Let_def)
  have st: "api_stored (w_sv two_nodes) = [''ls-n'' \<mapsto> ?l, ''ls-m'' \<mapsto> other_ls]"
    by (auto simp: two_nodes_def api_stored_def other Let_def fun_eq_iff)
  have h: "NewLocalStorage_handle sample_cfg work_ops (Added (LsObject ?l)) ?q0 = ?q1"
      "NewLocalStorage_handle sample_cfg work_ops (Added (LsObject other_ls)) ?q1 = ?q1"
    by (simp_all add: AssignedLocalstorage_def sample_cfg_def phase_tests phase_defs plugin_addStorage_def
        plugin_enqueue_def work_ops_def other)
  let ?runs = "plugin_runs int_quantity api_services work_ops (\<lambda>q. set (wk_keys q)) sample_cfg"
  have "?runs [] (two_nodes, ?q0)" by (rule plugin_runs.start) simp
  from plugin_runs.event [OF this, of "Added (LsObject ?l)"]
  have "?runs [Added (LsObject ?l)] (two_nodes, ?q1)" unfolding h .
  from plugin_runs.event [OF this, of "Added (LsObject other_ls)"] have run: "?runs ?es (two_nodes, ?q1)" unfolding h .
  obtain c w q where it: "plugin_processNextWorkItem int_quantity api_services work_ops (two_nodes, ?q1) = (c, w, q)"
    by (metis surj_pair)
  then have act: "plugin_acts int_quantity api_services work_ops sample_cfg Work (two_nodes, ?q1) (w, q)"
    by (rule plugin_acts.work)
  have "map_option ls_Phase (api_stored (w_sv (fst (snd
      (plugin_processNextWorkItem int_quantity api_services work_ops (two_nodes, ?q1))))) ''ls-n'') = Some LocalStorageInitiating"
    by code_simp
  moreover have "api_stored (w_sv w) ''ls-m'' = Some other_ls"
  proof (rule ccontr)
    assume "api_stored (w_sv w) ''ls-m'' \<noteq> Some other_ls"
    then have "api_stored (w_sv w) ''ls-m'' \<noteq> api_stored (w_sv two_nodes) ''ls-m''" by (simp add: st)
    from plugin_keeps_other_nodes [OF api_update_contract api_cache_contract api_uuid_contract api_indexer work_keys run act this]
    obtain l where l: "api_stored (w_sv two_nodes) ''ls-m'' = Some l"
        "ls_Node l = cf_NodeId sample_cfg \<or> ''ls-m'' \<in> own_names sample_cfg ?es" by blast
    moreover from l(1) have "l = other_ls" by (simp add: st)
    moreover have "''ls-m'' \<notin> own_names sample_cfg ?es" by (auto simp: own_names_def other sample_cfg_def)
    ultimately show False by (simp add: other sample_cfg_def)
  qed
  ultimately show ?thesis using act it by auto
qed

end
