(* ===== verification/Prop_Startup.thy ===== *)
theory Prop_Startup
  imports Prop_Reconcile LS_Main
begin

text \<open>
  The way of a new object through the components: admission, the event, the plugin's queue, two
  reconciliations, and rest.
\<close>

section \<open>When nothing goes wrong\<close>

text \<open>In this state the server takes an update of the current object of a name, and keeps the
  annotations it submits.\<close>

definition accepts_now :: "('q, 'a) services \<Rightarrow> ('a \<Rightarrow> string \<rightharpoonup> 'q LocalStorage) \<Rightarrow> string \<Rightarrow> 'a \<Rightarrow> bool" where
  "accepts_now S stored k a \<longleftrightarrow>
     (\<forall>obj cur. ls_Name obj = k \<longrightarrow> stored a k = Some cur \<longrightarrow> ls_Version cur = ls_Version obj \<longrightarrow>
        (\<exists>o' a' l'. sv_Update S obj a = (Inr o', a') \<and> stored a' k = Some l' \<and>
           om_Annotations (ls_Meta l') = om_Annotations (ls_Meta obj)))"

text \<open>The cache shows the stored object of this name, which an event has just announced.\<close>

definition announced :: "('q, 'a) services \<Rightarrow> ('a \<Rightarrow> string \<rightharpoonup> 'q LocalStorage) \<Rightarrow> string \<Rightarrow> 'q LocalStorage \<Rightarrow> 'a \<Rightarrow> bool" where
  "announced S stored k l a \<longleftrightarrow> stored a k = Some l \<and> ls_Name l = k \<and> lister_Get S k a = Inr l"

text \<open>An idle queue hands out the one key it gets, and is idle again after it was done.\<close>

definition one_key_laws :: "'k queue_ops \<Rightarrow> ('k \<Rightarrow> bool) \<Rightarrow> bool" where
  "one_key_laws O' idle \<longleftrightarrow>
     (\<forall>k q. idle q \<longrightarrow> (\<exists>q1. qo_Get O' (qo_Add O' k q) = (Some k, q1) \<and>
        idle (qo_Done O' k (qo_Forget O' k q1))))"

lemma accepted:
  assumes S: "update_contract S stored" "cache_contract S stored" and C: "announced S stored k l a" "accepts_now S stored k a"
    and obj: "ls_Meta obj = ls_Meta l"
  obtains o' a' l' where "sv_Update S obj a = (Inr o', a')" "stored a' k = Some l'" "applied obj l'"
    "om_Annotations (ls_Meta l') = om_Annotations (ls_Meta l)"
proof -
  have n: "ls_Name l = k" and g: "lister_Get S k a = Inr l" and l: "stored a k = Some l"
    using C(1) by (auto simp: announced_def)
  then obtain o' a' l' where u: "sv_Update S obj a = (Inr o', a')" "stored a' k = Some l'"
      "om_Annotations (ls_Meta l') = om_Annotations (ls_Meta l)"
    using C(2) obj unfolding accepts_now_def by metis
  with status_update_store [OF S g u(1) obj] n have "applied obj l'" by auto
  with u that show ?thesis by blast
qed

text \<open>An event that passes the filter, and the iteration it causes.\<close>

lemma event_then_work:
  assumes O: "one_key_laws O' idle" and q: "idle q" and run: "sync Q S k w = (None, w1)"
  obtains q1 where "plugin_processNextWorkItem Q S O' (w, qo_Add O' k q) = (True, w1, q1)" "idle q1"
proof -
  obtain q0 where "qo_Get O' (qo_Add O' k q) = (Some k, q0)" "idle (qo_Done O' k (qo_Forget O' k q0))"
    using O q unfolding one_key_laws_def by blast
  then show ?thesis using run that by (simp add: plugin_processNextWorkItem_def plugin_handleErr_def)
qed

text \<open>
  C8. From admission to rest: a new object with a path backend on the plugin's node is stored as
  pending by the webhook, its event makes the plugin move it to \<open>Initiating\<close>, the event of that
  change, whenever it comes, makes the plugin initialise it with the annotated (or default) size,
  and the event of the second change does not reach the queue, so the plugin leaves the ready
  object alone. Assumed at each of the two events, and at no other time: the cache shows the
  object it announces (an informer stores an object before it tells its handlers), that is still
  the stored one, the server accepts an update of it, and the plugin's queue is idle; between them
  the server, its cache and the rest of the queue's history may change in any way.
\<close>

theorem created_object_becomes_ready:
  assumes S: "update_contract S stored" "cache_contract S stored"
    and O: "one_key_laws O' idle" "idle q"
    and now: "announced S stored k l (w_sv w)" "accepts_now S stored k (w_sv w)"
    and created: "applied (mutate l0 opCreate) l" "ls_Phase l0 = []"
    and backend: "sp_Path (ls_Spec l0) = Some p" "sp_Lvm (ls_Spec l0) = None" "ls_Node l0 = cf_NodeId cfg"
    and size: "q_Parse Q (node_size l) = Inr quantity"
    and mk: "makeVolumeDir (ps_VolumeDir p) (w_fs w) = (None, f)"
  shows "\<exists>w1 q1 l1.
    plugin_processNextWorkItem Q S O' (w, NewLocalStorage_handle cfg O' (Added (LsObject l)) q) = (True, w1, q1) \<and>
    stored (w_sv w1) k = Some l1 \<and> ls_Phase l1 = LocalStorageInitiating \<and> w_fs w1 = w_fs w \<and>
    (\<forall>a q'. announced S stored k l1 a \<longrightarrow> accepts_now S stored k a \<longrightarrow> idle q' \<longrightarrow>
      (\<exists>w2 q2 l2.
        plugin_processNextWorkItem Q S O' (w1\<lparr>w_sv := a\<rparr>, NewLocalStorage_handle cfg O' (Updated l l1) q') = (True, w2, q2) \<and>
        stored (w_sv w2) k = Some l2 \<and> ls_Phase l2 = LocalStorageReady \<and> ls_Volumes l2 = [] \<and>
        st_Allocatable (ls_Status l2) = Some quantity \<and> st_Capacity (ls_Status l2) = Some quantity \<and>
        idle q2 \<and> (\<forall>q3. NewLocalStorage_handle cfg O' (Updated l1 l2) q3 = q3)))"
proof -
  have spec: "ls_Spec l = ls_Spec l0" "ls_Phase l = LocalStoragePending" "ls_Volumes l = []"
    using created by (simp_all add: applied_def mutate_status LocalStoragePending_def opCreate_def)
  have pend: "LocalStorageIsPending l" using spec by (simp add: phase_tests)
  have n: "ls_Name l = k" and g: "lister_Get S k (w_sv w) = Inr l" using now(1) by (auto simp: announced_def)
  obtain o1 a1 l1 where u1: "sv_Update S (set_Phase LocalStorageInitiating l) (w_sv w) = (Inr o1, a1)"
      "stored a1 k = Some l1" "applied (set_Phase LocalStorageInitiating l) l1"
      "om_Annotations (ls_Meta l1) = om_Annotations (ls_Meta l)"
    by (rule accepted [OF S now, of "set_Phase LocalStorageInitiating l"]) simp_all
  define w1 where "w1 = w\<lparr>w_sv := a1\<rparr>"
  have r1: "sync Q S k w = (None, w1)"
    using g pend u1 by (simp add: sync_def UpdateLocalStoragePhase_def TryUpdateLocalStorage_def w1_def)
  have l1: "ls_Phase l1 = LocalStorageInitiating" "ls_Spec l1 = ls_Spec l0" "ls_Volumes l1 = []"
      "node_size l1 = node_size l" "ls_Name l1 = k"
    using u1(3,4) spec n by (simp_all add: applied_def node_size_def)
  then have np: "\<not> LocalStorageIsPending l1" by (simp add: phase_tests phase_defs)
  have pass: "plugin_FilterFunc cfg (LsObject l)" "plugin_FilterFunc cfg (LsObject l1)"
    using spec l1 backend(3) by (simp_all add: AssignedLocalstorage_def phase_tests phase_defs)
  have h1: "NewLocalStorage_handle cfg O' (Added (LsObject l)) q = qo_Add O' k q"
    using pass n by (simp add: plugin_addStorage_def plugin_enqueue_def del: plugin_FilterFunc.simps)
  have h2: "NewLocalStorage_handle cfg O' (Updated l l1) x = qo_Add O' k x" for x
    using pass l1 by (simp add: plugin_updateStorage_def plugin_enqueue_def del: plugin_FilterFunc.simps)
  obtain q1 where q1: "plugin_processNextWorkItem Q S O' (w, qo_Add O' k q) = (True, w1, q1)" "idle q1"
    by (rule event_then_work [OF O r1])
  have second: "\<exists>w2 q2 l2.
        plugin_processNextWorkItem Q S O' (w1\<lparr>w_sv := a\<rparr>, NewLocalStorage_handle cfg O' (Updated l l1) q') = (True, w2, q2) \<and>
        stored (w_sv w2) k = Some l2 \<and> ls_Phase l2 = LocalStorageReady \<and> ls_Volumes l2 = [] \<and>
        st_Allocatable (ls_Status l2) = Some quantity \<and> st_Capacity (ls_Status l2) = Some quantity \<and>
        idle q2 \<and> (\<forall>q3. NewLocalStorage_handle cfg O' (Updated l1 l2) q3 = q3)"
    if C: "announced S stored k l1 a" "accepts_now S stored k a" and q': "idle q'" for a q'
  proof -
    have g1: "lister_Get S k a = Inr l1" using C(1) by (simp add: announced_def)
    obtain o2 a2 l2 where u2: "sv_Update S (initialised quantity l1) a = (Inr o2, a2)"
        "stored a2 k = Some l2" "applied (initialised quantity l1) l2"
      by (rule accepted [OF S C, of "initialised quantity l1"]) simp_all
    have r2: "sync Q S k (w1\<lparr>w_sv := a\<rparr>) = (None, \<lparr>w_fs = f, w_sv = a2\<rparr>)"
      using g1 np l1 backend size mk u2(1)
      by (simp add: sync_def path_setup_def initialised_def UpdateLocalStoragePhase_def
          TryUpdateLocalStorage_def w1_def)
    have l2: "ls_Phase l2 = LocalStorageReady" "ls_Spec l2 = ls_Spec l0" "ls_Volumes l2 = []"
        "st_Allocatable (ls_Status l2) = Some quantity" "st_Capacity (ls_Status l2) = Some quantity"
      using u2(3) l1 by (simp_all add: applied_def)
    then have "\<not> plugin_FilterFunc cfg (LsObject l2)"
      by (simp add: AssignedLocalstorage_def phase_tests phase_defs)
    with pass have h3: "NewLocalStorage_handle cfg O' (Updated l1 l2) x = x" for x
      by (simp del: plugin_FilterFunc.simps)
    obtain q2 where "plugin_processNextWorkItem Q S O' (w1\<lparr>w_sv := a\<rparr>, qo_Add O' k q') =
        (True, \<lparr>w_fs = f, w_sv = a2\<rparr>, q2)" "idle q2"
      by (rule event_then_work [OF O(1) q' r2])
    with u2(2) l2 h3 show ?thesis
      unfolding h2
      by (intro exI [of _ "\<lparr>w_fs = f, w_sv = a2\<rparr>"] exI [of _ q2] exI [of _ l2])
        (simp del: NewLocalStorage_handle.simps)
  qed
  have "stored (w_sv w1) k = Some l1" "w_fs w1 = w_fs w" using u1(2) by (simp_all add: w1_def)
  with q1(1) l1(1) second show ?thesis
    unfolding h1 by (intro exI [of _ w1] exI [of _ q1] exI [of _ l1]) blast
qed

lemma api_accepts: "accepts_now api_services api_stored k a"
  unfolding accepts_now_def
proof (intro allI impI)
  fix l cur :: "int LocalStorage"
  assume "ls_Name l = k" "api_stored a k = Some cur" "ls_Version cur = ls_Version l"
  moreover from this have "api_stored (a\<lparr>api_objs := api_replace (set_Version (Suc (api_count a)) l) (api_objs a),
      api_count := Suc (api_count a)\<rparr>) (ls_Name l) = Some (set_Version (Suc (api_count a)) l)"
    by (simp add: api_stored_def find_replace)
  ultimately show "\<exists>o' a' l'. sv_Update api_services l a = (Inr o', a') \<and>
      api_stored a' k = Some l' \<and> om_Annotations (ls_Meta l') = om_Annotations (ls_Meta l)"
    by (auto simp: api_services_def api_update_def Let_def set_Version_def)
qed

text \<open>After a refresh the cache shows what is stored; before, it may lag behind.\<close>

lemma refreshed_announced:
  assumes "api_stored a k = Some l"
  shows "announced api_services api_stored k l (api_refresh a)"
proof -
  have st: "api_stored (api_refresh a) = api_stored a" by (simp add: api_refresh_def api_stored_def fun_eq_iff)
  have "find (\<lambda>x. ls_Name x = k) (map (api_cached b) xs) = map_option (api_cached b) (find (\<lambda>x. ls_Name x = k) xs)"
    for b xs by (induction xs) simp_all
  then have "find (\<lambda>x. ls_Name x = k) (api_list (api_refresh a)) = map_option (api_cached (api_refresh a)) (api_stored a k)"
    by (simp add: api_list_def api_stored_def) (simp add: api_refresh_def)
  with assms st api_stored_name [OF assms] show ?thesis
    by (simp add: announced_def lister_Get_Inr api_services_def api_cached_def)
qed

lemma work_one_key: "one_key_laws work_ops (\<lambda>q. wk_keys q = [])"
  by (simp add: one_key_laws_def work_ops_def)

lemma created_object_becomes_ready_witness:
  "\<exists>w1 q1 w2 q2 l2.
     plugin_processNextWorkItem int_quantity api_services work_ops
       (pending_world, \<lparr>wk_keys = [''ls-n''], wk_count = \<lambda>_. 0\<rparr>) = (True, w1, q1) \<and>
     plugin_processNextWorkItem int_quantity api_services work_ops
       (w1\<lparr>w_sv := api_refresh (w_sv w1)\<rparr>, \<lparr>wk_keys = [''ls-n''], wk_count = \<lambda>_. 0\<rparr>) = (True, w2, q2) \<and>
     api_stored (w_sv w2) ''ls-n'' = Some l2 \<and> ls_Phase l2 = LocalStorageReady \<and>
     st_Allocatable (ls_Status l2) = Some (500 * 2 ^ 30)"
proof -
  let ?new = "sample_ls [] None None [] :: int LocalStorage" and ?l = "sample_ls LocalStoragePending None None [] :: int LocalStorage"
  let ?q = "\<lparr>wk_keys = [], wk_count = \<lambda>_. 0\<rparr> :: work"
  have "api_stored (w_sv pending_world) ''ls-n'' = Some ?l" by (simp add: pending_world_def)
  moreover have "api_refresh (w_sv pending_world) = w_sv pending_world"
    by (simp add: pending_world_def api_refresh_def sample_api_def)
  ultimately have now: "announced api_services api_stored ''ls-n'' ?l (w_sv pending_world)"
    using refreshed_announced [of "w_sv pending_world"] by metis
  have ap: "applied (mutate ?new opCreate) ?l"
    by (simp add: applied_def mutate_status) (simp add: sample_ls_def)
  have "fst (makeVolumeDir ''/d'' (w_fs pending_world)) = None" by code_simp
  then obtain f where f: "makeVolumeDir (ps_VolumeDir \<lparr>ps_VolumeDir = ''/d''\<rparr>) (w_fs pending_world) = (None, f)"
    by (cases "makeVolumeDir ''/d'' (w_fs pending_world)") simp
  have size: "q_Parse int_quantity (node_size ?l) = Inr (500 * 2 ^ 30)"
    using int_quantity_parse by (simp add: node_size_def defaultPathSize_def sample_ls_def)
  have node: "ls_Node ?new = cf_NodeId sample_cfg" by (simp add: sample_cfg_def)
  have ph: "ls_Phase ?new = []" and pth: "sp_Path (ls_Spec ?new) = Some \<lparr>ps_VolumeDir = ''/d''\<rparr>"
    and lv: "sp_Lvm (ls_Spec ?new) = None" and idle: "wk_keys ?q = []" by simp_all
  have h1: "NewLocalStorage_handle sample_cfg work_ops (Added (LsObject ?l)) ?q = ?q\<lparr>wk_keys := [''ls-n'']\<rparr>"
    by (simp add: AssignedLocalstorage_def sample_cfg_def phase_tests phase_defs plugin_addStorage_def
        plugin_enqueue_def work_ops_def)
  from created_object_becomes_ready [OF api_update_contract api_cache_contract work_one_key, of ?q, OF idle now api_accepts
      ap ph pth lv node size f]
  obtain w1 q1 l1 where one:
    "plugin_processNextWorkItem int_quantity api_services work_ops
       (pending_world, NewLocalStorage_handle sample_cfg work_ops (Added (LsObject ?l)) ?q) = (True, w1, q1)"
    "api_stored (w_sv w1) ''ls-n'' = Some l1" "ls_Phase l1 = LocalStorageInitiating"
    and two: "\<forall>a q'. announced api_services api_stored ''ls-n'' l1 a \<longrightarrow> accepts_now api_services api_stored ''ls-n'' a \<longrightarrow>
      wk_keys q' = [] \<longrightarrow> (\<exists>w2 q2 l2.
        plugin_processNextWorkItem int_quantity api_services work_ops
          (w1\<lparr>w_sv := a\<rparr>, NewLocalStorage_handle sample_cfg work_ops (Updated ?l l1) q') = (True, w2, q2) \<and>
        api_stored (w_sv w2) ''ls-n'' = Some l2 \<and> ls_Phase l2 = LocalStorageReady \<and> ls_Volumes l2 = [] \<and>
        st_Allocatable (ls_Status l2) = Some (500 * 2 ^ 30) \<and> st_Capacity (ls_Status l2) = Some (500 * 2 ^ 30) \<and>
        wk_keys q2 = [] \<and> (\<forall>q3. NewLocalStorage_handle sample_cfg work_ops (Updated l1 l2) q3 = q3))" by blast
  have it: "(True, w1, q1) = plugin_processNextWorkItem int_quantity api_services work_ops
       (pending_world, \<lparr>wk_keys = [''ls-n''], wk_count = \<lambda>_. 0\<rparr>)"
    using one(1) unfolding h1 by simp
  have "ls_Node l1 = ''n''"
  proof -
    have "map_option ls_Node (api_stored (w_sv (fst (snd (plugin_processNextWorkItem int_quantity api_services work_ops
       (pending_world, \<lparr>wk_keys = [''ls-n''], wk_count = \<lambda>_. 0\<rparr>))))) ''ls-n'') = Some ''n''" by code_simp
    then show ?thesis unfolding it [symmetric] using one(2) by simp
  qed
  then have h2: "NewLocalStorage_handle sample_cfg work_ops (Updated ?l l1) ?q = ?q\<lparr>wk_keys := [''ls-n'']\<rparr>"
    using one(3) api_stored_name [OF one(2)]
    by (simp add: AssignedLocalstorage_def sample_cfg_def phase_tests phase_defs plugin_updateStorage_def
        plugin_enqueue_def work_ops_def)
  note work = two [rule_format, OF refreshed_announced [OF one(2)] api_accepts idle]
  from work it [symmetric] show ?thesis unfolding h2 by simp blast
qed

section \<open>When updates fail\<close>

text \<open>
  For a while the API server may be out of reach, or the cache behind it: as long as \<open>down\<close> is
  positive, the cache shows the stored object of this name or some pending version of it, and the
  server refuses what is made from it with an error that may be retried. When it is not, the cache
  shows the stored object and an update of it is taken. A later outage has at most \<open>limit\<close>
  failures again.
\<close>

definition outages ::
    "('q, 'a) services \<Rightarrow> ('a \<Rightarrow> string \<rightharpoonup> 'q LocalStorage) \<Rightarrow> string \<Rightarrow> (gerror \<Rightarrow> bool) \<Rightarrow> ('a \<Rightarrow> nat) \<Rightarrow> nat \<Rightarrow> bool" where
  "outages S stored k dead down limit \<longleftrightarrow>
     (\<forall>a l. stored a k = Some l \<longrightarrow> ls_Name l = k \<and>
        (if 0 < down a
         then (\<exists>c. lister_Get S k a = Inr c \<and> (c = l \<or> LocalStorageIsPending c) \<and>
           (\<forall>obj. ls_Meta obj = ls_Meta c \<longrightarrow>
             (\<exists>e a'. sv_Update S obj a = (Inl e, a') \<and> \<not> dead e \<and> stored a' k = Some l \<and> down a' < down a)))
         else lister_Get S k a = Inr l \<and>
           (\<forall>obj. ls_Meta obj = ls_Meta l \<longrightarrow>
             (\<exists>o' a' l'. sv_Update S obj a = (Inr o', a') \<and> stored a' k = Some l' \<and>
               om_Annotations (ls_Meta l') = om_Annotations (ls_Meta l) \<and> down a' \<le> limit))))"

lemma outage_cases:
  assumes S: "update_contract S stored" "cache_contract S stored" and C: "outages S stored k dead down limit"
    and l: "stored a k = Some l"
  obtains (failing) c where "lister_Get S k a = Inr c" "c = l \<or> LocalStorageIsPending c"
    "\<And>obj. ls_Meta obj = ls_Meta c \<Longrightarrow>
       \<exists>e a'. sv_Update S obj a = (Inl e, a') \<and> \<not> dead e \<and> stored a' k = Some l \<and> down a' < down a"
  | (working) "lister_Get S k a = Inr l"
    "\<And>obj. ls_Meta obj = ls_Meta l \<Longrightarrow>
       \<exists>o' a' l'. sv_Update S obj a = (Inr o', a') \<and> stored a' k = Some l' \<and> applied obj l' \<and>
         om_Annotations (ls_Meta l') = om_Annotations (ls_Meta l) \<and> down a' \<le> limit"
proof (cases "0 < down a")
  case True
  with C l failing show thesis unfolding outages_def by (metis (lifting))
next
  case False
  moreover note C [unfolded outages_def, rule_format, OF l]
  ultimately have n: "ls_Name l = k" and g: "lister_Get S k a = Inr l"
    and upd: "\<And>obj. ls_Meta obj = ls_Meta l \<Longrightarrow>
       \<exists>o' a' l'. sv_Update S obj a = (Inr o', a') \<and> stored a' k = Some l' \<and>
         om_Annotations (ls_Meta l') = om_Annotations (ls_Meta l) \<and> down a' \<le> limit"
    by simp_all
  show thesis
  proof (rule working [OF g])
    fix obj :: "'a LocalStorage" assume obj: "ls_Meta obj = ls_Meta l"
    from upd [OF this] obtain o' a' l' where u: "sv_Update S obj a = (Inr o', a')" "stored a' k = Some l'"
        "om_Annotations (ls_Meta l') = om_Annotations (ls_Meta l)" "down a' \<le> limit" by blast
    with status_update_store [OF S g u(1) obj] n have "applied obj l'" by auto
    with u show "\<exists>o' a' l'. sv_Update S obj a = (Inr o', a') \<and> stored a' k = Some l' \<and> applied obj l' \<and>
         om_Annotations (ls_Meta l') = om_Annotations (ls_Meta l) \<and> down a' \<le> limit" by blast
  qed
qed

text \<open>A pending object the cache shows is promoted, or the promotion fails.\<close>

lemma sync_pending_fails:
  assumes "lister_Get S k (w_sv x) = Inr c" and "LocalStorageIsPending c"
    and "\<exists>e a'. sv_Update S (set_Phase LocalStorageInitiating c) (w_sv x) = (Inl e, a') \<and> R e a'"
  shows "\<exists>e a'. sync Q S k x = (Some e, x\<lparr>w_sv := a'\<rparr>) \<and> R e a'"
  using assms by (auto simp: sync_def UpdateLocalStoragePhase_def TryUpdateLocalStorage_def)

lemma makeVolumeDir_again:
  assumes mk: "makeVolumeDir p f = (None, g)" and ok: "fs_deny f OpStat (pos_of f p) = None"
  shows "makeVolumeDir p g = (None, g)"
proof (cases "os_Stat p f")
  case (Inl e)
  with mk have all: "os_MkdirAll p ModePerm f = (None, g)" by (simp add: makeVolumeDir_def split: if_splits)
  then have p: "p \<noteq> []" and env: "same_env f g"
    by (auto simp: os_MkdirAll_def intro: os_MkdirAll_frame(1) [OF all])
  from env ok have "fs_deny g OpStat (pos_of g p) = None" by (simp add: same_env_pos) (simp add: same_env_def)
  moreover have "is_dir (fs_find g (pos_of g p))" using os_MkdirAll_ok [OF all] same_env_pos [OF env] by simp
  ultimately have "\<exists>n. os_Stat p g = Inr n" using p by (auto simp: os_Stat_def is_dir_def split: option.splits)
  then show ?thesis by (auto simp: makeVolumeDir_def)
qed (use mk in \<open>auto simp: makeVolumeDir_def\<close>)

text \<open>The two reconciliations, each retried while updates fail.\<close>

lemma promotion_retried:
  assumes S: "update_contract S stored" "cache_contract S stored" and C: "outages S stored k dead down limit"
    and l: "stored (w_sv w) k = Some l" "LocalStorageIsPending l"
  obtains m w' l' where "m \<le> down (w_sv w)" "retried (sync Q S k) dead m w w'" "w_fs w' = w_fs w"
    "down (w_sv w') \<le> limit" "stored (w_sv w') k = Some l'" "applied (set_Phase LocalStorageInitiating l) l'"
    "om_Annotations (ls_Meta l') = om_Annotations (ls_Meta l)"
proof -
  let ?P = "\<lambda>x. stored (w_sv x) k = Some l \<and> w_fs x = w_fs w"
  let ?R = "\<lambda>x. w_fs x = w_fs w \<and> down (w_sv x) \<le> limit \<and> (\<exists>l'. stored (w_sv x) k = Some l' \<and>
      applied (set_Phase LocalStorageInitiating l) l' \<and> om_Annotations (ls_Meta l') = om_Annotations (ls_Meta l))"
  have P: "?P w" using l by simp
  have "(\<exists>e y. sync Q S k x = (Some e, y) \<and> \<not> dead e \<and> ?P y \<and> down (w_sv y) < down (w_sv x)) \<or>
      (\<exists>y. sync Q S k x = (None, y) \<and> ?R y)" if x: "?P x" for x
    using S C conjunct1 [OF x]
  proof (cases rule: outage_cases)
    case (failing c)
    have "ls_Meta (set_Phase LocalStorageInitiating c) = ls_Meta c" by simp
    from sync_pending_fails [OF failing(1) _ failing(3) [OF this]] failing(2) l(2) x show ?thesis
      by (intro disjI1) fastforce
  next
    case working
    have "ls_Meta (set_Phase LocalStorageInitiating l) = ls_Meta l" by simp
    from working(1) working(2) [OF this] l(2) x show ?thesis
      by (intro disjI2) (auto simp: sync_def UpdateLocalStoragePhase_def TryUpdateLocalStorage_def)
  qed
  from retried_until [where P = ?P and R = ?R and down = "\<lambda>x. down (w_sv x)" and dead = dead, OF P this]
  obtain m w' where "m \<le> down (w_sv w)" "retried (sync Q S k) dead m w w'" "?R w'" by blast
  with that show thesis by blast
qed

lemma initialisation_retried:
  assumes S: "update_contract S stored" "cache_contract S stored" and C: "outages S stored k dead down limit"
    and l: "stored (w_sv w) k = Some l" "\<not> LocalStorageIsPending l"
    and backend: "sp_Path (ls_Spec l) = Some p" "sp_Lvm (ls_Spec l) = None" and size: "q_Parse Q (node_size l) = Inr quantity"
    and mk: "makeVolumeDir (ps_VolumeDir p) (w_fs w) = (None, f)" "makeVolumeDir (ps_VolumeDir p) f = (None, f)"
  obtains m w' l' where "m \<le> down (w_sv w)" "retried (sync Q S k) dead m w w'"
    "stored (w_sv w') k = Some l'" "applied (initialised quantity l) l'"
proof -
  let ?P = "\<lambda>x. stored (w_sv x) k = Some l \<and> makeVolumeDir (ps_VolumeDir p) (w_fs x) = (None, f)"
  let ?R = "\<lambda>x. \<exists>l'. stored (w_sv x) k = Some l' \<and> applied (initialised quantity l) l'"
  have P: "?P w" using l mk by simp
  have "(\<exists>e y. sync Q S k x = (Some e, y) \<and> \<not> dead e \<and> ?P y \<and> down (w_sv y) < down (w_sv x)) \<or>
      (\<exists>y. sync Q S k x = (None, y) \<and> ?R y)" if x: "?P x" for x
  proof -
    have m: "ls_Meta (initialised quantity l) = ls_Meta l" by simp
    note run = l(2) backend size x mk(2)
    show ?thesis
      using S C conjunct1 [OF x]
    proof (cases rule: outage_cases)
      case (failing c)
      show ?thesis
      proof (cases "LocalStorageIsPending c")
        case True
        have "ls_Meta (set_Phase LocalStorageInitiating c) = ls_Meta c" by simp
        from sync_pending_fails [OF failing(1) True failing(3) [OF this]] x show ?thesis
          by (intro disjI1) fastforce
      next
        case False
        with failing(2) have "c = l" by simp
        with failing(1) failing(3) [of "initialised quantity l"] m run show ?thesis
          by (intro disjI1) (auto simp: sync_def path_setup_def initialised_def UpdateLocalStoragePhase_def
              TryUpdateLocalStorage_def)
      qed
    next
      case working
      from working(1) working(2) [OF m] run show ?thesis
        by (intro disjI2) (auto simp: sync_def path_setup_def initialised_def UpdateLocalStoragePhase_def
            TryUpdateLocalStorage_def)
    qed
  qed
  from retried_until [where P = ?P and R = ?R and down = "\<lambda>x. down (w_sv x)" and dead = dead, OF P this] that
  show thesis by blast
qed

text \<open>What the webhook stored passes the filter, and so does the initiating object.\<close>

lemma startup_events:
  assumes "ls_Node l = cf_NodeId cfg" "ls_Name l = k" "ls_Phase l \<in> {LocalStoragePending, LocalStorageInitiating}"
  shows "NewLocalStorage_handle cfg O' (Added (LsObject l)) q = qo_Add O' k q"
    and "plugin_FilterFunc cfg (LsObject l)"
  using assms by (auto simp: AssignedLocalstorage_def phase_tests phase_defs plugin_addStorage_def plugin_enqueue_def)

text \<open>
  C9. The way to \<open>Ready\<close> survives outages of the API server and a cache that lags behind it: if the
  attempts at the object fail at most 15 times in a row, each time with an error that may be
  retried (the server is out of reach, or refuses what was made from an older pending version the
  cache still shows), and otherwise the cache shows the stored object and its update is taken, the
  plugin's worker retries the key, after at most 16 iterations per phase the new object is
  \<open>Initiating\<close> and then \<open>Ready\<close> with its size, and the queue is idle again.
\<close>

theorem ready_despite_outages:
  assumes S: "update_contract S stored" "cache_contract S stored"
    and C: "outages S stored k (qo_Terminating O') down 15" "down (w_sv w) \<le> 15"
    and O: "retry_key_laws O' idle holding" "idle q"
    and created: "stored (w_sv w) k = Some l" "applied (mutate l0 opCreate) l" "ls_Phase l0 = []"
    and backend: "sp_Path (ls_Spec l0) = Some p" "sp_Lvm (ls_Spec l0) = None" "ls_Node l0 = cf_NodeId cfg"
    and size: "q_Parse Q (node_size l) = Inr quantity"
    and mk: "makeVolumeDir (ps_VolumeDir p) (w_fs w) = (None, f)"
      "fs_deny (w_fs w) OpStat (pos_of (w_fs w) (ps_VolumeDir p)) = None"
  shows "\<exists>i w1 q1 l1 j w2 q2 l2. i \<le> 16 \<and> j \<le> 16 \<and>
    ((snd \<circ> plugin_processNextWorkItem Q S O') ^^ i) (w, NewLocalStorage_handle cfg O' (Added (LsObject l)) q) = (w1, q1) \<and>
    stored (w_sv w1) k = Some l1 \<and> ls_Phase l1 = LocalStorageInitiating \<and>
    ((snd \<circ> plugin_processNextWorkItem Q S O') ^^ j) (w1, NewLocalStorage_handle cfg O' (Updated l l1) q1) = (w2, q2) \<and>
    stored (w_sv w2) k = Some l2 \<and> ls_Phase l2 = LocalStorageReady \<and> ls_Volumes l2 = [] \<and>
    st_Allocatable (ls_Status l2) = Some quantity \<and> st_Capacity (ls_Status l2) = Some quantity \<and> idle q2"
proof -
  have spec: "ls_Spec l = ls_Spec l0" "ls_Phase l = LocalStoragePending" "ls_Volumes l = []"
    using created(2,3) by (simp_all add: applied_def mutate_status LocalStoragePending_def opCreate_def)
  have n: "ls_Name l = k" using C(1) created(1) by (simp add: outages_def)
  have pend: "LocalStorageIsPending l" using spec by (simp add: phase_tests)
  obtain m1 w1 l1 where r1: "m1 \<le> down (w_sv w)" "retried (sync Q S k) (qo_Terminating O') m1 w w1" "w_fs w1 = w_fs w"
      "down (w_sv w1) \<le> 15" "stored (w_sv w1) k = Some l1" "applied (set_Phase LocalStorageInitiating l) l1"
      "om_Annotations (ls_Meta l1) = om_Annotations (ls_Meta l)"
    using S C(1) created(1) pend by (rule promotion_retried)
  have l1: "ls_Phase l1 = LocalStorageInitiating" "ls_Spec l1 = ls_Spec l0" "ls_Volumes l1 = []"
      "node_size l1 = node_size l" "ls_Name l1 = k"
    using r1(6,7) spec n by (simp_all add: applied_def node_size_def)
  then have np: "\<not> LocalStorageIsPending l1" by (simp add: phase_tests phase_defs)
  have b1: "sp_Path (ls_Spec l1) = Some p" "sp_Lvm (ls_Spec l1) = None" "q_Parse Q (node_size l1) = Inr quantity"
    using l1 backend size by simp_all
  have f1: "makeVolumeDir (ps_VolumeDir p) (w_fs w1) = (None, f)" using mk(1) r1(3) by simp
  obtain m2 w2 l2 where r2: "m2 \<le> down (w_sv w1)" "retried (sync Q S k) (qo_Terminating O') m2 w1 w2"
      "stored (w_sv w2) k = Some l2" "applied (initialised quantity l1) l2"
    using S C(1) r1(5) np b1 f1 makeVolumeDir_again [OF mk] by (rule initialisation_retried)
  have nodes: "ls_Node l = cf_NodeId cfg" "ls_Node l1 = cf_NodeId cfg" using spec l1 backend(3) by simp_all
  have h1: "NewLocalStorage_handle cfg O' (Added (LsObject l)) q = qo_Add O' k q"
    by (rule startup_events(1) [OF nodes(1) n]) (simp add: spec)
  have "plugin_FilterFunc cfg (LsObject l)" "plugin_FilterFunc cfg (LsObject l1)"
    using startup_events(2) [OF nodes(1) n] startup_events(2) [OF nodes(2) l1(5)] spec l1(1) by simp_all
  then have h2: "NewLocalStorage_handle cfg O' (Updated l l1) x = qo_Add O' k x" for x
    using l1(5) by (simp add: plugin_updateStorage_def plugin_enqueue_def del: plugin_FilterFunc.simps)
  have hold: "holding k 0 (qo_Add O' k x)" if "idle x" for x using O(1) that by (simp add: retry_key_laws_def)
  obtain q1 where q1: "((snd \<circ> plugin_processNextWorkItem Q S O') ^^ Suc m1) (w, qo_Add O' k q) = (w1, q1)" "idle q1"
    using plugin_loop.recovers [OF O(1) r1(2) hold [OF O(2)]] r1(1) C(2) by (auto simp: retry_limit_def)
  obtain q2 where q2: "((snd \<circ> plugin_processNextWorkItem Q S O') ^^ Suc m2) (w1, qo_Add O' k q1) = (w2, q2)" "idle q2"
    using plugin_loop.recovers [OF O(1) r2(2) hold [OF q1(2)]] r2(1) r1(4) by (auto simp: retry_limit_def)
  have "ls_Phase l2 = LocalStorageReady" "ls_Volumes l2 = []"
      "st_Allocatable (ls_Status l2) = Some quantity" "st_Capacity (ls_Status l2) = Some quantity"
    using r2(4) l1 by (simp_all add: applied_def)
  with q1 q2 r1(1,4,5) r2(1,3) l1(1) C(2) show ?thesis
    by (intro exI [of _ "Suc m1"] exI [of _ w1] exI [of _ q1] exI [of _ l1] exI [of _ "Suc m2"] exI [of _ w2]
        exI [of _ q2] exI [of _ l2]) (simp add: h1 h2 del: NewLocalStorage_handle.simps funpow.simps)
qed

text \<open>
  A server that loses requests, and a cache that lags behind it as long: the state counts the
  requests that are still lost, two after every update that gets through.
\<close>

definition lagging_view :: "int LocalStorage \<Rightarrow> int LocalStorage" where
  "lagging_view l =
     (if ls_Version l = ls_Version (set_Version 0 l) then l else set_Phase LocalStoragePending (set_Version 0 l))"

definition flaky_services :: "(int, nat \<times> api) services" where
  "flaky_services =
     \<lparr>sv_ListAll = (\<lambda>a. sv_ListAll direct_services (snd a)),
      sv_GetByKey = (\<lambda>k a. Inr (if 0 < fst a then map_option lagging_view (api_stored (snd a) k) else api_stored (snd a) k)),
      sv_Update = (\<lambda>l a. if 0 < fst a then (Inl (ExtError ''timeout''), (fst a - 1, snd a))
         else (case sv_Update direct_services l (snd a) of (r, a') \<Rightarrow> (r, (2, a')))),
      sv_Create = (\<lambda>l a. case sv_Create direct_services l (snd a) of (r, a') \<Rightarrow> (r, (fst a, a'))),
      sv_List = (\<lambda>a. sv_List direct_services (snd a)),
      sv_NewUUID = (\<lambda>a. case sv_NewUUID direct_services (snd a) of (i, a') \<Rightarrow> (i, (fst a, a'))),
      sv_IsNotFound = sv_IsNotFound direct_services\<rparr>"

definition flaky_stored :: "nat \<times> api \<Rightarrow> string \<rightharpoonup> int LocalStorage" where
  "flaky_stored a = api_stored (snd a)"

lemma lagging_view_name: "ls_Name (lagging_view l) = ls_Name l"
  by (simp add: lagging_view_def)

lemma lagging_view_current: "ls_Version (lagging_view l) = ls_Version l \<Longrightarrow> lagging_view l = l"
  by (simp add: lagging_view_def split: if_splits)

lemma lagging_view_cases: "lagging_view l = l \<or> LocalStorageIsPending (lagging_view l)"
  by (simp add: lagging_view_def phase_tests)

lemma flaky_contracts:
  "update_contract flaky_services flaky_stored" "cache_contract flaky_services flaky_stored"
proof -
  show "update_contract flaky_services flaky_stored"
    using direct_contracts(1) unfolding update_contract_def flaky_services_def flaky_stored_def
    by (auto split: prod.splits if_splits)
  show "cache_contract flaky_services flaky_stored"
    unfolding cache_contract_def
  proof (intro allI impI)
    fix a c cur
    assume c: "c \<in> set (fst (sv_ListAll flaky_services a)) \<or> (\<exists>k. sv_GetByKey flaky_services k a = Inr (Some c))"
      and cur: "flaky_stored a (ls_Name c) = Some cur" "ls_Version c = ls_Version cur"
    from c consider "c \<in> set (fst (sv_ListAll direct_services (snd a)))"
      | k where "api_stored (snd a) k = Some c"
      | k l where "api_stored (snd a) k = Some l" "c = lagging_view l"
      by (auto simp: flaky_services_def split: if_splits)
    then show "c = cur"
    proof cases
      case 1
      with cur direct_contracts(2) show ?thesis unfolding cache_contract_def flaky_stored_def by blast
    next
      case (2 k)
      with cur(1) api_stored_name [OF 2] show ?thesis by (simp add: flaky_stored_def)
    next
      case (3 k l)
      with cur(1) api_stored_name [OF 3(1)] have "cur = l" by (simp add: flaky_stored_def lagging_view_name)
      with 3 cur(2) show ?thesis by (simp add: lagging_view_current)
    qed
  qed
qed

lemma flaky_outages: "outages flaky_services flaky_stored k (qo_Terminating work_ops) fst 15"
  unfolding outages_def
proof (intro allI impI)
  fix a and l :: "int LocalStorage"
  assume l: "flaky_stored a k = Some l"
  obtain n b where a: "a = (n, b)" by fastforce
  have name: "ls_Name l = k" using l a api_stored_name by (simp add: flaky_stored_def)
  have "\<exists>o' a' l'. sv_Update direct_services obj b = (Inr o', a') \<and> api_stored a' k = Some l' \<and>
      om_Annotations (ls_Meta l') = om_Annotations (ls_Meta l)" if "ls_Meta obj = ls_Meta l" for obj
    using api_accepts [of k b] l a name that
    unfolding accepts_now_def flaky_stored_def direct_services_def by (auto dest!: spec [of _ obj])
  then show "ls_Name l = k \<and> (if 0 < fst a
     then \<exists>c. lister_Get flaky_services k a = Inr c \<and> (c = l \<or> LocalStorageIsPending c) \<and>
       (\<forall>obj. ls_Meta obj = ls_Meta c \<longrightarrow> (\<exists>e a'. sv_Update flaky_services obj a = (Inl e, a') \<and>
          \<not> qo_Terminating work_ops e \<and> flaky_stored a' k = Some l \<and> fst a' < fst a))
     else lister_Get flaky_services k a = Inr l \<and>
       (\<forall>obj. ls_Meta obj = ls_Meta l \<longrightarrow> (\<exists>o' a' l'. sv_Update flaky_services obj a = (Inr o', a') \<and>
          flaky_stored a' k = Some l' \<and> om_Annotations (ls_Meta l') = om_Annotations (ls_Meta l) \<and> fst a' \<le> 15)))"
    using name l lagging_view_cases [of l]
    by (auto simp: a flaky_services_def flaky_stored_def work_ops_def lister_Get_Inr split: prod.splits)
      (metis (lifting) Pair_inject)+
qed

lemma work_retry_laws:
  "retry_key_laws work_ops (\<lambda>q. wk_keys q = [] \<and> wk_count q = (\<lambda>_. 0))
     (\<lambda>k n q. wk_keys q = [k] \<and> wk_count q = (\<lambda>_. 0)(k := n))"
  by (auto simp: retry_key_laws_def work_ops_def fun_eq_iff)

definition offline_world :: "(nat \<times> api) world" where
  "offline_world = \<lparr>w_fs = sample_fs, w_sv = (3, w_sv pending_world)\<rparr>"

lemma ready_despite_outages_witness:
  "\<exists>i w1 q1 l1 j w2 q2 l2. i \<le> 16 \<and> j \<le> 16 \<and>
    ((snd \<circ> plugin_processNextWorkItem int_quantity flaky_services work_ops) ^^ i)
      (offline_world, \<lparr>wk_keys = [''ls-n''], wk_count = \<lambda>_. 0\<rparr>) = (w1, q1) \<and>
    ((snd \<circ> plugin_processNextWorkItem int_quantity flaky_services work_ops) ^^ j)
      (w1, NewLocalStorage_handle sample_cfg work_ops
        (Updated (sample_ls LocalStoragePending None None []) l1) q1) = (w2, q2) \<and>
    flaky_stored (w_sv w2) ''ls-n'' = Some l2 \<and> ls_Phase l2 = LocalStorageReady \<and>
    st_Allocatable (ls_Status l2) = Some (500 * 2 ^ 30) \<and> wk_keys q2 = []"
proof -
  let ?new = "sample_ls [] None None [] :: int LocalStorage" and ?l = "sample_ls LocalStoragePending None None [] :: int LocalStorage"
  let ?q = "\<lparr>wk_keys = [], wk_count = \<lambda>_. 0\<rparr> :: work"
  have st: "flaky_stored (w_sv offline_world) ''ls-n'' = Some ?l" and d: "fst (w_sv offline_world) \<le> 15"
    by (simp_all add: flaky_stored_def offline_world_def pending_world_def)
  have ap: "applied (mutate ?new opCreate) ?l"
    by (simp add: applied_def mutate_status) (simp add: sample_ls_def)
  have size: "q_Parse int_quantity (node_size ?l) = Inr (500 * 2 ^ 30)"
    using int_quantity_parse by (simp add: node_size_def defaultPathSize_def sample_ls_def)
  have "fst (makeVolumeDir ''/d'' (w_fs offline_world)) = None" by code_simp
  then obtain f where f: "makeVolumeDir (ps_VolumeDir \<lparr>ps_VolumeDir = ''/d''\<rparr>) (w_fs offline_world) = (None, f)"
    by (cases "makeVolumeDir ''/d'' (w_fs offline_world)") simp
  have deny: "fs_deny (w_fs offline_world) OpStat (pos_of (w_fs offline_world) (ps_VolumeDir \<lparr>ps_VolumeDir = ''/d''\<rparr>)) = None"
    by code_simp
  have node: "ls_Node ?new = cf_NodeId sample_cfg" by (simp add: sample_cfg_def)
  have ph: "ls_Phase ?new = []" and pth: "sp_Path (ls_Spec ?new) = Some \<lparr>ps_VolumeDir = ''/d''\<rparr>"
    and lv: "sp_Lvm (ls_Spec ?new) = None" by simp_all
  have idle: "wk_keys ?q = [] \<and> wk_count ?q = (\<lambda>_. 0)" by simp
  have h1: "NewLocalStorage_handle sample_cfg work_ops (Added (LsObject ?l)) ?q = \<lparr>wk_keys = [''ls-n''], wk_count = \<lambda>_. 0\<rparr>"
    by (simp add: AssignedLocalstorage_def sample_cfg_def phase_tests phase_defs plugin_addStorage_def
        plugin_enqueue_def work_ops_def)
  show ?thesis
    using ready_despite_outages [OF flaky_contracts flaky_outages d work_retry_laws idle st ap ph pth lv
        node size f deny]
    unfolding h1 by blast
qed

end
