(* ===== verification/LS_Wiring.thy ===== *)
theory LS_Wiring
  imports LS_Main LS_Informers LS_Webhook Go_Float
begin

text \<open>
  The constructors and how \<^verbatim>\<open>cmd\<close> puts them together: each component takes the localstorage
  informer of one shared factory, registers its handlers on it, and keeps the lister and the
  \<open>HasSynced\<close> of that informer; the factory is started after that. The work queue is made by name. Also
  here: the event recorder, the webhook handlers as objects, and the request rate of the clients.
\<close>

section \<open>Shared informers with handlers\<close>

text \<open>A factory, and the handlers that were added to its informers, by the informer's identity.\<close>

record ('c, 'o, 'q, 'k) hub =
  hb_factory :: "('c, 'o) factory"
  hb_handlers :: "(nat \<times> ('q informer_event \<Rightarrow> 'k \<Rightarrow> 'k)) list"

definition AddEventHandler ::
    "('c, 'o) informer \<Rightarrow> ('q informer_event \<Rightarrow> 'k \<Rightarrow> 'k) \<Rightarrow> ('c, 'o, 'q, 'k) hub \<Rightarrow> ('c, 'o, 'q, 'k) hub" where
  "AddEventHandler i f h = h\<lparr>hb_handlers := hb_handlers h @ [(in_id i, f)]\<rparr>"

definition hub_Informer ::
    "'o localStorageInformer \<Rightarrow> ('c, 'o, 'q, 'k) hub \<Rightarrow> ('c, 'o) informer \<times> ('c, 'o, 'q, 'k) hub" where
  "hub_Informer l h =
     (case localStorageInformer_Informer l (hb_factory h) of (i, f) \<Rightarrow> (i, h\<lparr>hb_factory := f\<rparr>))"

definition hub_Lister ::
    "'o localStorageInformer \<Rightarrow> ('c, 'o, 'q, 'k) hub \<Rightarrow>
     ('c, 'o) informer localStorageLister \<times> ('c, 'o, 'q, 'k) hub" where
  "hub_Lister l h =
     (case localStorageInformer_Lister l (hb_factory h) of (i, f) \<Rightarrow> (i, h\<lparr>hb_factory := f\<rparr>))"

definition hub_Start :: "('c, 'o) map_order \<Rightarrow> ('c, 'o, 'q, 'k) hub \<Rightarrow> ('c, 'o, 'q, 'k) hub" where
  "hub_Start order h = h\<lparr>hb_factory := factory_Start order (hb_factory h)\<rparr>"

text \<open>An event reaches the handlers of the informers that run, and no others.\<close>

definition deliver :: "('c, 'o, 'q, 'k) hub \<Rightarrow> 'q informer_event \<Rightarrow> 'k \<Rightarrow> 'k" where
  "deliver h e q =
     fold (\<lambda>i. fold (\<lambda>r q. if fst r = in_id i then snd r e q else q) (hb_handlers h))
       (sf_running (hb_factory h)) q"

section \<open>pkg/util/util.go: the event recorder\<close>

text \<open>A recorder sends its events to the API server of a client, under the name of a component.\<close>

record 'v recorder =
  er_sink :: 'v
  er_component :: string

definition LocalstorageManagerUserAgent :: string where
  "LocalstorageManagerUserAgent = ''localstorage-manager''"

definition CreateRecorder :: "'v \<Rightarrow> 'v recorder" where
  "CreateRecorder kubeClient = \<lparr>er_sink = kubeClient, er_component = LocalstorageManagerUserAgent\<rparr>"

section \<open>pkg/controller/storage: NewStorageController\<close>

text \<open>
  Two fields of the struct hold functions, \<open>syncStorage\<close> and \<open>enqueue\<close> of \<open>LS_Controller\<close>, which no
  caller replaces; the broadcaster only feeds the recorder.
\<close>

record ('c, 'v, 'i) StorageController =
  sct_client :: 'c
  sct_kubeClient :: 'v
  sct_eventRecorder :: "'v recorder"
  sct_lsLister :: "'i localStorageLister"
  sct_lsListerSynced :: 'i
  sct_queue :: string

definition NewStorageController ::
    "'k queue_ops \<Rightarrow> 'o localStorageInformer \<Rightarrow> 'c \<Rightarrow> 'v \<Rightarrow> ('c, 'o, 'q, 'k) hub \<Rightarrow>
     ('c, 'v, ('c, 'o) informer) StorageController \<times> ('c, 'o, 'q, 'k) hub" where
  "NewStorageController O' lsInformer lsClientSet kubeClientSet h =
     (let (i, h1) = hub_Informer lsInformer h;
          h2 = AddEventHandler i (NewStorageController_handle O') h1;
          (l, h3) = hub_Lister lsInformer h2;
          (s, h4) = hub_Informer lsInformer h3
      in (\<lparr>sct_client = lsClientSet, sct_kubeClient = kubeClientSet,
           sct_eventRecorder = \<lparr>er_sink = kubeClientSet, er_component = LocalstorageManagerUserAgent\<rparr>,
           sct_lsLister = l, sct_lsListerSynced = s, sct_queue = ''localstorage''\<rparr>, h4))"

section \<open>pkg/localstorage: NewLocalStorage\<close>

text \<open>The driver's mutex is what makes its calls steps, and has no field here.\<close>

record ('c, 'v, 'i) localStorage_driver =
  dr_config :: Config
  dr_client :: 'c
  dr_kubeClient :: 'v
  dr_lsLister :: "'i localStorageLister"
  dr_lsListerSynced :: 'i
  dr_queue :: string

definition NewLocalStorage_driver ::
    "'k queue_ops \<Rightarrow> Config \<Rightarrow> 'o localStorageInformer \<Rightarrow> 'c \<Rightarrow> 'v \<Rightarrow> ('c, 'o, 'q, 'k) hub \<Rightarrow>
     (gerror + ('c, 'v, ('c, 'o) informer) localStorage_driver) \<times> ('c, 'o, 'q, 'k) hub" where
  "NewLocalStorage_driver O' cfg lsInformer lsClientSet kubeClientSet h =
     (case NewLocalStorage cfg of
        Inl err \<Rightarrow> (Inl err, h)
      | Inr cfg \<Rightarrow>
          (let (i, h1) = hub_Informer lsInformer h;
               h2 = AddEventHandler i (NewLocalStorage_handle cfg O') h1;
               (l, h3) = hub_Lister lsInformer h2;
               (s, h4) = hub_Informer lsInformer h3
           in (Inr \<lparr>dr_config = cfg, dr_client = lsClientSet, dr_kubeClient = kubeClientSet,
                    dr_lsLister = l, dr_lsListerSynced = s, dr_queue = ''plugin''\<rparr>, h4)))"

section \<open>pkg/scheduler: NewScheduleExtender\<close>

text \<open>The informers of claims and storage classes are the library's: a lister and an informer each.\<close>

record ('l, 'i) library_informer =
  lb_Lister :: 'l
  lb_Informer :: 'i

record ('i, 'p, 's) Predicate =
  pd_lsLister :: "'i localStorageLister"
  pd_pvcLister :: 'p
  pd_scLister :: 's

definition NewPredicate :: "'i localStorageLister \<Rightarrow> 'p \<Rightarrow> 's \<Rightarrow> ('i, 'p, 's) Predicate" where
  "NewPredicate lsLister pvcLister scLister =
     \<lparr>pd_lsLister = lsLister, pd_pvcLister = pvcLister, pd_scLister = scLister\<rparr>"

record ('i, 'p, 's) Prioritize =
  pz_lsLister :: "'i localStorageLister"
  pz_pvcLister :: 'p
  pz_scLister :: 's

definition NewPrioritize :: "'i localStorageLister \<Rightarrow> 'p \<Rightarrow> 's \<Rightarrow> ('i, 'p, 's) Prioritize" where
  "NewPrioritize lsLister pvcLister scLister =
     \<lparr>pz_lsLister = lsLister, pz_pvcLister = pvcLister, pz_scLister = scLister\<rparr>"

record ('i, 'p, 's, 'pi, 'si) ScheduleExtender =
  sx_http :: "((string \<times> string) \<times> route) list"
  sx_predicate :: "('i, 'p, 's) Predicate"
  sx_prioritize :: "('i, 'p, 's) Prioritize"
  sx_lsLister :: "'i localStorageLister"
  sx_pvcLister :: 'p
  sx_scLister :: 's
  sx_lsListerSynced :: 'i
  sx_pvcListerSynced :: 'pi
  sx_scListerSynced :: 'si

definition NewScheduleExtender ::
    "'o localStorageInformer \<Rightarrow> ('p, 'pi) library_informer \<Rightarrow> ('s, 'si) library_informer \<Rightarrow>
     ('c, 'o, 'q, 'k) hub \<Rightarrow>
     (('c, 'o) informer, 'p, 's, 'pi, 'si) ScheduleExtender \<times> ('c, 'o, 'q, 'k) hub" where
  "NewScheduleExtender lsInformer pvcInformer scInformer h =
     (let (l, h1) = hub_Lister lsInformer h;
          (s, h2) = hub_Informer lsInformer h1
      in (\<lparr>sx_http = routes,
           sx_predicate = NewPredicate l (lb_Lister pvcInformer) (lb_Lister scInformer),
           sx_prioritize = NewPrioritize l (lb_Lister pvcInformer) (lb_Lister scInformer),
           sx_lsLister = l, sx_pvcLister = lb_Lister pvcInformer, sx_scLister = lb_Lister scInformer,
           sx_lsListerSynced = s, sx_pvcListerSynced = lb_Informer pvcInformer,
           sx_scListerSynced = lb_Informer scInformer\<rparr>, h2))"

section \<open>pkg/webhook: the handlers as objects\<close>

text \<open>The library injects the decoder before it serves; without one, decoding dereferences nil.\<close>

record ('w, 'q) LocalstorageMutate =
  lm_Client :: 'w
  lm_decoder :: "'q codec option"

definition mutate_InjectDecoder ::
    "'q codec \<Rightarrow> ('w, 'q) LocalstorageMutate \<Rightarrow> gerror option \<times> ('w, 'q) LocalstorageMutate" where
  "mutate_InjectDecoder d s = (None, s\<lparr>lm_decoder := Some d\<rparr>)"

definition LocalstorageMutate_Handle ::
    "('w, 'q) LocalstorageMutate \<Rightarrow> admission_request \<Rightarrow> admission_response outcome" where
  "LocalstorageMutate_Handle s req =
     (case lm_decoder s of None \<Rightarrow> Panic | Some d \<Rightarrow> Ret (mutate_Handle d req))"

record 'q LocalstorageValidator =
  lv_Client :: "'q validator_client"
  lv_decoder :: "'q codec option"

definition validate_InjectDecoder ::
    "'q codec \<Rightarrow> 'q LocalstorageValidator \<Rightarrow> gerror option \<times> 'q LocalstorageValidator" where
  "validate_InjectDecoder d v = (None, v\<lparr>lv_decoder := Some d\<rparr>)"

definition LocalstorageValidator_Handle ::
    "'q LocalstorageValidator \<Rightarrow> admission_request \<Rightarrow> admission_response outcome" where
  "LocalstorageValidator_Handle v req =
     (case lv_decoder v of None \<Rightarrow> Panic | Some d \<Rightarrow> Ret (validate_Handle d (lv_Client v) req))"

datatype 'q webhook =
    MutateWebhook "('q validator_client, 'q) LocalstorageMutate"
  | ValidateWebhook "'q LocalstorageValidator"

definition webhooks :: "'q validator_client \<Rightarrow> (string \<times> 'q webhook) list" where
  "webhooks webhookClient =
     [(''/mutate-v1-localstorage'', MutateWebhook \<lparr>lm_Client = webhookClient, lm_decoder = None\<rparr>),
      (''/validate-v1-localstorage'', ValidateWebhook \<lparr>lv_Client = webhookClient, lv_decoder = None\<rparr>)]"

text \<open>The library injects its decoder into a registered handler, and serves the path with it.\<close>

fun webhook_serve :: "'q codec \<Rightarrow> 'q webhook \<Rightarrow> admission_request \<Rightarrow> admission_response outcome" where
  "webhook_serve d (MutateWebhook s) req = LocalstorageMutate_Handle (snd (mutate_InjectDecoder d s)) req"
| "webhook_serve d (ValidateWebhook v) req = LocalstorageValidator_Handle (snd (validate_InjectDecoder d v)) req"

lemma webhooks_serve:
  "map_option (\<lambda>h. webhook_serve d h req) (map_of (webhooks V) path) =
     (if path = ''/mutate-v1-localstorage'' then Some (Ret (mutate_Handle d req))
      else if path = ''/validate-v1-localstorage'' then Some (Ret (validate_Handle d V req)) else None)"
  by (simp add: webhooks_def mutate_InjectDecoder_def validate_InjectDecoder_def
      LocalstorageMutate_Handle_def LocalstorageValidator_Handle_def)

section \<open>cmd: construct, then start\<close>

text \<open>
  Controller and plugin put the flags for the request rate into the configuration; \<open>float32\<close> rounds
  to 24 binary digits (an \<open>int\<close> is far from overflowing it).
\<close>

definition float32_of_int :: "int \<Rightarrow> rat" where
  "float32_of_int n =
     (if n = 0 then 0
      else let m = \<bar>rat_of_int n\<bar>; u = ilog2 m - 23
        in (if n < 0 then -1 else 1) * of_int (round_even (m / 2 powi u)) * 2 powi u)"

definition with_rate :: "int \<Rightarrow> int \<Rightarrow> 'l rest_config \<Rightarrow> 'l rest_config" where
  "with_rate kubeAPIQPS kubeAPIBurst kubeConfig =
     kubeConfig\<lparr>rc_QPS := float32_of_int kubeAPIQPS, rc_Burst := kubeAPIBurst\<rparr>"

text \<open>A rate without a burst is refused when the client set is made, whatever the libraries answer.\<close>

lemma rate_needs_burst:
  assumes "0 < float32_of_int qps" and "burst \<le> 0" and "rc_RateLimiter c = None"
  shows "\<exists>e. NewForConfig L (with_rate qps burst c) = Inl e"
  using assms
  by (auto simp: NewForConfig_def NewForConfigAndClient_def with_rate_def Let_def split: sum.split)

lemma default_rate: "with_rate 5 10 c = c\<lparr>rc_QPS := 5, rc_Burst := 10\<rparr>"
proof -
  have "float32_of_int 5 = 5" by code_simp
  then show ?thesis by (simp add: with_rate_def)
qed

definition resync_period :: int64 where
  "resync_period = 300 * time_Second"

definition new_hub :: "'c \<Rightarrow> ('c, 'o, 'q, 'k) hub" where
  "new_hub lsClientSet = \<lparr>hb_factory = NewSharedInformerFactory lsClientSet resync_period, hb_handlers = []\<rparr>"

definition controller_boot ::
    "('c, 'o) map_order \<Rightarrow> 'k queue_ops \<Rightarrow> 'c \<Rightarrow> 'v \<Rightarrow>
     ('c, 'v, ('c, 'o) informer) StorageController \<times> ('c, 'o, 'q, 'k) hub" where
  "controller_boot order O' lsClientSet kubeClient =
     (let h = new_hub lsClientSet;
          (sc, h1) = NewStorageController O' (LocalStorages_of (hb_factory h)) lsClientSet kubeClient h
      in (sc, hub_Start order h1))"

definition plugin_boot ::
    "('c, 'o) map_order \<Rightarrow> 'k queue_ops \<Rightarrow> Config \<Rightarrow> 'c \<Rightarrow> 'v \<Rightarrow>
     (gerror + ('c, 'v, ('c, 'o) informer) localStorage_driver) \<times> ('c, 'o, 'q, 'k) hub" where
  "plugin_boot order O' cfg lsClientSet kubeClient =
     (let h = new_hub lsClientSet
      in case NewLocalStorage_driver O' cfg (LocalStorages_of (hb_factory h)) lsClientSet kubeClient h of
           (Inl err, h1) \<Rightarrow> (Inl err, h1) \<comment> \<open>the process ends\<close>
         | (Inr driver, h1) \<Rightarrow> (Inr driver, hub_Start order h1))"

definition extender_boot ::
    "('c, 'o) map_order \<Rightarrow> 'c \<Rightarrow> ('p, 'pi) library_informer \<Rightarrow> ('s, 'si) library_informer \<Rightarrow>
     (('c, 'o) informer, 'p, 's, 'pi, 'si) ScheduleExtender \<times> ('c, 'o, 'q, 'k) hub" where
  "extender_boot order lsClientSet pvcInformer scInformer =
     (let h = new_hub lsClientSet;
          (sched, h1) = NewScheduleExtender (LocalStorages_of (hb_factory h)) pvcInformer scInformer h
      in (sched, hub_Start order h1))"

section \<open>What the constructors find\<close>

lemma hub_Informer_again:
  assumes "hub_Informer l h = (i, h1)"
  shows "hub_Informer l h1 = (i, h1)" and "hub_Lister l h1 = (NewLocalStorageLister i, h1)"
    and "hub_Informer l (AddEventHandler i f h1) = (i, AddEventHandler i f h1)"
    and "hub_Lister l (AddEventHandler i f h1) = (NewLocalStorageLister i, AddEventHandler i f h1)"
  using assms
  by (auto simp: hub_Informer_def hub_Lister_def localStorageInformer_Informer_def localStorageInformer_Lister_def
      AddEventHandler_def InformerFor_def Let_def split: option.splits)

text \<open>The one informer of a new factory.\<close>

definition the_informer :: "'c \<Rightarrow> ('c, 'o) informer" where
  "the_informer c = NewFilteredLocalStorageInformer c resync_period [NamespaceIndex] None 0"

lemma the_informer_client [simp]: "in_client (the_informer c) = c"
  by (simp add: the_informer_def NewFilteredLocalStorageInformer_def)

lemma new_hub_factory [simp]: "hb_factory (new_hub c) = NewSharedInformerFactory c resync_period"
  by (simp add: new_hub_def)

lemma new_hub_informer:
  fixes c :: 'c
  obtains h1 :: "('c, 'o, 'q, 'k) hub" where
    "hub_Informer (LocalStorages_of (NewSharedInformerFactory c resync_period)) (new_hub c) = (the_informer c, h1)"
    "hb_handlers h1 = []" "sf_informers (hb_factory h1) = fmupd LocalStorage_type (the_informer c) fmempty"
    "\<not> sf_started (hb_factory h1) LocalStorage_type" "sf_running (hb_factory h1) = []"
proof -
  obtain i h1 where r: "hub_Informer (LocalStorages_of (NewSharedInformerFactory c resync_period)) (new_hub c :: ('c, 'o, 'q, 'k) hub) = (i, h1)"
    by fastforce
  have "i = the_informer c \<and> hb_handlers h1 = [] \<and>
      sf_informers (hb_factory h1) = fmupd LocalStorage_type (the_informer c) fmempty \<and>
      \<not> sf_started (hb_factory h1) LocalStorage_type \<and> sf_running (hb_factory h1) = []"
    using r by (auto simp: hub_Informer_def new_hub_def localStorageInformer_Informer_def InformerFor_def Let_def
      NewSharedInformerFactory_def NewSharedInformerFactoryWithOptions_def defaultInformer_def the_informer_def)
  with r that show ?thesis by blast
qed

lemma one_key_order:
  assumes "is_map_order order" and "fmdom m = {|k|}"
  shows "order m = [k]"
proof -
  have "distinct (order m)" "set (order m) = {k}" using assms by (auto simp: is_map_order_def)
  then show ?thesis by (cases "order m") (auto simp: subset_singleton_iff)
qed

lemma hub_Start_one:
  assumes ord: "is_map_order order"
    and h: "sf_informers (hb_factory h) = fmupd LocalStorage_type i fmempty"
      "\<not> sf_started (hb_factory h) LocalStorage_type" "sf_running (hb_factory h) = []"
  shows "sf_running (hb_factory (hub_Start order h)) = [i]" "hb_handlers (hub_Start order h) = hb_handlers h"
proof -
  have "order (sf_informers (hb_factory h)) = [LocalStorage_type]"
    using ord h(1) by (intro one_key_order) simp_all
  then show "sf_running (hb_factory (hub_Start order h)) = [i]"
    using h by (simp add: hub_Start_def factory_Start_def start_one_def)
qed (simp add: hub_Start_def)

end
