(* ===== verification/Prop_Wiring.thy ===== *)
theory Prop_Wiring
  imports LS_Wiring LS_Instance "HOL-Library.List_Lexorder" "HOL-Library.Char_ord"
begin

text \<open>
  The constructors and the entry points of \<^verbatim>\<open>cmd\<close>: who reads which informer.
\<close>

lemma deliver_one:
  "sf_running (hb_factory (h :: ('c, 'o, 'q, 'k) hub)) = [i] \<Longrightarrow> hb_handlers h = [(in_id i, f)] \<Longrightarrow> deliver h e q = f e q"
  by (simp add: deliver_def)

text \<open>
  C28. However the processes are started, each runs exactly one localstorage informer, of its own
  client: the handlers of the component are registered on it, so that an event reaches them once;
  the lister of the component reads its index; and it is the one the component waits for. A plugin
  whose configuration is refused runs none.
\<close>

theorem components_share_informer:
  fixes client :: 'c and order :: "('c, 'o) map_order" and O' :: "'k queue_ops"
  assumes ord: "is_map_order order"
  shows
    "(case controller_boot order O' client kube of (sc, h) \<Rightarrow>
        sf_running (hb_factory (h :: ('c, 'o, 'q, 'k) hub)) = [the_informer client] \<and>
        sct_lsLister sc = NewLocalStorageLister (the_informer client) \<and>
        sct_lsListerSynced sc = the_informer client \<and> sct_client sc = client \<and>
        deliver h = NewStorageController_handle O') \<and>
     (case plugin_boot order O' cfg client kube of
        (Inl _, h) \<Rightarrow> sf_running (hb_factory (h :: ('c, 'o, 'q, 'k) hub)) = [] \<and> deliver h = (\<lambda>e q. q)
      | (Inr dr, h) \<Rightarrow>
          sf_running (hb_factory (h :: ('c, 'o, 'q, 'k) hub)) = [the_informer client] \<and> dr_config dr = cfg \<and>
          dr_lsLister dr = NewLocalStorageLister (the_informer client) \<and>
          dr_lsListerSynced dr = the_informer client \<and> dr_client dr = client \<and>
          deliver h = NewLocalStorage_handle cfg O') \<and>
     (case extender_boot order client pvcs scs of (sx, h) \<Rightarrow>
        sf_running (hb_factory (h :: ('c, 'o, 'q, 'k) hub)) = [the_informer client] \<and>
        sx_lsLister sx = NewLocalStorageLister (the_informer client) \<and>
        sx_lsListerSynced sx = the_informer client \<and>
        pd_lsLister (sx_predicate sx) = sx_lsLister sx \<and> pz_lsLister (sx_prioritize sx) = sx_lsLister sx)"
proof (intro conjI)
  let ?i = "the_informer client :: ('c, 'o) informer"
  show "case controller_boot order O' client kube of (sc, h) \<Rightarrow>
        sf_running (hb_factory (h :: ('c, 'o, 'q, 'k) hub)) = [?i] \<and> sct_lsLister sc = NewLocalStorageLister ?i \<and>
        sct_lsListerSynced sc = ?i \<and> sct_client sc = client \<and> deliver h = NewStorageController_handle O'"
  proof (rule new_hub_informer)
    fix h1 :: "('c, 'o, 'q, 'k) hub"
    assume h: "hub_Informer (LocalStorages_of (NewSharedInformerFactory client resync_period)) (new_hub client) = (?i, h1)"
      "hb_handlers h1 = []" "sf_informers (hb_factory h1) = fmupd LocalStorage_type ?i fmempty"
      "\<not> sf_started (hb_factory h1) LocalStorage_type" "sf_running (hb_factory h1) = []"
    let ?h = "AddEventHandler ?i (NewStorageController_handle O') h1"
    have run: "sf_running (hb_factory (hub_Start order ?h)) = [?i]"
      "hb_handlers (hub_Start order ?h) = [(in_id ?i, NewStorageController_handle O')]"
      using hub_Start_one [OF ord, of ?h ?i] h by (simp_all add: AddEventHandler_def)
    show ?thesis
      using h(1) hub_Informer_again [OF h(1)] run deliver_one [OF run]
      by (simp add: controller_boot_def NewStorageController_def Let_def fun_eq_iff)
  qed
  show "case extender_boot order client pvcs scs of (sx, h) \<Rightarrow>
        sf_running (hb_factory (h :: ('c, 'o, 'q, 'k) hub)) = [?i] \<and> sx_lsLister sx = NewLocalStorageLister ?i \<and>
        sx_lsListerSynced sx = ?i \<and>
        pd_lsLister (sx_predicate sx) = sx_lsLister sx \<and> pz_lsLister (sx_prioritize sx) = sx_lsLister sx"
  proof (rule new_hub_informer)
    fix h1 :: "('c, 'o, 'q, 'k) hub"
    assume h: "hub_Informer (LocalStorages_of (NewSharedInformerFactory client resync_period)) (new_hub client) = (?i, h1)"
      "sf_informers (hb_factory h1) = fmupd LocalStorage_type ?i fmempty"
      "\<not> sf_started (hb_factory h1) LocalStorage_type" "sf_running (hb_factory h1) = []"
    have "hub_Lister (LocalStorages_of (NewSharedInformerFactory client resync_period)) (new_hub client) = (NewLocalStorageLister ?i, h1)"
      using h(1) by (auto simp: hub_Informer_def hub_Lister_def localStorageInformer_Lister_def Let_def split: prod.splits)
    then show ?thesis
      using hub_Informer_again [OF h(1)] hub_Start_one [OF ord h(2-4)]
      by (simp add: extender_boot_def NewScheduleExtender_def NewPredicate_def NewPrioritize_def Let_def)
  qed
  show "case plugin_boot order O' cfg client kube of
        (Inl _, h) \<Rightarrow> sf_running (hb_factory (h :: ('c, 'o, 'q, 'k) hub)) = [] \<and> deliver h = (\<lambda>e q. q)
      | (Inr dr, h) \<Rightarrow>
          sf_running (hb_factory (h :: ('c, 'o, 'q, 'k) hub)) = [?i] \<and> dr_config dr = cfg \<and>
          dr_lsLister dr = NewLocalStorageLister ?i \<and> dr_lsListerSynced dr = ?i \<and> dr_client dr = client \<and>
          deliver h = NewLocalStorage_handle cfg O'"
  proof (cases "NewLocalStorage cfg")
    case (Inl err)
    then show ?thesis
      by (simp add: plugin_boot_def NewLocalStorage_driver_def Let_def new_hub_def deliver_def fun_eq_iff
          NewSharedInformerFactory_def NewSharedInformerFactoryWithOptions_def)
  next
    case (Inr c)
    then have c: "c = cfg" by (auto simp: NewLocalStorage_def split: if_splits)
    show ?thesis
    proof (rule new_hub_informer)
      fix h1 :: "('c, 'o, 'q, 'k) hub"
      assume h: "hub_Informer (LocalStorages_of (NewSharedInformerFactory client resync_period)) (new_hub client) = (?i, h1)"
        "hb_handlers h1 = []" "sf_informers (hb_factory h1) = fmupd LocalStorage_type ?i fmempty"
        "\<not> sf_started (hb_factory h1) LocalStorage_type" "sf_running (hb_factory h1) = []"
      let ?h = "AddEventHandler ?i (NewLocalStorage_handle cfg O') h1"
      have run: "sf_running (hb_factory (hub_Start order ?h)) = [?i]"
        "hb_handlers (hub_Start order ?h) = [(in_id ?i, NewLocalStorage_handle cfg O')]"
        using hub_Start_one [OF ord, of ?h ?i] h by (simp_all add: AddEventHandler_def)
      show ?thesis
        using Inr c h(1) hub_Informer_again [OF h(1)] run deliver_one [OF run]
        by (simp add: plugin_boot_def NewLocalStorage_driver_def Let_def fun_eq_iff)
    qed
  qed
qed

definition sorted_order :: "(unit, unit) map_order" where
  "sorted_order m = sorted_list_of_fset (fmdom m)"

lemma components_share_informer_witness:
  "\<exists>sc h. controller_boot sorted_order work_ops () () = (sc, h) \<and>
     wk_keys (deliver h (Added (LsObject (sample_ls LocalStoragePending None None [] :: int LocalStorage)))
       \<lparr>wk_keys = [], wk_count = \<lambda>_. 0\<rparr>) = [''ls-n'']"
proof -
  obtain sc and h :: "(unit, unit, int, work) hub" where boot: "controller_boot sorted_order work_ops () () = (sc, h)"
    by fastforce
  have "is_map_order sorted_order"
    by (simp add: is_map_order_def sorted_order_def sorted_list_of_fset.rep_eq)
  from components_share_informer [where 'q = int, OF this, where O' = work_ops and client = "()" and kube = "()", THEN conjunct1] boot
  have "deliver h = NewStorageController_handle work_ops" by simp
  with boot show ?thesis
    by (auto simp: controller_enqueue_def work_ops_def)
qed

end
