(* ===== verification/LS_Cluster.thy ===== *)
theory LS_Cluster
  imports LS_Safety
begin

text \<open>
  The abstract specification of the whole system, and the simulation by which plugins, controller
  and webhooks implement it. The specification knows no versions, caches or handlers: a cluster is
  a map from names to accounts, an account has a node, a phase and a ledger, and seven kinds of
  step change it. It includes what the code does to a node that it initialises again: the offered
  space then forgets the volumes that are there, and the account keeps count of what was forgotten.
  Invariants of the specification hold of the system by the simulation.
\<close>

section \<open>Forward simulation\<close>

locale simulation =
  fixes cinit :: "'c \<Rightarrow> bool" and cstep :: "'c \<Rightarrow> 'c \<Rightarrow> bool"
    and ainit :: "'s \<Rightarrow> bool" and astep :: "'s \<Rightarrow> 's \<Rightarrow> bool"
    and rel :: "'c \<Rightarrow> 's \<Rightarrow> bool"
  assumes starts: "cinit c \<Longrightarrow> \<exists>s. ainit s \<and> rel c s"
    and simulates: "rel c s \<Longrightarrow> cstep c c' \<Longrightarrow> \<exists>s'. (s' = s \<or> astep s s') \<and> rel c' s'"
begin

lemma runs_simulated:
  assumes "cstep\<^sup>*\<^sup>* c c'" and "rel c s"
  shows "\<exists>s'. astep\<^sup>*\<^sup>* s s' \<and> rel c' s'"
  using assms
proof (induction rule: rtranclp_induct)
  case base
  then show ?case by blast
next
  case (step d e)
  then obtain t where t: "astep\<^sup>*\<^sup>* s t" "rel d t" by blast
  from simulates [OF t(2) step.hyps(2)] t(1) show ?case
    by (meson rtranclp.rtrancl_into_rtrancl)
qed

lemma reachable_simulated:
  assumes "cinit c" and "cstep\<^sup>*\<^sup>* c c'"
  obtains s s' where "ainit s" "astep\<^sup>*\<^sup>* s s'" "rel c' s'"
  using starts [OF assms(1)] runs_simulated [OF assms(2)] by blast

text \<open>An invariant of the specification holds of the state that represents a reachable one.\<close>

lemma invariant_transferred:
  assumes inv: "\<And>s. ainit s \<Longrightarrow> I s" "\<And>s t. I s \<Longrightarrow> astep s t \<Longrightarrow> I t"
    and reach: "cinit c" "cstep\<^sup>*\<^sup>* c c'"
  obtains s where "I s" "rel c' s"
proof -
  obtain s s' where *: "ainit s" "astep\<^sup>*\<^sup>* s s'" "rel c' s'"
    using reach by (rule reachable_simulated)
  from *(2) have "I s'" by (induction rule: rtranclp_induct) (use inv *(1) in blast)+
  with *(3) show thesis by (rule that [rotated])
qed

end

section \<open>The specification\<close>

text \<open>
  \<open>ac_Open\<close>: the account has been initialised and takes volumes. \<open>ac_Forgotten\<close>: how many bytes the
  offered space exceeds the free space by.
\<close>

record account =
  ac_Node :: string
  ac_Phase :: string
  ac_Open :: bool
  ac_Ledger :: node_ledger
  ac_Forgotten :: int

type_synonym cluster = "string \<rightharpoonup> account"

definition used_bytes :: "node_ledger \<Rightarrow> int" where
  "used_bytes L = (\<Sum>i \<in> dom (nl_used L). the (nl_used L i))"

definition offered :: "account \<Rightarrow> rat" where
  "offered a = ledger_free (ac_Ledger a) + of_int (ac_Forgotten a)"

definition unused_id :: "string \<Rightarrow> cluster \<Rightarrow> bool" where
  "unused_id i A \<longleftrightarrow> (\<forall>n a. A n = Some a \<longrightarrow> nl_used (ac_Ledger a) i = None)"

text \<open>
  An account is registered for a node, without volumes, in whatever phase its object asks for; a
  pending one moves on to \<open>Initiating\<close>; one that is not pending is opened with a total, all of which
  it then offers, whatever it has recorded; one can be told once to terminate; an open one takes a
  volume under an ID that is used nowhere, and gives one back; an account is removed.
\<close>

inductive cluster_step :: "cluster \<Rightarrow> cluster \<Rightarrow> bool" where
  register: "A k = None \<Longrightarrow>
     cluster_step A (A(k \<mapsto> \<lparr>ac_Node = n, ac_Phase = p, ac_Open = False,
       ac_Ledger = \<lparr>nl_total = t, nl_used = Map.empty\<rparr>, ac_Forgotten = 0\<rparr>))"
| promote: "A k = Some a \<Longrightarrow> ac_Phase a = LocalStoragePending \<Longrightarrow>
     cluster_step A (A(k \<mapsto> a\<lparr>ac_Phase := LocalStorageInitiating\<rparr>))"
| open_account: "A k = Some a \<Longrightarrow> ac_Phase a \<noteq> LocalStoragePending \<Longrightarrow>
     cluster_step A (A(k \<mapsto> a\<lparr>ac_Phase := LocalStorageReady, ac_Open := True,
       ac_Ledger := (ac_Ledger a)\<lparr>nl_total := t\<rparr>, ac_Forgotten := used_bytes (ac_Ledger a)\<rparr>))"
| terminate_account: "A k = Some a \<Longrightarrow> ac_Phase a \<noteq> LocalStorageTerminating \<Longrightarrow>
     cluster_step A (A(k \<mapsto> a\<lparr>ac_Phase := LocalStorageTerminating\<rparr>))"
| take_volume: "A k = Some a \<Longrightarrow> ac_Open a \<Longrightarrow> unused_id i A \<Longrightarrow>
     cluster_step A (A(k \<mapsto> a\<lparr>ac_Ledger := ledger_alloc i b (ac_Ledger a)\<rparr>))"
| give_back: "A k = Some a \<Longrightarrow> ac_Open a \<Longrightarrow>
     cluster_step A (A(k \<mapsto> a\<lparr>ac_Ledger := ledger_release i (ac_Ledger a)\<rparr>))"
| remove_account: "cluster_step A (A(k := None))"

text \<open>In the specification a volume ID is used in one account only, and only in an open one.\<close>

definition cluster_inv :: "cluster \<Rightarrow> bool" where
  "cluster_inv A \<longleftrightarrow>
     (\<forall>n a. A n = Some a \<longrightarrow> \<not> ac_Open a \<longrightarrow> nl_used (ac_Ledger a) = Map.empty) \<and>
     (\<forall>n m a b i x y. A n = Some a \<longrightarrow> A m = Some b \<longrightarrow>
        nl_used (ac_Ledger a) i = Some x \<longrightarrow> nl_used (ac_Ledger b) i = Some y \<longrightarrow> n = m)"

lemma cluster_invI:
  assumes "\<And>n a. A n = Some a \<Longrightarrow> \<not> ac_Open a \<Longrightarrow> nl_used (ac_Ledger a) = Map.empty"
    and "\<And>n m a b i x y. A n = Some a \<Longrightarrow> A m = Some b \<Longrightarrow>
        nl_used (ac_Ledger a) i = Some x \<Longrightarrow> nl_used (ac_Ledger b) i = Some y \<Longrightarrow> n = m"
  shows "cluster_inv A"
  using assms unfolding cluster_inv_def by blast

lemma cluster_inv_open: "cluster_inv A \<Longrightarrow> A n = Some a \<Longrightarrow> \<not> ac_Open a \<Longrightarrow> nl_used (ac_Ledger a) = Map.empty"
  unfolding cluster_inv_def by blast

lemma cluster_inv_one:
  "cluster_inv A \<Longrightarrow> A n = Some a \<Longrightarrow> A m = Some b \<Longrightarrow> nl_used (ac_Ledger a) i = Some x \<Longrightarrow>
   nl_used (ac_Ledger b) i = Some y \<Longrightarrow> n = m"
  unfolding cluster_inv_def by blast

text \<open>An account may lose volumes, or take one that is used nowhere.\<close>

lemma cluster_inv_replace:
  assumes inv: "cluster_inv A"
    and shut: "\<not> ac_Open b \<Longrightarrow> nl_used (ac_Ledger b) = Map.empty"
    and used: "\<And>i x. nl_used (ac_Ledger b) i = Some x \<Longrightarrow>
      unused_id i A \<or> (\<exists>a y. A n = Some a \<and> nl_used (ac_Ledger a) i = Some y)"
  shows "cluster_inv (A(n \<mapsto> b))"
proof (rule cluster_invI)
  fix m a assume "(A(n \<mapsto> b)) m = Some a" "\<not> ac_Open a"
  then show "nl_used (ac_Ledger a) = Map.empty"
    using shut cluster_inv_open [OF inv] by (auto split: if_splits)
next
  have other: "m = n" if "A m = Some a" "nl_used (ac_Ledger a) i = Some x" "nl_used (ac_Ledger b) i = Some y" for m a i x y
    using used [OF that(3)] that(1,2) cluster_inv_one [OF inv that(1) _ that(2)] unfolding unused_id_def by fastforce
  fix m k a c i x y
  assume "(A(n \<mapsto> b)) m = Some a" "(A(n \<mapsto> b)) k = Some c"
    and "nl_used (ac_Ledger a) i = Some x" "nl_used (ac_Ledger c) i = Some y"
  then show "m = k"
    using other cluster_inv_one [OF inv] by (auto split: if_splits)
qed

lemma cluster_inv_remove: "cluster_inv A \<Longrightarrow> cluster_inv (A(n := None))"
  unfolding cluster_inv_def by (auto split: if_splits)

lemma cluster_step_inv:
  assumes "cluster_step A B" and "cluster_inv A"
  shows "cluster_inv B"
  using assms
proof (induction rule: cluster_step.induct)
  case (take_volume A n a i b)
  then show ?case
    by (intro cluster_inv_replace) (auto simp: ledger_alloc_def split: if_splits)
next
  case (give_back A n a i)
  then show ?case
    by (intro cluster_inv_replace) (auto simp: ledger_release_def split: if_splits)
qed (auto intro!: cluster_inv_replace cluster_inv_remove dest: cluster_inv_open)

section \<open>What the stored objects stand for\<close>

definition agrees :: "('q \<Rightarrow> rat) \<Rightarrow> 'q LocalStorage \<Rightarrow> account \<Rightarrow> bool" where
  "agrees val l a \<longleftrightarrow>
     ac_Node a = ls_Node l \<and> ac_Phase a = ls_Phase l \<and>
     ac_Open a = (st_Allocatable (ls_Status l) \<noteq> None) \<and> ac_Ledger a = abs_ledger val l \<and>
     (\<forall>q. st_Allocatable (ls_Status l) = Some q \<longrightarrow> val q = offered a)"

definition represents :: "('q \<Rightarrow> rat) \<Rightarrow> (string \<rightharpoonup> 'q LocalStorage) \<Rightarrow> cluster \<Rightarrow> bool" where
  "represents val m A \<longleftrightarrow>
     dom A = dom m \<and> (\<forall>k l a. m k = Some l \<longrightarrow> A k = Some a \<longrightarrow> agrees val l a)"

lemma representsD:
  assumes "represents val m A" and "m k = Some l"
  obtains a where "A k = Some a" "agrees val l a"
proof -
  from assms have "k \<in> dom A" by (auto simp: represents_def)
  with assms that show thesis unfolding represents_def by blast
qed

lemma represents_account:
  assumes "represents val m A" and "A k = Some a"
  obtains l where "m k = Some l" "agrees val l a"
proof -
  from assms have "k \<in> dom m" unfolding represents_def by blast
  with assms that show thesis unfolding represents_def by blast
qed

lemma represents_upd: "represents val m A \<Longrightarrow> agrees val l a \<Longrightarrow> represents val (m(k \<mapsto> l)) (A(k \<mapsto> a))"
  by (auto simp: represents_def split: if_splits)

lemma represents_remove: "represents val m A \<Longrightarrow> represents val (m(k := None)) (A(k := None))"
  by (auto simp: represents_def split: if_splits)

lemma agrees_status:
  assumes "ls_Status l' = ls_Status l" and "ls_Node l' = ls_Node l"
  shows "agrees val l' a = agrees val l a"
  using assms by (simp add: agrees_def abs_ledger_def)

text \<open>The ledger operations change the free space by the size of the volume.\<close>

lemma abs_used: "distinct (map v_VolID (ls_Volumes l)) \<Longrightarrow> used_bytes (abs_ledger val l) = volume_total (ls_Volumes l)"
  by (simp add: used_bytes_def abs_ledger_def volume_total_used)

lemma abs_free:
  assumes "distinct (map v_VolID (ls_Volumes l))"
  shows "ledger_free (abs_ledger val l) = nl_total (abs_ledger val l) - of_int (volume_total (ls_Volumes l))"
  using abs_used [OF assms, of val] by (simp add: ledger_free_def used_bytes_def)

lemma abs_total: "st_Capacity (ls_Status l') = st_Capacity (ls_Status l) \<Longrightarrow> nl_total (abs_ledger val l') = nl_total (abs_ledger val l)"
  by (simp add: abs_ledger_def)

lemma agrees_allocate:
  assumes Q: "quantity_laws Q val" and a: "agrees val l a" and q: "st_Allocatable (ls_Status l) \<noteq> None"
    and tidy: "tidy l" and new: "v_VolID v \<notin> v_VolID ` set (ls_Volumes l)"
  shows "agrees val (allocate Q v l) (a\<lparr>ac_Ledger := ledger_alloc (v_VolID v) (sint (v_VolSize v)) (ac_Ledger a)\<rparr>)"
proof -
  have "distinct (map v_VolID (ls_Volumes (allocate Q v l)))"
    using allocate_tidy [OF tidy q new, of Q] by (rule tidy_distinct)
  from abs_free [OF this, of val] abs_free [OF tidy_distinct [OF tidy], of val]
  have "ledger_free (abs_ledger val (allocate Q v l)) = ledger_free (abs_ledger val l) - of_int (sint (v_VolSize v))"
    using new abs_total [of "allocate Q v l" l val]
    by (simp add: allocate_def AddVolume_new volume_total_def)
  with a q allocate_refines [OF new, of val Q] show ?thesis
    by (auto simp: agrees_def offered_def allocate_def quantity_laws_simps [OF Q])
qed

lemma agrees_release:
  assumes Q: "quantity_laws Q val" and a: "agrees val l a" and q: "st_Allocatable (ls_Status l) \<noteq> None"
    and tidy: "tidy l"
  shows "agrees val (release Q i l) (a\<lparr>ac_Ledger := ledger_release i (ac_Ledger a)\<rparr>)"
proof -
  note d = tidy_distinct [OF tidy]
  have "distinct (map v_VolID (ls_Volumes (release Q i l)))"
    using release_tidy [OF tidy q, of Q] by (rule tidy_distinct)
  from abs_free [OF this, of val] abs_free [OF d, of val]
  have "ledger_free (abs_ledger val (release Q i l)) =
      ledger_free (abs_ledger val l) + of_int (sint (v_VolSize (snd (RemoveVolume l i))))"
    using removed_size [OF d, of i] abs_total [of "release Q i l" l val]
    by (simp add: release_def RemoveVolume_distinct [OF d])
  with a q release_refines [OF d, of val Q i] show ?thesis
    by (auto simp: agrees_def offered_def release_def quantity_laws_simps [OF Q])
qed

lemma agrees_phase:
  "agrees val l a \<Longrightarrow> agrees val (set_Phase p l) (a\<lparr>ac_Phase := p\<rparr>)"
  by (simp add: agrees_def abs_ledger_def offered_def)

lemma agrees_initialised:
  assumes "agrees val l a" and "tidy l"
  shows "agrees val (initialised q l) (a\<lparr>ac_Phase := LocalStorageReady, ac_Open := True,
    ac_Ledger := (ac_Ledger a)\<lparr>nl_total := val q\<rparr>, ac_Forgotten := used_bytes (ac_Ledger a)\<rparr>)"
  using assms by (simp add: agrees_def abs_ledger_def offered_def ledger_free_def used_bytes_def)

lemma agrees_new:
  "ls_Volumes l = [] \<Longrightarrow> st_Allocatable (ls_Status l) = None \<Longrightarrow>
   agrees val l \<lparr>ac_Node = ls_Node l, ac_Phase = ls_Phase l, ac_Open = False,
     ac_Ledger = \<lparr>nl_total = nl_total (abs_ledger val l), nl_used = Map.empty\<rparr>, ac_Forgotten = 0\<rparr>"
  by (simp add: agrees_def abs_ledger_def used_of_def)

section \<open>The system implements the specification\<close>

definition system_contracts ::
    "('q \<Rightarrow> rat) \<Rightarrow> 'q quantity_ops \<Rightarrow> ('q, 'a) services \<Rightarrow> ('a \<Rightarrow> string \<rightharpoonup> 'q LocalStorage) \<Rightarrow>
     (string \<Rightarrow> Config) \<Rightarrow> bool" where
  "system_contracts val Q S stored C \<longleftrightarrow>
     quantity_laws Q val \<and> update_contract S stored \<and> cache_contract S stored \<and> uuid_contract S stored \<and>
     (\<forall>n. cf_NodeId (C n) = n)"

text \<open>The steps of the system whose new identifiers are new and whose requests leave the status alone.\<close>

definition regular_step ::
    "'q quantity_ops \<Rightarrow> ('q, 'a) services \<Rightarrow> ('a \<Rightarrow> string \<rightharpoonup> 'q LocalStorage) \<Rightarrow>
     (string \<Rightarrow> Config) \<Rightarrow> ('q, 'a) system \<Rightarrow> ('q, 'a) system \<Rightarrow> bool" where
  "regular_step Q S stored C s s' \<longleftrightarrow>
     (\<exists>e. system_step Q S stored C e s s' \<and> status_kept stored (e, s) \<and> id_fresh S stored (e, s))"

definition implements ::
    "('q \<Rightarrow> rat) \<Rightarrow> 'q quantity_ops \<Rightarrow> ('q, 'a) services \<Rightarrow> ('a \<Rightarrow> string \<rightharpoonup> 'q LocalStorage) \<Rightarrow>
     (string \<Rightarrow> Config) \<Rightarrow> ('q, 'a) system \<Rightarrow> cluster \<Rightarrow> bool" where
  "implements val Q S stored C s A \<longleftrightarrow>
     system_contracts val Q S stored C \<and> all_tidy (stored (sy_sv s)) \<and> clean_admissions s \<and>
     represents val (stored (sy_sv s)) A"

text \<open>One specification step, or none, leads to a state that represents the store.\<close>

definition matched :: "('q \<Rightarrow> rat) \<Rightarrow> cluster \<Rightarrow> (string \<rightharpoonup> 'q LocalStorage) \<Rightarrow> bool" where
  "matched val A m \<longleftrightarrow> (\<exists>A'. (A' = A \<or> cluster_step A A') \<and> represents val m A')"

lemma matched_same: "represents val m A \<Longrightarrow> matched val A m"
  unfolding matched_def by blast

lemma matched_step: "cluster_step A (A(k \<mapsto> a)) \<Longrightarrow> represents val m A \<Longrightarrow> agrees val l a \<Longrightarrow> matched val A (m(k \<mapsto> l))"
  unfolding matched_def by (blast intro: represents_upd)

lemma matched_replace:
  assumes rep: "represents val m A" and k: "m k = Some l" and ap: "applied obj l'"
    and step: "\<And>a. A k = Some a \<Longrightarrow> agrees val l a \<Longrightarrow> \<exists>a'. cluster_step A (A(k \<mapsto> a')) \<and> agrees val obj a'"
  shows "matched val A (m(k \<mapsto> l'))"
proof -
  obtain a where "A k = Some a" "agrees val l a" using rep k by (rule representsD)
  with step obtain a' where "cluster_step A (A(k \<mapsto> a'))" "agrees val obj a'" by blast
  with rep ap agrees_status [of l' obj val a'] show ?thesis
    by (intro matched_step) (simp_all add: applied_def)
qed

lemma matched_kept:
  assumes rep: "represents val m A" and k: "m k = Some l" and st: "ls_Status l' = ls_Status l" "ls_Node l' = ls_Node l"
  shows "matched val A (m(k \<mapsto> l'))"
proof (rule matched_same)
  obtain a where a: "A k = Some a" "agrees val l a" using rep k by (rule representsD)
  then have "A(k \<mapsto> a) = A" by (simp add: fun_upd_idem)
  with represents_upd [OF rep, of l' a k] a(2) agrees_status [OF st, of val a]
  show "represents val (m(k \<mapsto> l')) A" by simp
qed

text \<open>Every change of the stored objects is matched by a step of the specification, or by none.\<close>

lemma change_matched:
  assumes Q: "quantity_laws Q val" and clean: "clean_admissions s" and kept: "status_kept stored (e, s)"
    and fresh: "id_fresh S stored (e, s)" and tidy: "all_tidy (stored (sy_sv s))"
    and rep: "represents val (stored (sy_sv s)) A" and change: "store_change Q S stored C e s m"
  shows "matched val A m"
  using change
proof (cases rule: store_change.cases)
  case unchanged
  with rep show ?thesis by (simp add: matched_same)
next
  case (allocated l n req l')
  let ?i = "fst (sv_NewUUID S (sy_sv s))"
  have new: "?i \<notin> v_VolID ` set (ls_Volumes x)" if "stored (sy_sv s) k = Some x" for k x
    using fresh allocated(1) that by (auto simp: fresh_uuid_def)
  have unused: "unused_id ?i A"
    unfolding unused_id_def
  proof (intro allI impI)
    fix k a assume "A k = Some a"
    with rep obtain x where "stored (sy_sv s) k = Some x" "agrees val x a" by (rule represents_account)
    with new show "nl_used (ac_Ledger a) ?i = None"
      by (auto simp: agrees_def abs_ledger_def dom_used_of [symmetric] domIff)
  qed
  show ?thesis
    unfolding allocated(2)
  proof (rule matched_replace [OF rep allocated(3,6)])
    fix a assume a: "A (ls_Name l) = Some a" "agrees val l a"
    then have "ac_Open a" using allocated(5) by (simp add: agrees_def)
    from cluster_step.take_volume [where A = A and k = "ls_Name l", OF a(1) this unused, where b = "sint (cv_RequiredBytes req)"]
      agrees_allocate [OF Q a(2) allocated(5) all_tidyD [OF tidy allocated(3)], of "new_Volume (C n) req ?i"]
      new [OF allocated(3)]
    show "\<exists>a'. cluster_step A (A(ls_Name l \<mapsto> a')) \<and> agrees val (allocate Q (new_Volume (C n) req ?i) l) a'"
      by auto
  qed
next
  case (released l n i l')
  show ?thesis
    unfolding released(2)
  proof (rule matched_replace [OF rep released(3,6)])
    fix a assume a: "A (ls_Name l) = Some a" "agrees val l a"
    then have "ac_Open a" using released(5) by (simp add: agrees_def)
    from cluster_step.give_back [where A = A and k = "ls_Name l", OF a(1) this] agrees_release [OF Q a(2) released(5) all_tidyD [OF tidy released(3)]]
    show "\<exists>a'. cluster_step A (A(ls_Name l \<mapsto> a')) \<and> agrees val (release Q i l) a'" by blast
  qed
next
  case (promoted l l')
  show ?thesis
    unfolding promoted(1)
  proof (rule matched_replace [OF rep promoted(2,4)])
    fix a assume a: "A (ls_Name l) = Some a" "agrees val l a"
    then have "ac_Phase a = LocalStoragePending" using promoted(3) by (simp add: agrees_def phase_tests)
    from cluster_step.promote [where A = A and k = "ls_Name l", OF a(1) this] agrees_phase [OF a(2)]
    show "\<exists>a'. cluster_step A (A(ls_Name l \<mapsto> a')) \<and> agrees val (set_Phase LocalStorageInitiating l) a'" by blast
  qed
next
  case (terminated l l')
  show ?thesis
    unfolding terminated(1)
  proof (rule matched_replace [OF rep terminated(2,4)])
    fix a assume a: "A (ls_Name l) = Some a" "agrees val l a"
    then have "ac_Phase a \<noteq> LocalStorageTerminating" using terminated(3) by (simp add: agrees_def phase_tests)
    from cluster_step.terminate_account [where A = A and k = "ls_Name l", OF a(1) this] agrees_phase [OF a(2)]
    show "\<exists>a'. cluster_step A (A(ls_Name l \<mapsto> a')) \<and> agrees val (set_Phase LocalStorageTerminating l) a'" by blast
  qed
next
  case (opened dKey l q l' n)
  show ?thesis
    unfolding opened(2)
  proof (rule matched_replace [OF rep opened(4,7)])
    fix a assume a: "A (ls_Name l) = Some a" "agrees val l a"
    then have "ac_Phase a \<noteq> LocalStoragePending" using opened(5) by (simp add: agrees_def phase_tests)
    from cluster_step.open_account [where A = A and k = "ls_Name l", OF a(1) this] agrees_initialised [OF a(2) all_tidyD [OF tidy opened(4)]]
    show "\<exists>a'. cluster_step A (A(ls_Name l \<mapsto> a')) \<and> agrees val (initialised q l) a'" by blast
  qed
next
  case (created x l')
  have "A (ls_Name x) = None" using rep created(4) unfolding represents_def by blast
  from matched_step [OF cluster_step.register [where A = A and k = "ls_Name x", OF this] rep
      agrees_new [OF admitted_empty [OF clean created(3,5)]]]
  show ?thesis unfolding created(2) .
next
  case (edited k old l l')
  then have "ls_Status l' = ls_Status old" using edited_status kept by metis
  moreover have "ls_Node l' = ls_Node old" using edited by (simp add: applied_def ValidateUpdate_None)
  ultimately show ?thesis unfolding edited(2) using matched_kept [OF rep edited(3)] by blast
next
  case (marked k l l')
  then show ?thesis using matched_kept [OF rep marked(3)] by (simp add: applied_def)
next
  case (removed k)
  with represents_remove [OF rep, of k] cluster_step.remove_account [of A k] show ?thesis
    unfolding matched_def by blast
qed

lemma implements_step:
  assumes imp: "implements val Q S stored C s A" and step: "regular_step Q S stored C s s'"
  shows "\<exists>A'. (A' = A \<or> cluster_step A A') \<and> implements val Q S stored C s' A'"
proof -
  obtain e where e: "system_step Q S stored C e s s'" "status_kept stored (e, s)" "id_fresh S stored (e, s)"
    using step by (auto simp: regular_step_def)
  have con: "system_contracts val Q S stored C" and tidy: "all_tidy (stored (sy_sv s))"
    and clean: "clean_admissions s" and rep: "represents val (stored (sy_sv s)) A"
    using imp by (simp_all add: implements_def)
  then have Q: "quantity_laws Q val"
    and change: "store_change Q S stored C e s (stored (sy_sv s'))"
    using system_step_change [of S stored C Q e s s'] e(1) by (simp_all add: system_contracts_def)
  have "clean_admissions s'" using e(1,2) clean by (rule step_clean)
  moreover have "all_tidy (stored (sy_sv s'))" using clean e(2,3) tidy change by (rule change_tidy)
  moreover have "matched val A (stored (sy_sv s'))" using Q clean e(2,3) tidy rep change by (rule change_matched)
  ultimately show ?thesis using con unfolding implements_def matched_def by blast
qed

lemma empty_cluster:
  "represents val Map.empty Map.empty" "cluster_inv Map.empty"
  by (simp_all add: represents_def cluster_inv_def)

interpretation cluster_spec: simulation
  "\<lambda>s. system_contracts val Q S stored C \<and> stored (sy_sv s) = Map.empty \<and> sy_admitted s = []"
  "regular_step Q S stored C" "\<lambda>A. A = Map.empty" cluster_step "implements val Q S stored C"
  for val :: "'q \<Rightarrow> rat" and Q and S :: "('q, 'a) services" and stored C
proof unfold_locales
  fix s :: "('q, 'a) system"
  assume "system_contracts val Q S stored C \<and> stored (sy_sv s) = Map.empty \<and> sy_admitted s = []"
  then show "\<exists>A. A = Map.empty \<and> implements val Q S stored C s A"
    by (simp add: implements_def empty_cluster all_tidy_def clean_admissions_def)
next
  fix s s' :: "('q, 'a) system" and A
  assume "implements val Q S stored C s A" and "regular_step Q S stored C s s'"
  then show "\<exists>A'. (A' = A \<or> cluster_step A A') \<and> implements val Q S stored C s' A'"
    by (rule implements_step)
qed

lemma trace_runs:
  assumes "system_trace Q S stored C tr s"
    and "\<And>y. y \<in> set tr \<Longrightarrow> status_kept stored y \<and> id_fresh S stored y"
  shows "\<exists>s0. stored (sy_sv s0) = Map.empty \<and> sy_admitted s0 = [] \<and> (regular_step Q S stored C)\<^sup>*\<^sup>* s0 s"
  using assms
proof (induction rule: system_trace.induct)
  case (start s)
  then show ?case by blast
next
  case (step tr s e s')
  then have "regular_step Q S stored C s s'" unfolding regular_step_def by auto
  with step show ?case by (metis list.set_intros(2) rtranclp.rtrancl_into_rtrancl)
qed

end
