(* ===== verification/Prop_Cluster.thy ===== *)
theory Prop_Cluster
  imports LS_Cluster Prop_System
begin

text \<open>
  The system as an implementation of the abstract cluster of accounts, and what the specification's
  invariant says of the stored objects.
\<close>

lemma system_implements:
  assumes "quantity_laws Q val"
    and "update_contract S stored" "cache_contract S stored" "uuid_contract S stored"
    and "\<And>n. cf_NodeId (C n) = n"
    and "system_trace Q S stored C tr s"
    and "\<And>y. y \<in> set tr \<Longrightarrow> status_kept stored y \<and> id_fresh S stored y"
  obtains A where "cluster_step\<^sup>*\<^sup>* Map.empty A" "cluster_inv A" "implements val Q S stored C s A"
proof -
  have "\<exists>s0. stored (sy_sv s0) = Map.empty \<and> sy_admitted s0 = [] \<and> (regular_step Q S stored C)\<^sup>*\<^sup>* s0 s"
    using assms(6,7) by (rule trace_runs)
  then obtain s0 where s0: "stored (sy_sv s0) = Map.empty" "sy_admitted s0 = []"
      and run: "(regular_step Q S stored C)\<^sup>*\<^sup>* s0 s" by blast
  have init: "system_contracts val Q S stored C \<and> stored (sy_sv s0) = Map.empty \<and> sy_admitted s0 = []"
    using assms(1-5) s0 by (simp add: system_contracts_def)
  obtain A0 A where A: "A0 = Map.empty" "cluster_step\<^sup>*\<^sup>* A0 A" "implements val Q S stored C s A"
    using cluster_spec.reachable_simulated [OF init run] by blast
  from A(2,1) have "cluster_inv A"
    by (induction rule: rtranclp_induct) (use empty_cluster cluster_step_inv in blast)+
  with A that show thesis by blast
qed



text \<open>
  C6. A volume ID is recorded once in the whole cluster: if two stored objects record volumes with
  the same ID, they are the same object and the same record, so no volume is charged to two nodes
  or twice to one. The run may be any in which generated IDs are new plain names and requests from outside
  leave the status alone.
\<close>

theorem system_volume_recorded_once:
  assumes "quantity_laws Q val"
    and "update_contract S stored" "cache_contract S stored" "uuid_contract S stored"
    and "\<And>n. cf_NodeId (C n) = n"
    and "system_trace Q S stored C tr s"
    and "\<And>y. y \<in> set tr \<Longrightarrow> status_kept stored y \<and> id_fresh S stored y"
    and "stored (sy_sv s) j = Some l" "stored (sy_sv s) k = Some l'"
    and "v \<in> set (ls_Volumes l)" "v' \<in> set (ls_Volumes l')" "v_VolID v = v_VolID v'"
  shows "j = k \<and> v = v'"
proof -
  obtain A where A: "cluster_inv A" "implements val Q S stored C s A"
    using assms(1-7) by (rule system_implements)
  then have rep: "represents val (stored (sy_sv s)) A" and tidy: "all_tidy (stored (sy_sv s))"
    by (simp_all add: implements_def)
  have d: "distinct (map v_VolID (ls_Volumes l))" "distinct (map v_VolID (ls_Volumes l'))"
    using assms(8,9) all_tidyD [OF tidy] tidy_distinct by blast+
  obtain a where a: "A j = Some a" "agrees val l a" using rep assms(8) by (rule representsD)
  obtain b where b: "A k = Some b" "agrees val l' b" using rep assms(9) by (rule representsD)
  have "j = k"
    using A(1) a(1) b(1)
    by (rule cluster_inv_one)
      (use used_of_Some [OF d(1) assms(10)] used_of_Some [OF d(2) assms(11)] assms(12) a(2) b(2)
        in \<open>simp_all add: agrees_def abs_ledger_def\<close>)
  with assms(8-12) d(1) show ?thesis by (simp add: distinct_map inj_on_def)
qed

lemma system_volume_recorded_once_witness:
  "{(k, v_VolSize v) |k v. \<exists>l. api_stored (sy_sv demo6) k = Some l \<and> v \<in> set (ls_Volumes l) \<and> v_VolID v = ''pv''} =
     {(''ls-n'', 10)}"
proof -
  have "map_option (\<lambda>l. map (\<lambda>v. (v_VolID v, v_VolSize v)) (ls_Volumes l)) (api_stored (sy_sv demo6) ''ls-n'') =
      Some [(''pv'', 10)]" by code_simp
  then obtain l v where l: "api_stored (sy_sv demo6) ''ls-n'' = Some l" "ls_Volumes l = [v]"
      "v_VolID v = ''pv''" "v_VolSize v = 10" by auto
  have "k = ''ls-n'' \<and> u = v"
    if "api_stored (sy_sv demo6) k = Some x" "u \<in> set (ls_Volumes x)" "v_VolID u = ''pv''" for k x u
    using system_volume_recorded_once [OF int_quantity_laws api_update_contract api_cache_contract
        api_uuid_contract demo_cfg_node demo6_trace demo_run_regular that(1) l(1) that(2), of v] l that(3) by simp
  then have "(\<exists>x. api_stored (sy_sv demo6) k = Some x \<and> u \<in> set (ls_Volumes x) \<and> v_VolID u = ''pv'') \<longleftrightarrow>
      k = ''ls-n'' \<and> u = v" for k u
    using l by (metis list.set_intros(1))
  with l(4) show ?thesis by simp
qed

end
