(* ===== verification/Go_Flag.thy ===== *)
theory Go_Flag
  imports Go_Json_Roundtrip
begin

text \<open>
  What the commands use of Go's \<open>flag\<close> package: the table of defined flags, \<open>Set\<close>, the definition of
  a flag, and \<open>Parse\<close> with \<open>ExitOnError\<close>; and of \<open>strconv\<close>: \<open>ParseBool\<close>, and \<open>ParseInt\<close> with base 0 and
  64 bits. Messages are left out.
\<close>

section \<open>strconv\<close>

definition ParseBool :: "string \<Rightarrow> bool option" where
  "ParseBool s =
     (if s \<in> {''1'', ''t'', ''T'', ''TRUE'', ''true'', ''True''} then Some True
      else if s \<in> {''0'', ''f'', ''F'', ''FALSE'', ''false'', ''False''} then Some False
      else None)"

definition lower :: "char \<Rightarrow> nat" where
  "lower c = (if 65 \<le> byte c \<and> byte c \<le> 90 then byte c + 32 else byte c)"

text \<open>The value of a digit in any base up to 36.\<close>

definition any_digit :: "char \<Rightarrow> nat option" where
  "any_digit c =
     (if is_digit c then Some (byte c - 48)
      else if 97 \<le> lower c \<and> lower c \<le> 122 then Some (lower c - 87)
      else None)"

fun digits_in :: "nat \<Rightarrow> nat \<Rightarrow> string \<Rightarrow> nat option" where
  "digits_in b n [] = Some n"
| "digits_in b n (c # cs) =
     (if c = CHR ''_'' then digits_in b n cs
      else (case any_digit c of
              None \<Rightarrow> None
            | Some d \<Rightarrow> if b \<le> d then None else digits_in b (n * b + d) cs))"

text \<open>The base of a literal, and the digits that are left.\<close>

definition base_of :: "string \<Rightarrow> nat \<times> string" where
  "base_of s =
     (case s of
        [] \<Rightarrow> (10, [])
      | c # t \<Rightarrow>
          if c \<noteq> CHR ''0'' then (10, s)
          else (case t of
                  x # d # ds \<Rightarrow>
                    if lower x = 98 then (2, d # ds)
                    else if lower x = 111 then (8, d # ds)
                    else if lower x = 120 then (16, d # ds)
                    else (8, t)
                | _ \<Rightarrow> (8, t)))"

text \<open>\<open>underscoreOK\<close>: an underscore stands between digits, or after the prefix of the base.\<close>

datatype saw = SawStart | SawDigit | SawUnderscore | SawOther

fun underscore_loop :: "bool \<Rightarrow> saw \<Rightarrow> string \<Rightarrow> bool" where
  "underscore_loop hex w [] = (w \<noteq> SawUnderscore)"
| "underscore_loop hex w (c # cs) =
     (if is_digit c \<or> hex \<and> 97 \<le> lower c \<and> lower c \<le> 102 then underscore_loop hex SawDigit cs
      else if c = CHR ''_'' then w = SawDigit \<and> underscore_loop hex SawUnderscore cs
      else w \<noteq> SawUnderscore \<and> underscore_loop hex SawOther cs)"

definition drop_sign :: "string \<Rightarrow> string" where
  "drop_sign s = (case s of [] \<Rightarrow> [] | c # t \<Rightarrow> if c = CHR ''-'' \<or> c = CHR ''+'' then t else s)"

definition underscoreOK :: "string \<Rightarrow> bool" where
  "underscoreOK s =
     (case drop_sign s of
        c # x # t \<Rightarrow>
          if c = CHR ''0'' \<and> lower x \<in> {98, 111, 120} then underscore_loop (lower x = 120) SawDigit t
          else underscore_loop False SawStart (c # x # t)
      | t \<Rightarrow> underscore_loop False SawStart t)"

definition ParseInt :: "string \<Rightarrow> int option" where
  "ParseInt s =
     (let u = drop_sign s; neg = (s \<noteq> [] \<and> hd s = CHR ''-''); (b, ds) = base_of u
      in if u = [] then None
         else case digits_in b 0 ds of
                None \<Rightarrow> None
              | Some n \<Rightarrow>
                  if CHR ''_'' \<in> set ds \<and> \<not> underscoreOK u then None
                  else if neg then (if n \<le> 2 ^ 63 then Some (- int n) else None)
                  else (if n < 2 ^ 63 then Some (int n) else None))"

lemma digits_in_10: "list_all is_digit s \<Longrightarrow> digits_in 10 n s = Some (digits_value n s)"
  by (induction s arbitrary: n) (auto simp: any_digit_def is_digit_def)

lemma drop_sign_digits: "list_all is_digit s \<Longrightarrow> drop_sign s = s"
  by (cases s) (auto simp: drop_sign_def is_digit_def)

lemma digits_of_dec:
  obtains b ds where "base_of (dec_digits n) = (b, ds)" "digits_in b 0 ds = Some n" "CHR ''_'' \<notin> set ds"
    "dec_digits n \<noteq> []"
proof -
  obtain c t where c: "dec_digits n = c # t" "c = CHR ''0'' \<longrightarrow> t = [] \<and> n = 0" using dec_digits_head by blast
  have us: "\<not> is_digit (CHR ''_'')" by code_simp
  have d: "list_all is_digit (dec_digits n)" by (rule dec_digits_digits)
  show thesis
  proof (cases "c = CHR ''0''")
    case True
    with c have "base_of (dec_digits n) = (8, [])" "n = 0" by (simp_all add: base_of_def)
    with c show thesis by (intro that [of 8 "[]"]) simp_all
  next
    case False
    with c have "base_of (dec_digits n) = (10, dec_digits n)" by (simp add: base_of_def)
    moreover have "CHR ''_'' \<notin> set (dec_digits n)" using d us by (auto simp: list_all_iff)
    ultimately show thesis
      using digits_in_10 [OF d, of 0] digits_value_dec [of n] c(1) by (intro that [of 10 "dec_digits n"]) simp_all
  qed
qed

lemma ParseInt_dec:
  assumes "- (2 ^ 63) \<le> i" "i < 2 ^ 63"
  shows "ParseInt (dec_int i) = Some i"
proof -
  let ?n = "nat \<bar>i\<bar>"
  obtain b ds where b: "base_of (dec_digits ?n) = (b, ds)" "digits_in b 0 ds = Some ?n" "CHR ''_'' \<notin> set ds"
    "dec_digits ?n \<noteq> []" by (rule digits_of_dec)
  have d: "list_all is_digit (dec_digits ?n)" by (rule dec_digits_digits)
  have "drop_sign (dec_int i) = dec_digits ?n"
    using drop_sign_digits [OF d] by (cases "i < 0") (simp_all add: dec_int_def, simp add: drop_sign_def)
  moreover have "(dec_int i \<noteq> [] \<and> hd (dec_int i) = CHR ''-'') \<longleftrightarrow> i < 0"
    using d b(4) by (cases "dec_digits ?n") (auto simp: dec_int_def is_digit_def)
  moreover have "i < 0 \<Longrightarrow> ?n \<le> 2 ^ 63" "\<not> i < 0 \<Longrightarrow> ?n < 2 ^ 63"
    using assms by (simp_all add: nat_le_iff nat_less_iff)
  ultimately show ?thesis
    using b by (auto simp: ParseInt_def Let_def)
qed

section \<open>The table of flags\<close>

text \<open>
  A flag holds a value of its type; \<open>OtherFlag\<close> is one of a type outside the repository, which
  accepts the texts \<open>accepts\<close> says. \<open>fg_undef\<close> are the names that \<open>Set\<close> was called for before they
  were defined: releases of Go before 1.21 do not remember them (\<open>remembers\<close>).
\<close>

datatype flag_value = BoolFlag bool | IntFlag int | StringFlag string | OtherFlag string

type_synonym flag_table = "(string \<times> flag_value) list"

record flag_set =
  fg_formal :: flag_table
  fg_undef :: "string list"

definition put_flag :: "string \<Rightarrow> flag_value \<Rightarrow> flag_table \<Rightarrow> flag_table" where
  "put_flag n v fm = map (\<lambda>(k, w). (k, if k = n then v else w)) fm"

fun value_Set :: "(string \<Rightarrow> bool) \<Rightarrow> flag_value \<Rightarrow> string \<Rightarrow> flag_value option" where
  "value_Set accepts (BoolFlag _) s = map_option BoolFlag (ParseBool s)"
| "value_Set accepts (IntFlag _) s = map_option IntFlag (ParseInt s)"
| "value_Set accepts (StringFlag _) s = Some (StringFlag s)"
| "value_Set accepts (OtherFlag _) s = (if accepts s then Some (OtherFlag s) else None)"

text \<open>\<open>flag.Set\<close> returns an error or sets the flag; defining a flag panics when its name is taken, or
  was set before.\<close>

definition flag_Set ::
    "bool \<Rightarrow> (string \<Rightarrow> string \<Rightarrow> bool) \<Rightarrow> string \<Rightarrow> string \<Rightarrow> flag_set \<Rightarrow> bool \<times> flag_set" where
  "flag_Set remembers accepts n s f =
     (case map_of (fg_formal f) n of
        None \<Rightarrow> (False, if remembers then f\<lparr>fg_undef := n # fg_undef f\<rparr> else f)
      | Some v \<Rightarrow>
          (case value_Set (accepts n) v s of
             None \<Rightarrow> (False, f)
           | Some w \<Rightarrow> (True, f\<lparr>fg_formal := put_flag n w (fg_formal f)\<rparr>)))"

definition flag_Var :: "string \<times> flag_value \<Rightarrow> flag_set \<Rightarrow> flag_set outcome" where
  "flag_Var d f =
     (if map_of (fg_formal f) (fst d) \<noteq> None then Panic
      else if fst d \<in> set (fg_undef f) then Panic
      else Ret (f\<lparr>fg_formal := fg_formal f @ [d]\<rparr>))"

fun define_flags :: "flag_table \<Rightarrow> flag_set \<Rightarrow> flag_set outcome" where
  "define_flags [] f = Ret f"
| "define_flags (d # ds) f =
     (case flag_Var d f of Ret g \<Rightarrow> define_flags ds g | Err e \<Rightarrow> Err e | Panic \<Rightarrow> Panic)"

section \<open>Parsing\<close>

text \<open>One argument: no flag, so that parsing ends (the arguments that are left); a flag was set; help
  was asked for; or an error.\<close>

datatype parse_step = NoFlag "string list" | FlagSeen flag_table "string list" | HelpAsked | ParseFailed

definition cut_value :: "string \<Rightarrow> string \<times> string option" where
  "cut_value name =
     (case name of
        [] \<Rightarrow> ([], None)
      | c # t \<Rightarrow>
          (c # takeWhile (\<lambda>x. x \<noteq> CHR ''='') t,
           case dropWhile (\<lambda>x. x \<noteq> CHR ''='') t of [] \<Rightarrow> None | _ # v \<Rightarrow> Some v))"

definition set_parsed ::
    "(string \<Rightarrow> string \<Rightarrow> bool) \<Rightarrow> flag_table \<Rightarrow> string \<Rightarrow> flag_value \<Rightarrow> string \<Rightarrow> string list \<Rightarrow> parse_step" where
  "set_parsed accepts fm n v s rest =
     (case value_Set (accepts n) v s of
        None \<Rightarrow> ParseFailed
      | Some w \<Rightarrow> FlagSeen (put_flag n w fm) rest)"

definition parse_flag ::
    "(string \<Rightarrow> string \<Rightarrow> bool) \<Rightarrow> flag_table \<Rightarrow> string \<Rightarrow> string list \<Rightarrow> parse_step" where
  "parse_flag accepts fm name rest =
     (let (n, val) = cut_value name
      in case map_of fm n of
           None \<Rightarrow> if n = ''help'' \<or> n = ''h'' then HelpAsked else ParseFailed
         | Some v \<Rightarrow>
             (case v of
                BoolFlag _ \<Rightarrow> set_parsed accepts fm n v (case val of Some s \<Rightarrow> s | None \<Rightarrow> ''true'') rest
              | _ \<Rightarrow>
                  (case val of
                     Some s \<Rightarrow> set_parsed accepts fm n v s rest
                   | None \<Rightarrow> (case rest of
                                s # rest1 \<Rightarrow> set_parsed accepts fm n v s rest1
                              | [] \<Rightarrow> ParseFailed))))"

definition parseOne ::
    "(string \<Rightarrow> string \<Rightarrow> bool) \<Rightarrow> flag_table \<Rightarrow> string list \<Rightarrow> parse_step" where
  "parseOne accepts fm args =
     (case args of
        [] \<Rightarrow> NoFlag []
      | s # rest \<Rightarrow>
          if length s < 2 \<or> hd s \<noteq> CHR ''-'' then NoFlag args
          else if s = ''--'' then NoFlag rest
          else let name = (if s ! 1 = CHR ''-'' then drop 2 s else drop 1 s)
               in if name = [] \<or> hd name = CHR ''-'' \<or> hd name = CHR ''='' then ParseFailed
                  else parse_flag accepts fm name rest)"

lemma parse_flag_shorter: "parse_flag accepts fm name rest = FlagSeen fm' rest' \<Longrightarrow> length rest' \<le> length rest"
  by (auto simp: parse_flag_def set_parsed_def split: prod.splits option.splits flag_value.splits list.splits if_splits)

lemma parseOne_shorter: "parseOne accepts fm args = FlagSeen fm' args' \<Longrightarrow> length args' < length args"
  by (auto simp: parseOne_def Let_def dest: parse_flag_shorter split: list.splits if_splits)

text \<open>\<open>Parse\<close> with \<open>ExitOnError\<close>: it returns with the table, or ends the process: with code 0 after a
  request for help, with 2 after an error.\<close>

datatype parse_result = Parsed flag_table "string list" | ParseExit int

function flag_Parse :: "(string \<Rightarrow> string \<Rightarrow> bool) \<Rightarrow> flag_table \<Rightarrow> string list \<Rightarrow> parse_result" where
  "flag_Parse accepts fm args =
     (case parseOne accepts fm args of
        NoFlag rest \<Rightarrow> Parsed fm rest
      | FlagSeen fm' rest \<Rightarrow> flag_Parse accepts fm' rest
      | HelpAsked \<Rightarrow> ParseExit 0
      | ParseFailed \<Rightarrow> ParseExit 2)"
  by pat_completeness auto
termination
  by (relation "measure (\<lambda>(_, _, args). length args)") (auto dest: parseOne_shorter)

declare flag_Parse.simps [simp del]

section \<open>Arguments that set a table\<close>

fun flag_text :: "flag_value \<Rightarrow> string" where
  "flag_text (BoolFlag b) = (if b then ''true'' else ''false'')"
| "flag_text (IntFlag i) = dec_int i"
| "flag_text (StringFlag s) = s"
| "flag_text (OtherFlag s) = s"

definition flag_arg :: "string \<times> flag_value \<Rightarrow> string" where
  "flag_arg d = ''--'' @ fst d @ ''='' @ flag_text (snd d)"

definition good_name :: "string \<Rightarrow> bool" where
  "good_name n \<longleftrightarrow> n \<noteq> [] \<and> hd n \<noteq> CHR ''-'' \<and> CHR ''='' \<notin> set n"

text \<open>The flag can take the value: it has its type, and an integer has 64 bits.\<close>

fun takes :: "flag_value \<Rightarrow> flag_value \<Rightarrow> bool" where
  "takes (BoolFlag _) (BoolFlag _) = True"
| "takes (IntFlag _) (IntFlag i) = (- (2 ^ 63) \<le> i \<and> i < 2 ^ 63)"
| "takes (StringFlag _) (StringFlag _) = True"
| "takes _ _ = False"

lemma value_Set_text: "takes w v \<Longrightarrow> value_Set accepts w (flag_text v) = Some v"
  by (cases "(w, v)" rule: takes.cases) (simp_all add: ParseInt_dec, simp add: ParseBool_def)

lemma takeWhile_name:
  assumes "CHR ''='' \<notin> set t"
  shows "takeWhile (\<lambda>x. x \<noteq> CHR ''='') (t @ CHR ''='' # s) = t"
    and "dropWhile (\<lambda>x. x \<noteq> CHR ''='') (t @ CHR ''='' # s) = CHR ''='' # s"
  using assms by (induction t) auto

lemma cut_value_arg: "good_name n \<Longrightarrow> cut_value (n @ CHR ''='' # s) = (n, Some s)"
  by (cases n) (auto simp: good_name_def cut_value_def takeWhile_name)

lemma parse_arg:
  assumes "good_name n" and "map_of fm n = Some w" and "takes w v"
  shows "flag_Parse accepts fm (flag_arg (n, v) # rest) = flag_Parse accepts (put_flag n v fm) rest"
proof -
  have "set_parsed accepts fm n w (flag_text v) rest = FlagSeen (put_flag n v fm) rest"
    using value_Set_text [OF assms(3)] by (simp add: set_parsed_def)
  then have "parse_flag accepts fm (n @ CHR ''='' # flag_text v) rest = FlagSeen (put_flag n v fm) rest"
    using assms by (cases w) (simp_all add: parse_flag_def cut_value_arg)
  moreover have "hd (n @ x) = hd n" "n \<noteq> []" "hd n \<noteq> CHR ''-''" "hd n \<noteq> CHR ''=''" for x
    using assms(1) by (cases n; auto simp: good_name_def)+
  ultimately have "parseOne accepts fm (flag_arg (n, v) # rest) = FlagSeen (put_flag n v fm) rest"
    by (simp add: parseOne_def flag_arg_def Let_def)
  then show ?thesis by (subst flag_Parse.simps) simp
qed

lemma map_of_put_flag:
  "map_of (put_flag n v fm) k = (if k = n then map_option (\<lambda>_. v) (map_of fm k) else map_of fm k)"
  by (induction fm) (auto simp: put_flag_def)

definition put_flags :: "flag_table \<Rightarrow> flag_table \<Rightarrow> flag_table" where
  "put_flags ds fm = fold (\<lambda>d. put_flag (fst d) (snd d)) ds fm"

lemma takes_again: "takes w v \<Longrightarrow> takes v x = takes w x"
  by (cases "(w, v)" rule: takes.cases; cases x) auto

lemma parse_args:
  assumes "\<And>n v. (n, v) \<in> set ds \<Longrightarrow> good_name n \<and> (\<exists>w. map_of fm n = Some w \<and> takes w v)"
  shows "flag_Parse accepts fm (map flag_arg ds) = Parsed (put_flags ds fm) []"
  using assms
proof (induction ds arbitrary: fm)
  case Nil
  show ?case by (subst flag_Parse.simps) (simp add: parseOne_def put_flags_def)
next
  case (Cons d ds)
  obtain n v where d: "d = (n, v)" by fastforce
  with Cons.prems [of n v] obtain w where w: "good_name n" "map_of fm n = Some w" "takes w v" by auto
  have "flag_Parse accepts (put_flag n v fm) (map flag_arg ds) = Parsed (put_flags ds (put_flag n v fm)) []"
  proof (rule Cons.IH)
    fix m x assume "(m, x) \<in> set ds"
    then obtain u where "good_name m" "map_of fm m = Some u" "takes u x" using Cons.prems [of m x] by auto
    with w takes_again [OF w(3), of x] show "good_name m \<and> (\<exists>w. map_of (put_flag n v fm) m = Some w \<and> takes w x)"
      by (auto simp: map_of_put_flag)
  qed
  with d parse_arg [OF w] show ?case by (simp add: put_flags_def)
qed

lemma map_of_put_flags:
  assumes "distinct (map fst ds)" and "fst ` set ds \<subseteq> fst ` set fm"
  shows "map_of (put_flags ds fm) k = (case map_of ds k of Some v \<Rightarrow> Some v | None \<Rightarrow> map_of fm k)"
  using assms
proof (induction ds arbitrary: fm)
  case Nil
  show ?case by (simp add: put_flags_def)
next
  case (Cons d ds)
  obtain n v where d: "d = (n, v)" by fastforce
  have names: "fst ` set (put_flag n v fm) = fst ` set fm" by (force simp: put_flag_def)
  have "map_of (put_flags ds (put_flag n v fm)) k =
      (case map_of ds k of Some v \<Rightarrow> Some v | None \<Rightarrow> map_of (put_flag n v fm) k)"
    using Cons.prems names by (intro Cons.IH) auto
  moreover have "map_of fm n \<noteq> None" using Cons.prems(2) d by (simp add: map_of_eq_None_iff)
  moreover have "k = n \<Longrightarrow> map_of ds k = None" using Cons.prems(1) d by (simp add: map_of_eq_None_iff)
  ultimately show ?case using d by (auto simp: put_flags_def map_of_put_flag split: option.splits)
qed

end
