(* ===== verification/LS_Flags.thy ===== *)
theory LS_Flags
  imports LS_Main Go_Flag
begin

text \<open>
  How the four commands of \<^verbatim>\<open>cmd\<close> come to their flags: the package variables define them with
  their defaults, \<open>init\<close> sets one of the log library's, \<open>main\<close> adds that library's flags and parses the
  command line. The log library's flags are an argument (\<open>klog\<close>); other imported packages are taken to
  define none.
\<close>

section \<open>The tables\<close>

definition controller_table :: "controller_flags \<Rightarrow> flag_table" where
  "controller_table fl =
     [(''kubeconfig'', StringFlag (cm_kubeconfig fl)),
      (''kube-api-qps'', IntFlag (cm_kubeAPIQPS fl)),
      (''kube-api-burst'', IntFlag (cm_kubeAPIBurst fl)),
      (''host'', StringFlag (cm_host fl)),
      (''port'', IntFlag (cm_port fl)),
      (''cert-dir'', StringFlag (cm_certDir fl)),
      (''cert-name'', StringFlag (cm_certName fl)),
      (''key-name'', StringFlag (cm_keyName fl)),
      (''healthz-port'', IntFlag (cm_healthzPort fl)),
      (''leader-elect'', BoolFlag (cm_leaderElect fl)),
      (''leader-elect-retry-period'', IntFlag (cm_retryPeriod fl)),
      (''leader-elect-resource-lock'', StringFlag (cm_resourceLock fl)),
      (''leader-elect-resource-name'', StringFlag (cm_resourceName fl)),
      (''leader-elect-resource-namespace'', StringFlag (cm_resourceNamespace fl)),
      (''leader-elect-lease-duration'', IntFlag (cm_leaseDuration fl)),
      (''leader-elect-renew-deadline'', IntFlag (cm_renewDeadline fl))]"

definition plugin_table :: "plugin_flags \<Rightarrow> flag_table" where
  "plugin_table fl =
     [(''endpoint'', StringFlag (pf_endpoint fl)),
      (''drivername'', StringFlag (pf_driverName fl)),
      (''nodeid'', StringFlag (pf_nodeId fl)),
      (''volume-dir'', StringFlag (pf_volumeDir fl)),
      (''kubeconfig'', StringFlag (pf_kubeconfig fl)),
      (''kube-api-qps'', IntFlag (pf_kubeAPIQPS fl)),
      (''kube-api-burst'', IntFlag (pf_kubeAPIBurst fl)),
      (''enable-pprof'', BoolFlag (pf_enablePprof fl)),
      (''pprof-port'', StringFlag (pf_pprofPort fl))]"

definition extender_table :: "extender_flags \<Rightarrow> flag_table" where
  "extender_table fl =
     [(''kubeconfig'', StringFlag (ef_kubeconfig fl)), (''port'', IntFlag (ef_port fl))]"

record job_flags =
  jf_kubeconfig :: string
  jf_createLocalstorage :: bool

definition job_default_flags :: job_flags where
  "job_default_flags = \<lparr>jf_kubeconfig = [], jf_createLocalstorage = True\<rparr>"

definition job_table :: "job_flags \<Rightarrow> flag_table" where
  "job_table fl =
     [(''kubeconfig'', StringFlag (jf_kubeconfig fl)),
      (''create-localstorage'', BoolFlag (jf_createLocalstorage fl))]"

text \<open>What the variables of a command point to.\<close>

definition string_flag :: "flag_table \<Rightarrow> string \<Rightarrow> string" where
  "string_flag fm n = (case map_of fm n of Some (StringFlag s) \<Rightarrow> s | _ \<Rightarrow> [])"

definition int_flag :: "flag_table \<Rightarrow> string \<Rightarrow> int" where
  "int_flag fm n = (case map_of fm n of Some (IntFlag i) \<Rightarrow> i | _ \<Rightarrow> 0)"

definition bool_flag :: "flag_table \<Rightarrow> string \<Rightarrow> bool" where
  "bool_flag fm n = (case map_of fm n of Some (BoolFlag b) \<Rightarrow> b | _ \<Rightarrow> False)"

definition read_controller :: "flag_table \<Rightarrow> controller_flags" where
  "read_controller fm =
     \<lparr>cm_kubeconfig = string_flag fm ''kubeconfig'', cm_kubeAPIQPS = int_flag fm ''kube-api-qps'',
      cm_kubeAPIBurst = int_flag fm ''kube-api-burst'', cm_host = string_flag fm ''host'',
      cm_port = int_flag fm ''port'', cm_certDir = string_flag fm ''cert-dir'',
      cm_certName = string_flag fm ''cert-name'', cm_keyName = string_flag fm ''key-name'',
      cm_healthzPort = int_flag fm ''healthz-port'', cm_leaderElect = bool_flag fm ''leader-elect'',
      cm_retryPeriod = int_flag fm ''leader-elect-retry-period'',
      cm_resourceLock = string_flag fm ''leader-elect-resource-lock'',
      cm_resourceName = string_flag fm ''leader-elect-resource-name'',
      cm_resourceNamespace = string_flag fm ''leader-elect-resource-namespace'',
      cm_leaseDuration = int_flag fm ''leader-elect-lease-duration'',
      cm_renewDeadline = int_flag fm ''leader-elect-renew-deadline''\<rparr>"

definition read_plugin :: "flag_table \<Rightarrow> plugin_flags" where
  "read_plugin fm =
     \<lparr>pf_endpoint = string_flag fm ''endpoint'', pf_driverName = string_flag fm ''drivername'',
      pf_nodeId = string_flag fm ''nodeid'', pf_volumeDir = string_flag fm ''volume-dir'',
      pf_kubeconfig = string_flag fm ''kubeconfig'', pf_kubeAPIQPS = int_flag fm ''kube-api-qps'',
      pf_kubeAPIBurst = int_flag fm ''kube-api-burst'', pf_enablePprof = bool_flag fm ''enable-pprof'',
      pf_pprofPort = string_flag fm ''pprof-port''\<rparr>"

definition read_extender :: "flag_table \<Rightarrow> extender_flags" where
  "read_extender fm = \<lparr>ef_kubeconfig = string_flag fm ''kubeconfig'', ef_port = int_flag fm ''port''\<rparr>"

definition read_job :: "flag_table \<Rightarrow> job_flags" where
  "read_job fm =
     \<lparr>jf_kubeconfig = string_flag fm ''kubeconfig'', jf_createLocalstorage = bool_flag fm ''create-localstorage''\<rparr>"

section \<open>From the start of the process to parsed flags\<close>

text \<open>\<open>flag.Set("logtostderr", "true")\<close>, with its error thrown away.\<close>

definition flags_init :: "bool \<Rightarrow> (string \<Rightarrow> string \<Rightarrow> bool) \<Rightarrow> flag_set \<Rightarrow> flag_set" where
  "flags_init remembers accepts f = snd (flag_Set remembers accepts ''logtostderr'' ''true'' f)"

datatype 'r command = CommandPanics | CommandExits int | CommandRuns 'r

definition with_flags ::
    "(flag_set \<Rightarrow> flag_set) \<Rightarrow> (string \<Rightarrow> string \<Rightarrow> bool) \<Rightarrow> flag_table \<Rightarrow> flag_table \<Rightarrow> string list \<Rightarrow>
     (flag_table \<Rightarrow> 'r) \<Rightarrow> 'r command" where
  "with_flags init accepts klog table args run =
     (case define_flags table \<lparr>fg_formal = [], fg_undef = []\<rparr> of
        Ret f \<Rightarrow>
          (case define_flags klog (init f) of
             Ret g \<Rightarrow>
               (case flag_Parse accepts (fg_formal g) args of
                  Parsed fm rest \<Rightarrow> CommandRuns (run fm)
                | ParseExit code \<Rightarrow> CommandExits code)
           | _ \<Rightarrow> CommandPanics)
      | _ \<Rightarrow> CommandPanics)"

definition controller_command ::
    "bool \<Rightarrow> (string \<Rightarrow> string \<Rightarrow> bool) \<Rightarrow> flag_table \<Rightarrow> string list \<Rightarrow> main_library \<Rightarrow> main_result command" where
  "controller_command remembers accepts klog args B =
     with_flags (flags_init remembers accepts) accepts klog (controller_table controller_default_flags) args
       (\<lambda>fm. controller_main (read_controller fm) B)"

definition plugin_command ::
    "bool \<Rightarrow> (string \<Rightarrow> string \<Rightarrow> bool) \<Rightarrow> flag_table \<Rightarrow> string list \<Rightarrow> string \<Rightarrow> (string \<Rightarrow> gerror option) \<Rightarrow>
     gerror option \<Rightarrow> bool \<Rightarrow> plugin_result command" where
  "plugin_command remembers accepts klog args env_NODE_NAME config clients synced =
     with_flags (flags_init remembers accepts) accepts klog (plugin_table plugin_default_flags) args
       (\<lambda>fm. plugin_start (read_plugin fm) env_NODE_NAME config clients synced)"

definition extender_command ::
    "bool \<Rightarrow> (string \<Rightarrow> string \<Rightarrow> bool) \<Rightarrow> flag_table \<Rightarrow> string list \<Rightarrow> (string \<Rightarrow> gerror + 'c) \<Rightarrow>
     ('c \<Rightarrow> gerror + 'k) \<Rightarrow> bool \<Rightarrow> (string \<Rightarrow> gerror option) \<Rightarrow> extender_result command" where
  "extender_command remembers accepts klog args config clients synced listen =
     with_flags (flags_init remembers accepts) accepts klog (extender_table extender_default_flags) args
       (\<lambda>fm. extender_main config clients synced listen (ef_kubeconfig (read_extender fm)) (ef_port (read_extender fm)))"

text \<open>The job has no \<open>init\<close>.\<close>

definition job_command ::
    "(string \<Rightarrow> string \<Rightarrow> bool) \<Rightarrow> flag_table \<Rightarrow> string list \<Rightarrow> (string \<Rightarrow> gerror + 'c) \<Rightarrow>
     (string \<Rightarrow> gerror + node list) \<Rightarrow> ('q, 'a) services \<Rightarrow> 'a \<Rightarrow> (job_result \<times> 'a) command" where
  "job_command accepts klog args clients nodes S a =
     with_flags (\<lambda>f. f) accepts klog (job_table job_default_flags) args
       (\<lambda>fm. job_main (clients (jf_kubeconfig (read_job fm))) nodes S (jf_createLocalstorage (read_job fm)) a)"

section \<open>Defining flags\<close>

text \<open>The log library's flags have distinct names, which the command does not use.\<close>

definition separate :: "flag_table \<Rightarrow> flag_table \<Rightarrow> bool" where
  "separate table klog \<longleftrightarrow> distinct (map fst klog) \<and> fst ` set table \<inter> fst ` set klog = {}"

lemma define_flags_ok:
  assumes "distinct (map fst ds)" and "fst ` set (fg_formal f) \<inter> fst ` set ds = {}"
    and "set (fg_undef f) \<inter> fst ` set ds = {}"
  shows "define_flags ds f = Ret (f\<lparr>fg_formal := fg_formal f @ ds\<rparr>)"
  using assms
proof (induction ds arbitrary: f)
  case (Cons d ds)
  have "flag_Var d f = Ret (f\<lparr>fg_formal := fg_formal f @ [d]\<rparr>)"
    using Cons.prems(2,3) by (auto simp: flag_Var_def map_of_eq_None_iff)
  moreover have "define_flags ds (f\<lparr>fg_formal := fg_formal f @ [d]\<rparr>) =
      Ret (f\<lparr>fg_formal := fg_formal f @ d # ds\<rparr>)"
    using Cons.IH [of "f\<lparr>fg_formal := fg_formal f @ [d]\<rparr>"] Cons.prems by auto
  ultimately show ?case by simp
qed simp

lemma define_flags_undefined:
  assumes "n \<in> fst ` set ds" and "n \<in> set (fg_undef f)"
  shows "define_flags ds f = Panic"
  using assms
proof (induction ds arbitrary: f)
  case (Cons d ds)
  show ?case
  proof (cases "flag_Var d f")
    case (Ret g)
    then have "fst d \<noteq> n" and "fg_undef g = fg_undef f"
      using Cons.prems by (auto simp: flag_Var_def split: if_splits)
    with Cons Ret show ?thesis by auto
  qed (auto simp: flag_Var_def split: if_splits)
qed simp

lemma tables_distinct [simp]:
  "distinct (map fst (controller_table fl))" "distinct (map fst (plugin_table pl))"
  "distinct (map fst (extender_table ex))" "distinct (map fst (job_table jb))"
  by (simp_all add: controller_table_def plugin_table_def extender_table_def job_table_def)

lemma tables_names:
  "fst ` set (controller_table fl) = fst ` set (controller_table fl')"
  "fst ` set (plugin_table pl) = fst ` set (plugin_table pl')"
  "fst ` set (extender_table ex) = fst ` set (extender_table ex')"
  "fst ` set (job_table jb) = fst ` set (job_table jb')"
  by (simp_all add: controller_table_def plugin_table_def extender_table_def job_table_def)

text \<open>A name that is not defined yet: \<open>Set\<close> does nothing, or is remembered.\<close>

lemma flags_init_undefined:
  assumes "''logtostderr'' \<notin> fst ` set (fg_formal f)"
  shows "flags_init remembers accepts f = (if remembers then f\<lparr>fg_undef := ''logtostderr'' # fg_undef f\<rparr> else f)"
  using assms by (simp add: flags_init_def flag_Set_def map_of_eq_None_iff [symmetric])

end
