(* ===== verification/Prop_Flags.thy ===== *)
theory Prop_Flags
  imports LS_Flags
begin

text \<open>
  The command lines of the four commands: writing flags as arguments and parsing them gives the flags
  back, and what the \<open>init\<close> functions do with the log library's flag.
\<close>

section \<open>Arguments and flags\<close>

definition all_fit :: "flag_table \<Rightarrow> bool" where
  "all_fit ds \<longleftrightarrow> list_all (\<lambda>d. takes (snd d) (snd d)) ds"

text \<open>The flags of one command override its defaults name by name, with values of the same types.\<close>

definition overrides :: "flag_table \<Rightarrow> flag_table \<Rightarrow> bool" where
  "overrides ds table \<longleftrightarrow>
     distinct (map fst table) \<and> list_all2 (\<lambda>d t. fst d = fst t \<and> good_name (fst d) \<and> takes (snd t) (snd d)) ds table"

lemma overrides_names: "overrides ds table \<Longrightarrow> map fst ds = map fst table"
  by (auto simp: overrides_def list_all2_conv_all_nth intro: nth_equalityI)

lemma overrides_member:
  assumes o: "overrides ds table" and d: "(n, v) \<in> set ds"
  shows "good_name n \<and> (\<exists>w. map_of (table @ klog) n = Some w \<and> takes w v)"
proof -
  obtain i where i: "i < length ds" "ds ! i = (n, v)" using d by (auto simp: in_set_conv_nth)
  with o obtain w where w: "i < length table" "table ! i = (n, w)" "good_name n" "takes w v"
    by (cases "table ! i") (auto simp: overrides_def list_all2_conv_all_nth)
  then have "(n, w) \<in> set table" by (metis nth_mem)
  with o have "map_of table n = Some w" by (simp add: overrides_def map_of_is_SomeI)
  with w show ?thesis by (auto simp: map_add_def)
qed

lemma with_flags_args:
  assumes s: "separate table klog" and o: "overrides ds table"
    and i: "init \<lparr>fg_formal = table, fg_undef = []\<rparr> = \<lparr>fg_formal = table, fg_undef = []\<rparr>"
  shows "with_flags init accepts klog table (map flag_arg ds) run = CommandRuns (run (put_flags ds (table @ klog)))"
proof -
  have "distinct (map fst table)" using o by (simp add: overrides_def)
  then have 1: "define_flags table \<lparr>fg_formal = [], fg_undef = []\<rparr> = Ret \<lparr>fg_formal = table, fg_undef = []\<rparr>"
    using define_flags_ok [of table "\<lparr>fg_formal = [], fg_undef = []\<rparr>"] by simp
  have 2: "define_flags klog \<lparr>fg_formal = table, fg_undef = []\<rparr> = Ret \<lparr>fg_formal = table @ klog, fg_undef = []\<rparr>"
    using define_flags_ok [of klog "\<lparr>fg_formal = table, fg_undef = []\<rparr>"] s by (simp add: separate_def)
  have "flag_Parse accepts (table @ klog) (map flag_arg ds) = Parsed (put_flags ds (table @ klog)) []"
    using overrides_member [OF o] by (rule parse_args)
  with 1 2 i show ?thesis by (simp add: with_flags_def)
qed

lemma override_value:
  assumes "overrides ds table"
  shows "map_of (put_flags ds (table @ klog)) k = (case map_of ds k of Some v \<Rightarrow> Some v | None \<Rightarrow> map_of (table @ klog) k)"
proof (rule map_of_put_flags)
  show "distinct (map fst ds)" using assms overrides_names [OF assms] by (simp add: overrides_def)
  show "fst ` set ds \<subseteq> fst ` set (table @ klog)"
    using arg_cong [OF overrides_names [OF assms], of set] by auto
qed

lemma tables_override:
  "all_fit (controller_table fl) \<Longrightarrow> overrides (controller_table fl) (controller_table controller_default_flags)"
  "all_fit (plugin_table pl) \<Longrightarrow> overrides (plugin_table pl) (plugin_table plugin_default_flags)"
  "all_fit (extender_table ex) \<Longrightarrow> overrides (extender_table ex) (extender_table extender_default_flags)"
  "all_fit (job_table jb) \<Longrightarrow> overrides (job_table jb) (job_table job_default_flags)"
  by (simp_all add: overrides_def all_fit_def)
    (simp_all add: controller_table_def plugin_table_def extender_table_def job_table_def good_name_def)

lemma read_back:
  "all_fit (controller_table fl) \<Longrightarrow>
     read_controller (put_flags (controller_table fl) (controller_table controller_default_flags @ klog)) = fl"
  "all_fit (plugin_table pl) \<Longrightarrow>
     read_plugin (put_flags (plugin_table pl) (plugin_table plugin_default_flags @ klog)) = pl"
  "all_fit (extender_table ex) \<Longrightarrow>
     read_extender (put_flags (extender_table ex) (extender_table extender_default_flags @ klog)) = ex"
  "all_fit (job_table jb) \<Longrightarrow>
     read_job (put_flags (job_table jb) (job_table job_default_flags @ klog)) = jb"
  by (simp_all add: read_controller_def read_plugin_def read_extender_def read_job_def string_flag_def int_flag_def
      bool_flag_def override_value [OF tables_override(1)] override_value [OF tables_override(2)]
      override_value [OF tables_override(3)] override_value [OF tables_override(4)])
    (simp_all add: controller_table_def plugin_table_def extender_table_def job_table_def)

lemma init_no_effect:
  "''logtostderr'' \<notin> fst ` set table \<Longrightarrow>
     flags_init False accepts \<lparr>fg_formal = table, fg_undef = []\<rparr> = \<lparr>fg_formal = table, fg_undef = []\<rparr>"
  by (simp add: flags_init_undefined)

lemma no_logtostderr:
  "''logtostderr'' \<notin> fst ` set (controller_table fl)" "''logtostderr'' \<notin> fst ` set (plugin_table pl)"
  "''logtostderr'' \<notin> fst ` set (extender_table ex)"
  by (simp_all add: controller_table_def plugin_table_def extender_table_def)

text \<open>
  C29. The command line of every command carries its flags: written as \<open>--name=value\<close> arguments and
  parsed again, any flags whose integers have 64 bits are the flags the command runs with, whatever
  flags of its own the log library adds under other names (with a release of Go that forgets a \<open>Set\<close>
  of an undefined flag).
\<close>

theorem arguments_give_flags:
  assumes "separate (controller_table controller_default_flags) klog" "all_fit (controller_table fl)"
    and "separate (plugin_table plugin_default_flags) klog" "all_fit (plugin_table pl)"
    and "separate (extender_table extender_default_flags) klog" "all_fit (extender_table ex)"
    and "separate (job_table job_default_flags) klog" "all_fit (job_table jb)"
  shows "controller_command False accepts klog (map flag_arg (controller_table fl)) B =
      CommandRuns (controller_main fl B) \<and>
    plugin_command False accepts klog (map flag_arg (plugin_table pl)) env config clients synced =
      CommandRuns (plugin_start pl env config clients synced) \<and>
    extender_command False accepts klog (map flag_arg (extender_table ex)) kconfig kclients ksynced listen =
      CommandRuns (extender_main kconfig kclients ksynced listen (ef_kubeconfig ex) (ef_port ex)) \<and>
    job_command accepts klog (map flag_arg (job_table jb)) jclients nodes S a =
      CommandRuns (job_main (jclients (jf_kubeconfig jb)) nodes S (jf_createLocalstorage jb) a)"
  using assms
  by (simp add: controller_command_def plugin_command_def extender_command_def job_command_def
      with_flags_args [OF _ tables_override(1)] with_flags_args [OF _ tables_override(2)]
      with_flags_args [OF _ tables_override(3)] with_flags_args [OF _ tables_override(4)]
      init_no_effect no_logtostderr read_back)

definition sample_klog :: flag_table where
  "sample_klog = [(''logtostderr'', BoolFlag True), (''v'', OtherFlag ''0'')]"

lemma sample_separate:
  "separate (controller_table fl) sample_klog" "separate (plugin_table pl) sample_klog"
  "separate (extender_table ex) sample_klog" "separate (job_table jb) sample_klog"
  by (simp_all add: separate_def sample_klog_def controller_table_def plugin_table_def extender_table_def
      job_table_def)

lemma sample_fit:
  "all_fit (controller_table controller_default_flags)" "all_fit (plugin_table plugin_default_flags)"
  "all_fit (extender_table \<lparr>ef_kubeconfig = ''/root/.kube/config'', ef_port = 9000\<rparr>)"
  "all_fit (job_table job_default_flags)"
  by (simp_all add: all_fit_def controller_table_def plugin_table_def extender_table_def job_table_def
      controller_default_flags_def plugin_default_flags_def LeaseDuration_def RenewDeadline_def RetryPeriod_def)

lemma arguments_give_flags_witness:
  "extender_command False (\<lambda>_ _. True) sample_klog [''--kubeconfig=/root/.kube/config'', ''--port=9000'']
     (\<lambda>c. Inr c) (\<lambda>c. Inr c) True (\<lambda>_. None) = CommandRuns (ExtenderServing '':9000'')"
proof -
  have port: "dec_int 9000 = ''9000''"
  proof -
    have "char_of (57 :: nat) = CHR ''9''" "char_of (48 :: nat) = CHR ''0''" by code_simp+
    then show ?thesis by (simp add: dec_int_def dec_digits.simps)
  qed
  have args: "map flag_arg (extender_table \<lparr>ef_kubeconfig = ''/root/.kube/config'', ef_port = 9000\<rparr>) =
      [''--kubeconfig=/root/.kube/config'', ''--port=9000'']"
    by (simp add: flag_arg_def extender_table_def port)
  have "extender_main (\<lambda>c. Inr c) (\<lambda>c. Inr c) True (\<lambda>_. None) ''/root/.kube/config'' 9000 = ExtenderServing '':9000''"
    by (simp add: extender_main_def scheduler_Run_def port)
  moreover have "extender_command False (\<lambda>_ _. True) sample_klog
      (map flag_arg (extender_table \<lparr>ef_kubeconfig = ''/root/.kube/config'', ef_port = 9000\<rparr>))
      (\<lambda>c. Inr c) (\<lambda>c. Inr c) True (\<lambda>_. None) =
      CommandRuns (extender_main (\<lambda>c. Inr c) (\<lambda>c. Inr c) True (\<lambda>_. None)
        (ef_kubeconfig \<lparr>ef_kubeconfig = ''/root/.kube/config'', ef_port = 9000\<rparr>)
        (ef_port \<lparr>ef_kubeconfig = ''/root/.kube/config'', ef_port = 9000\<rparr>))"
    by (rule conjunct1 [OF conjunct2 [OF conjunct2 [OF arguments_give_flags [OF sample_separate(1) sample_fit(1)
        sample_separate(2) sample_fit(2) sample_separate(3) sample_fit(3) sample_separate(4) sample_fit(4)]]]])
  ultimately show ?thesis by (simp only: args extender_flags.simps)
qed

text \<open>
  C30. The \<open>init\<close> functions set a flag that does not exist yet: \<open>logtostderr\<close> is defined by
  \<open>klog.InitFlags\<close>, which \<open>main\<close> calls later. With a release of Go before 1.21 the call does nothing;
  with a later one, as the module file asks for, controller, plugin and extender panic when \<open>main\<close>
  starts, whatever the command line says.
\<close>

theorem init_sets_undefined_flag:
  assumes klog: "''logtostderr'' \<in> fst ` set klog"
  shows "controller_command True accepts klog args B = CommandPanics \<and>
    plugin_command True accepts klog args env config clients synced = CommandPanics \<and>
    extender_command True accepts klog args kconfig kclients ksynced listen = CommandPanics \<and>
    controller_command False accepts klog args B =
      with_flags (\<lambda>f. f) accepts klog (controller_table controller_default_flags) args
        (\<lambda>fm. controller_main (read_controller fm) B)"
proof -
  have defs: "define_flags t \<lparr>fg_formal = [], fg_undef = []\<rparr> = Ret \<lparr>fg_formal = t, fg_undef = []\<rparr>"
    if "distinct (map fst t)" for t
    using define_flags_ok [of t "\<lparr>fg_formal = [], fg_undef = []\<rparr>"] that by simp
  have panics: "define_flags klog (flags_init True accepts \<lparr>fg_formal = t, fg_undef = []\<rparr>) = Panic"
    if "''logtostderr'' \<notin> fst ` set t" for t
    by (rule define_flags_undefined [OF klog]) (use that in \<open>simp add: flags_init_undefined\<close>)
  show ?thesis
    by (simp add: controller_command_def plugin_command_def extender_command_def with_flags_def defs panics
        no_logtostderr init_no_effect)
qed

lemma init_sets_undefined_flag_witness:
  "extender_command True (\<lambda>_ _. True) sample_klog [''--port=9000''] (\<lambda>c. Inr c) (\<lambda>c. Inr c) True (\<lambda>_. None) =
     CommandPanics"
proof -
  have "''logtostderr'' \<in> fst ` set sample_klog" by (simp add: sample_klog_def)
  from init_sets_undefined_flag [OF this] show ?thesis by blast
qed

end
