(* ===== verification/LS_Fake.thy ===== *)
theory LS_Fake
  imports LS_Client
begin

text \<open>
  The client set for tests of \<^verbatim>\<open>pkg/client/clientset/versioned/fake\<close>, and the schemes the clients
  and the program register their types in. The object tracker, the reactor chain and the scheme
  itself are code outside the repository. The fake client makes of each call the action that
  corresponds to the request of the real one (\<open>fake_agrees\<close>), except that it lists by labels on
  its own and knows no timeouts.
\<close>

section \<open>Actions\<close>

type_synonym group_version_resource = "string \<times> string \<times> string"

definition localstoragesResource :: group_version_resource where
  "localstoragesResource = (''storage.caoyingjunz.io'', ''v1'', ''localstorages'')"
definition localstoragesKind :: "string \<times> string \<times> string" where
  "localstoragesKind = (''storage.caoyingjunz.io'', ''v1'', ''LocalStorage'')"

text \<open>What the constructors \<open>testing.NewRoot...Action\<close> record of their arguments.\<close>

datatype ('q, 'o) action =
    RootGet group_version_resource string
  | RootList group_version_resource "string \<times> string \<times> string" "'o list_options"
  | RootWatch group_version_resource "'o list_options"
  | RootCreate group_version_resource "'q LocalStorage"
  | RootUpdate group_version_resource "'q LocalStorage"
  | RootUpdateSubresource group_version_resource string "'q LocalStorage"
  | RootDelete group_version_resource string 'o
  | RootDeleteCollection group_version_resource "'o list_options"
  | RootPatch group_version_resource string string string "string list"

text \<open>A \<open>runtime.Object\<close>: a localstorage, a list of them with its metadata, or something else.\<close>

datatype 'q runtime_object = LsRuntime "'q LocalStorage" | LsListRuntime string "'q LocalStorage list" | OtherRuntime

definition zero_LocalStorage :: "'q LocalStorage" where
  "zero_LocalStorage =
     \<lparr>ls_Kind = [], ls_APIVersion = [],
      ls_Meta = \<lparr>om_Name = [], om_ResourceVersion = [], om_Annotations = Map.empty, om_Finalizers = [],
                 om_DeletionTimestamp = None\<rparr>,
      ls_Spec = \<lparr>sp_Node = [], sp_Path = None, sp_Lvm = None\<rparr>,
      ls_Status = \<lparr>st_Phase = [], st_Allocatable = None, st_Capacity = None, st_Volumes = [],
                   st_Mode = [], st_Conditions = []\<rparr>\<rparr>"

text \<open>
  \<open>fk_Invokes\<close> and \<open>fk_InvokesWatch\<close> run the reactors, with the object to return when none
  answers; \<open>fk_Label\<close> is the label selector \<open>ExtractFromListOptions\<close> finds, as a test of
  objects.
\<close>

record ('q, 'o, 'w, 'a) fake =
  fk_Invokes :: "('q, 'o) action \<Rightarrow> 'q runtime_object \<Rightarrow> 'a \<Rightarrow> ('q runtime_object option \<times> gerror option) \<times> 'a"
  fk_InvokesWatch :: "('q, 'o) action \<Rightarrow> 'a \<Rightarrow> ('w option \<times> gerror option) \<times> 'a"
  fk_Label :: "'o list_options \<Rightarrow> ('q LocalStorage \<Rightarrow> bool) option"

section \<open>The methods\<close>

text \<open>\<open>obj.(*LocalStorage)\<close> panics on another type; a nil object is returned as nil.\<close>

definition as_LocalStorage ::
    "'q runtime_object option \<times> gerror option \<Rightarrow> ('q LocalStorage option \<times> gerror option) outcome" where
  "as_LocalStorage r =
     (case r of
        (None, err) \<Rightarrow> Ret (None, err)
      | (Some (LsRuntime l), err) \<Rightarrow> Ret (Some l, err)
      | (Some _, err) \<Rightarrow> Panic)"

definition fake_object ::
    "('q, 'o, 'w, 'a) fake \<Rightarrow> ('q, 'o) action \<Rightarrow> 'a \<Rightarrow>
     ('q LocalStorage option \<times> gerror option) outcome \<times> 'a" where
  "fake_object F act a =
     (case fk_Invokes F act (LsRuntime zero_LocalStorage) a of (r, a') \<Rightarrow> (as_LocalStorage r, a'))"

definition fake_Get where
  "fake_Get F name options = fake_object F (RootGet localstoragesResource name)"
definition fake_Create where
  "fake_Create F l opts = fake_object F (RootCreate localstoragesResource l)"
definition fake_Update where
  "fake_Update F l opts = fake_object F (RootUpdate localstoragesResource l)"
definition fake_UpdateStatus where
  "fake_UpdateStatus F l opts = fake_object F (RootUpdateSubresource localstoragesResource ''status'' l)"
definition fake_Patch where
  "fake_Patch F name pt data opts subresources =
     fake_object F (RootPatch localstoragesResource name pt data subresources)"

definition fake_List ::
    "('q, 'o, 'w, 'a) fake \<Rightarrow> 'o list_options \<Rightarrow> 'a \<Rightarrow>
     ((string \<times> 'q LocalStorage list) option \<times> gerror option) outcome \<times> 'a" where
  "fake_List F opts a =
     (case fk_Invokes F (RootList localstoragesResource localstoragesKind opts) (LsListRuntime [] []) a of
        ((None, err), a') \<Rightarrow> (Ret (None, err), a')
      | ((Some (LsListRuntime meta items), err), a') \<Rightarrow>
          (let label = (case fk_Label F opts of None \<Rightarrow> (\<lambda>_. True) | Some m \<Rightarrow> m)
           in (Ret (Some (meta, fold (\<lambda>item list. if label item then list @ [item] else list) items []), err), a'))
      | ((Some _, err), a') \<Rightarrow> (Panic, a'))"

definition fake_Watch where
  "fake_Watch F opts = fk_InvokesWatch F (RootWatch localstoragesResource opts)"

definition fake_Delete ::
    "('q, 'o, 'w, 'a) fake \<Rightarrow> string \<Rightarrow> 'o \<Rightarrow> 'a \<Rightarrow> gerror option \<times> 'a" where
  "fake_Delete F name opts a =
     (case fk_Invokes F (RootDelete localstoragesResource name opts) (LsRuntime zero_LocalStorage) a of
        ((_, err), a') \<Rightarrow> (err, a'))"

definition fake_DeleteCollection ::
    "('q, 'o, 'w, 'a) fake \<Rightarrow> 'o \<Rightarrow> 'o list_options \<Rightarrow> 'a \<Rightarrow> gerror option \<times> 'a" where
  "fake_DeleteCollection F opts listOpts a =
     (case fk_Invokes F (RootDeleteCollection localstoragesResource listOpts) (LsListRuntime [] []) a of
        ((_, err), a') \<Rightarrow> (err, a'))"

section \<open>The client set\<close>

text \<open>The tracker: \<open>tk_Add\<close> stores an object, \<open>tk_Watch\<close> starts a watch on a resource.\<close>

record ('x, 't, 'w) tracker_library =
  tk_New :: 't
  tk_Add :: "'x \<Rightarrow> 't \<Rightarrow> gerror option \<times> 't"
  tk_Watch :: "group_version_resource \<Rightarrow> string \<Rightarrow> 't \<Rightarrow> gerror + 'w"

text \<open>The reactors are kept by the verb and resource they match, which are wildcards.\<close>

record 't fake_clientset =
  fc_tracker :: 't
  fc_reactors :: "(string \<times> string) list"
  fc_watch_reactors :: "string list"

fun add_objects :: "('x, 't, 'w) tracker_library \<Rightarrow> 'x list \<Rightarrow> 't \<Rightarrow> 't outcome" where
  "add_objects L [] t = Ret t"
| "add_objects L (x # xs) t =
     (case tk_Add L x t of (Some err, t') \<Rightarrow> Panic | (None, t') \<Rightarrow> add_objects L xs t')"

definition NewSimpleClientset ::
    "('x, 't, 'w) tracker_library \<Rightarrow> 'x list \<Rightarrow> 't fake_clientset outcome" where
  "NewSimpleClientset L objects =
     (case add_objects L objects (tk_New L) of
        Ret t \<Rightarrow> Ret \<lparr>fc_tracker = t, fc_reactors = [(''*'', ''*'')], fc_watch_reactors = [''*'']\<rparr>
      | Err e \<Rightarrow> Err e
      | Panic \<Rightarrow> Panic)"

definition watch_reactor ::
    "('x, 't, 'w) tracker_library \<Rightarrow> group_version_resource \<Rightarrow> string \<Rightarrow> 't \<Rightarrow> bool \<times> 'w option \<times> gerror option" where
  "watch_reactor L gvr ns t =
     (case tk_Watch L gvr ns t of Inl err \<Rightarrow> (False, None, Some err) | Inr w \<Rightarrow> (True, Some w, None))"

text \<open>The accessors pass the fake on; \<open>RESTClient\<close> is a nil client.\<close>

definition fake_Tracker :: "'t fake_clientset \<Rightarrow> 't" where
  "fake_Tracker c = fc_tracker c"

record 'f FakeStorageV1 =
  fs1_Fake :: 'f

definition fake_StorageV1 :: "'t fake_clientset \<Rightarrow> 't fake_clientset FakeStorageV1" where
  "fake_StorageV1 c = \<lparr>fs1_Fake = c\<rparr>"

definition fake_LocalStorages :: "'f FakeStorageV1 \<Rightarrow> 'f" where
  "fake_LocalStorages c = fs1_Fake c"

definition fake_RESTClient :: "'f FakeStorageV1 \<Rightarrow> 'r option" where
  "fake_RESTClient c = None"

section \<open>Schemes\<close>

text \<open>
  \<open>run\<close> is \<open>SchemeBuilder.AddToScheme\<close> of the library, which calls the functions of a builder.
  The schemes of the two client sets and the one of \<^verbatim>\<open>pkg/runtime\<close> are filled when the program
  starts, and \<open>utilruntime.Must\<close> panics on an error.
\<close>

type_synonym 's scheme_function = "'s \<Rightarrow> gerror option \<times> 's"

definition localstorage_AddToScheme ::
    "('s scheme_function list \<Rightarrow> 's scheme_function) \<Rightarrow> (group_version \<Rightarrow> string list \<Rightarrow> 's \<Rightarrow> 's) \<Rightarrow>
     (group_version \<Rightarrow> 's \<Rightarrow> 's) \<Rightarrow> 's scheme_function" where
  "localstorage_AddToScheme run known versioned = run [addKnownTypes known versioned]"

definition clientset_AddToScheme ::
    "('s scheme_function list \<Rightarrow> 's scheme_function) \<Rightarrow> (group_version \<Rightarrow> string list \<Rightarrow> 's \<Rightarrow> 's) \<Rightarrow>
     (group_version \<Rightarrow> 's \<Rightarrow> 's) \<Rightarrow> 's scheme_function" where
  "clientset_AddToScheme run known versioned = run [localstorage_AddToScheme run known versioned]"

definition Must :: "gerror option \<times> 's \<Rightarrow> 's outcome" where
  "Must r = (case r of (None, s) \<Rightarrow> Ret s | (Some err, s) \<Rightarrow> Panic)"

definition clientset_scheme_init ::
    "('s scheme_function list \<Rightarrow> 's scheme_function) \<Rightarrow> (group_version \<Rightarrow> string list \<Rightarrow> 's \<Rightarrow> 's) \<Rightarrow>
     (group_version \<Rightarrow> 's \<Rightarrow> 's) \<Rightarrow> 's \<Rightarrow> 's outcome" where
  "clientset_scheme_init run known versioned s =
     Must (clientset_AddToScheme run known versioned (versioned \<lparr>gv_Group = [], gv_Version = ''v1''\<rparr> s))"

definition fake_scheme_init ::
    "('s scheme_function list \<Rightarrow> 's scheme_function) \<Rightarrow> (group_version \<Rightarrow> string list \<Rightarrow> 's \<Rightarrow> 's) \<Rightarrow>
     (group_version \<Rightarrow> 's \<Rightarrow> 's) \<Rightarrow> 's \<Rightarrow> 's outcome" where
  "fake_scheme_init run known versioned s =
     Must (clientset_AddToScheme run known versioned (versioned \<lparr>gv_Group = [], gv_Version = ''v1''\<rparr> s))"

definition runtime_init ::
    "'s scheme_function \<Rightarrow> ('s scheme_function list \<Rightarrow> 's scheme_function) \<Rightarrow>
     (group_version \<Rightarrow> string list \<Rightarrow> 's \<Rightarrow> 's) \<Rightarrow> (group_version \<Rightarrow> 's \<Rightarrow> 's) \<Rightarrow> 's \<Rightarrow> 's outcome" where
  "runtime_init clientgo run known versioned s =
     (case Must (clientgo s) of
        Ret s1 \<Rightarrow> Must (localstorage_AddToScheme run known versioned s1)
      | Err e \<Rightarrow> Err e
      | Panic \<Rightarrow> Panic)"

section \<open>What they do\<close>

lemma fold_filter: "fold (\<lambda>x ys. if P x then ys @ [x] else ys) xs acc = acc @ filter P xs"
  by (induction xs arbitrary: acc) auto

text \<open>A builder calls its functions in order, up to the first error.\<close>

definition builder_law :: "('s scheme_function list \<Rightarrow> 's scheme_function) \<Rightarrow> bool" where
  "builder_law run \<longleftrightarrow>
     (\<forall>s. run [] s = (None, s)) \<and>
     (\<forall>f fs s. run (f # fs) s = (case f s of (Some e, s') \<Rightarrow> (Some e, s') | (None, s') \<Rightarrow> run fs s'))"

lemma AddToScheme_runs:
  assumes "builder_law run"
  shows "localstorage_AddToScheme run known versioned s = addKnownTypes known versioned s"
    and "clientset_AddToScheme run known versioned s = addKnownTypes known versioned s"
proof -
  show l: "localstorage_AddToScheme run known versioned s = addKnownTypes known versioned s" for s
    using assms by (simp add: builder_law_def localstorage_AddToScheme_def addKnownTypes_def)
  show "clientset_AddToScheme run known versioned s = addKnownTypes known versioned s"
    using assms l by (simp add: builder_law_def clientset_AddToScheme_def addKnownTypes_def)
qed

text \<open>Starting never panics, and the object and its list are known to every scheme.\<close>

theorem schemes_know_types:
  assumes "builder_law run" and "clientgo s = (None, s1)"
  shows "runtime_init clientgo run known versioned s =
      Ret (versioned SchemeGroupVersion (known SchemeGroupVersion [''LocalStorage'', ''LocalStorageList''] s1))"
    and "\<exists>s2. clientset_scheme_init run known versioned s =
      Ret (versioned SchemeGroupVersion (known SchemeGroupVersion [''LocalStorage'', ''LocalStorageList''] s2))"
    and "fake_scheme_init run known versioned s = clientset_scheme_init run known versioned s"
  using assms
  by (auto simp: runtime_init_def clientset_scheme_init_def fake_scheme_init_def AddToScheme_runs addKnownTypes_def Must_def)

text \<open>The action that corresponds to a request for one object.\<close>

definition action_of :: "('q, 'o) request \<Rightarrow> ('q, 'o) action option" where
  "action_of rq =
     (case (rq_Verb rq, rq_Name rq, rq_Body rq) of
        (GET, Some n, NoBody) \<Rightarrow> Some (RootGet localstoragesResource n)
      | (POST, None, ObjectBody l) \<Rightarrow> Some (RootCreate localstoragesResource l)
      | (PUT, Some n, ObjectBody l) \<Rightarrow>
          Some (case rq_SubResource rq of
                  [] \<Rightarrow> RootUpdate localstoragesResource l
                | sub # _ \<Rightarrow> RootUpdateSubresource localstoragesResource sub l)
      | (PATCH pt, Some n, DataBody d) \<Rightarrow> Some (RootPatch localstoragesResource n pt d (rq_SubResource rq))
      | _ \<Rightarrow> None)"

definition fake_answer ::
    "(gerror + 'q LocalStorage) \<times> 'a \<Rightarrow> ('q LocalStorage option \<times> gerror option) outcome \<times> 'a" where
  "fake_answer r = (case r of (Inl e, a) \<Rightarrow> (Ret (None, Some e), a) | (Inr l, a) \<Rightarrow> (Ret (Some l, None), a))"

definition simulates :: "('q, 'o, 'w, 'a) fake \<Rightarrow> ('q, 'o, 'a) rest \<Rightarrow> bool" where
  "simulates F R \<longleftrightarrow>
     (\<forall>rq act d a. action_of rq = Some act \<longrightarrow> fk_Invokes F act d a =
        (case rs_Object R rq a of
           (Inl e, a') \<Rightarrow> ((None, Some e), a') | (Inr l, a') \<Rightarrow> ((Some (LsRuntime l), None), a')))"

lemma simulates_object:
  assumes "simulates F R" and "action_of rq = Some act"
  shows "fake_object F act a = fake_answer (rs_Object R rq a)"
  using assms
  by (auto simp: simulates_def fake_object_def as_LocalStorage_def fake_answer_def split: prod.split sum.split)

text \<open>
  Where the reactors answer actions as a server answers the requests, the fake client gives the
  answers of the real one (with nil for the object beside an error).
\<close>

theorem fake_agrees:
  assumes "simulates F R"
  shows "fake_Get F name opts a = fake_answer (client_Get R name opts a)"
    and "fake_Create F l opts a = fake_answer (client_Create R l opts a)"
    and "fake_Update F l opts a = fake_answer (client_Update R l opts a)"
    and "fake_UpdateStatus F l opts a = fake_answer (client_UpdateStatus R l opts a)"
    and "fake_Patch F name pt data opts subs a = fake_answer (client_Patch R name pt data opts subs a)"
proof -
  show "fake_Get F name opts a = fake_answer (client_Get R name opts a)"
    unfolding fake_Get_def client_Get_def
    by (rule simulates_object [OF assms]) (simp add: action_of_def request_defs)
  show "fake_Create F l opts a = fake_answer (client_Create R l opts a)"
    unfolding fake_Create_def client_Create_def
    by (rule simulates_object [OF assms]) (simp add: action_of_def request_defs)
  show "fake_Update F l opts a = fake_answer (client_Update R l opts a)"
    unfolding fake_Update_def client_Update_def
    by (rule simulates_object [OF assms]) (simp add: action_of_def request_defs)
  show "fake_UpdateStatus F l opts a = fake_answer (client_UpdateStatus R l opts a)"
    unfolding fake_UpdateStatus_def client_UpdateStatus_def
    by (rule simulates_object [OF assms]) (simp add: action_of_def request_defs)
  show "fake_Patch F name pt data opts subs a = fake_answer (client_Patch R name pt data opts subs a)"
    unfolding fake_Patch_def client_Patch_def
    by (rule simulates_object [OF assms]) (simp add: action_of_def request_defs)
qed

text \<open>The fake list keeps the items the label selector matches, in their order.\<close>

lemma fake_List_filters:
  assumes "fk_Invokes F (RootList localstoragesResource localstoragesKind opts) (LsListRuntime [] []) a =
    ((Some (LsListRuntime meta items), err), a')"
  shows "fake_List F opts a =
    (Ret (Some (meta, filter (case fk_Label F opts of None \<Rightarrow> (\<lambda>_. True) | Some m \<Rightarrow> m) items), err), a')"
  using assms by (simp add: fake_List_def fold_filter)

lemma add_objects_panics:
  "add_objects L xs t = Panic \<longleftrightarrow>
     (\<exists>ys x zs t'. xs = ys @ x # zs \<and> add_objects L ys t = Ret t' \<and> fst (tk_Add L x t') \<noteq> None)"
proof (induction xs arbitrary: t)
  case Nil
  then show ?case by simp
next
  case (Cons x xs)
  show ?case
  proof (cases "tk_Add L x t")
    case (Pair e t1)
    show ?thesis
    proof (cases e)
      case None
      have "(\<exists>ys y zs t'. x # xs = ys @ y # zs \<and> add_objects L ys t = Ret t' \<and> fst (tk_Add L y t') \<noteq> None) \<longleftrightarrow>
          (\<exists>ys y zs t'. xs = ys @ y # zs \<and> add_objects L ys t1 = Ret t' \<and> fst (tk_Add L y t') \<noteq> None)"
        (is "?l \<longleftrightarrow> ?r")
      proof
        assume ?l
        then obtain ys y zs t' where *: "x # xs = ys @ y # zs" "add_objects L ys t = Ret t'" "fst (tk_Add L y t') \<noteq> None"
          by blast
        then show ?r using Pair None by (cases ys) auto
      next
        assume ?r
        then obtain ys y zs t' where *: "xs = ys @ y # zs" "add_objects L ys t1 = Ret t'" "fst (tk_Add L y t') \<noteq> None"
          by blast
        then show ?l
          using Pair None by (intro exI [of _ "x # ys"] exI [of _ y] exI [of _ zs] exI [of _ t']) simp
      qed
      then show ?thesis using Cons Pair None by simp
    next
      case (Some err)
      then have "\<exists>ys y zs t'. x # xs = ys @ y # zs \<and> add_objects L ys t = Ret t' \<and> fst (tk_Add L y t') \<noteq> None"
        using Pair by (intro exI [of _ "[]"] exI [of _ x] exI [of _ xs] exI [of _ t]) simp
      then show ?thesis using Pair Some by simp
    qed
  qed
qed

text \<open>The test client set panics exactly when the tracker refuses one of the objects.\<close>

theorem NewSimpleClientset_panics:
  "NewSimpleClientset L xs = Panic \<longleftrightarrow>
     (\<exists>ys x zs t. xs = ys @ x # zs \<and> add_objects L ys (tk_New L) = Ret t \<and> fst (tk_Add L x t) \<noteq> None)"
  unfolding add_objects_panics [symmetric] NewSimpleClientset_def by (simp split: outcome.split)

end
