(* ===== verification/Spec2Isabelle.thy ===== *)
theory Spec2Isabelle
  imports Prop_Volumes Prop_Reconcile Prop_Process Prop_System Prop_Cache Prop_DeepCopy Prop_Clients
    Prop_Lifecycle Prop_Placement Prop_Ownership Prop_Startup Prop_Wiring Prop_Cluster Prop_Flags LS_Fake
begin

text \<open>
  A verification library for \<^verbatim>\<open>csi-driver-localstorage\<close>, a CSI driver that serves directories of
  a node as volumes. The program has four parts that share one kind of object, the cluster-scoped
  \<open>LocalStorage\<close> (one per node: its backend, phase, capacity, allocatable quantity and volumes):

  \<^item> the node plugin (\<^verbatim>\<open>pkg/localstorage\<close>): CSI handlers that create and delete volumes, and a
    reconciliation loop that initialises the node's object;
  \<^item> the cluster controller (\<^verbatim>\<open>pkg/controller/storage\<close>): moves new objects to \<open>Initiating\<close> and
    deleted ones to \<open>Terminating\<close>;
  \<^item> the admission webhooks (\<^verbatim>\<open>pkg/webhook\<close>): defaults and validation;
  \<^item> the scheduler extender (\<^verbatim>\<open>pkg/scheduler\<close>): filters and ranks nodes for pods.

  They interact only through the API server: each reads objects from an informer cache that may
  be stale and writes whole objects back with a version-checked update.

  Theories, in the order they build on each other:

  \<^item> \<open>LS_Prelude\<close>: Go's errors, call outcomes (value, error, panic), \<open>int64\<close>, list lemmas.
  \<^item> \<open>Go_Path\<close>, \<open>Go_Os\<close>, \<open>Go_Float\<close>: what the program uses of \<open>path/filepath\<close>, of \<open>os\<close> (on an
    explicit file tree with an oracle for refused operations) and of \<open>float64\<close> arithmetic.
  \<^item> \<open>LS_Types\<close>: the API types as records. \<open>LS_Util\<close>: \<^verbatim>\<open>pkg/util\<close> (phases, the list of volumes,
    finalizers); the locale \<open>keyed_collection\<close> is the contract of the last two.
  \<^item> \<open>LS_Services\<close>: what is outside the repository (API client, informer cache, UUIDs) as a record
    of functions, with its documented contracts (\<open>update_contract\<close>, \<open>cache_contract\<close>,
    \<open>create_contract\<close>), and the generated lister.
  \<^item> \<open>LS_StorageUtil\<close>: \<^verbatim>\<open>pkg/util/storage\<close>; the locale \<open>dir_store\<close> is the contract of the volume
    directories.
  \<^item> \<open>LS_Csi\<close>: \<^verbatim>\<open>controllerserver.go\<close>, \<^verbatim>\<open>nodeserver.go\<close>, \<^verbatim>\<open>identityserver.go\<close>. \<open>LS_Ledger\<close>: the
    abstract specification of the volume handlers, a ledger of bytes per volume, and the
    refinement of it by what the handlers submit.
  \<^item> \<open>LS_Worker\<close>: the work queue as an argument, the locale \<open>retrying\<close>, the contract of both
    error handlers, and \<open>queue_worker\<close>, that of both workers. \<open>LS_Plugin\<close>:
    \<^verbatim>\<open>localstorage.go\<close>. \<open>LS_Controller\<close>: \<^verbatim>\<open>storage_controller.go\<close>.
  \<^item> \<open>LS_Webhook\<close>: \<^verbatim>\<open>mutating.go\<close>, \<^verbatim>\<open>validating.go\<close>, and the objects admission lets through.
  \<^item> \<open>LS_Pvc\<close>, \<open>LS_Extender\<close>: how a pod's claim is found (with the polling wait), filtering,
    scoring and the HTTP handlers. \<open>LS_Endpoint\<close>: the plugin's gRPC endpoint.
  \<^item> \<open>LS_Process\<close>: the server's life and \<open>Run\<close>, signals, the choice of clients, the plugin's
    configuration and the job of \<^verbatim>\<open>cmd\<close>, the extender's routes.
  \<^item> \<open>LS_Main\<close>: the main functions of \<^verbatim>\<open>cmd\<close> over the results of the libraries they call, what
    signals and the lease do to the controller's process, and the wiring of informer events.
  \<^item> \<open>Go_Flag\<close>, \<open>LS_Flags\<close>: Go's flags and the parsing of a command line, and the commands of \<^verbatim>\<open>cmd\<close>
    from their \<open>init\<close> functions to \<open>main\<close>.
  \<^item> \<open>LS_Wiring\<close>: the constructors of controller, plugin and extender on a shared informer, the
    webhook handlers as objects, and the order in which \<^verbatim>\<open>cmd\<close> constructs and starts them.
  \<^item> \<open>LS_Client\<close>, \<open>LS_Informers\<close>: the generated client (the requests it builds, the construction of
    client sets) and the informer factory (\<^verbatim>\<open>pkg/client\<close>). \<open>LS_Fake\<close>: the client set for tests,
    shown to agree with the real one, and the schemes the types are registered in.
    \<open>LS_DeepCopy\<close>: the generated deep copies on a heap of structs with addresses, and the locale
    \<open>deep_copy\<close>, the contract of every copy.
  \<^item> \<open>Go_Utf8\<close>, \<open>Go_Json\<close>, \<open>Go_Json_Roundtrip\<close>, \<open>Go_File\<close>: UTF-8, the texts of \<open>encoding/json\<close>
    written and read, the proof that what is written is read back, and whole files. \<open>LS_Cache\<close>: the
    volume cache of \<^verbatim>\<open>pkg/cache\<close> on them; the locales \<open>map_store\<close> and \<open>durable_store\<close> are what its
    users rely on.
  \<^item> \<open>LS_System\<close>: plugins, controller and webhooks as one step relation around the API server, with
    the event of each step and the traces of runs, and what a step can do to the stored objects.
    \<open>LS_Safety\<close>: balance, one object per node and directories along a trace, but for the events
    that break them. \<open>LS_Typing\<close>: the well-formedness of the stored objects, which every step keeps.
  \<^item> \<open>LS_Cluster\<close>: the abstract specification of the system, a map from names to accounts (a node, a
    phase, a ledger and what an initialisation forgot) with its steps and its invariant; the locale
    \<open>simulation\<close>, interpreted on the system's steps; the invariants of the specification hold of the
    system by it.
  \<^item> \<open>LS_Instance\<close>: a concrete environment on which all the laws hold, for the witnesses.
  \<^item> \<open>Prop_Volumes\<close>, \<open>Prop_Reconcile\<close>, \<open>Prop_Admission\<close>, \<open>Prop_Scheduler\<close>, \<open>Prop_Process\<close>,
    \<open>Prop_System\<close>, \<open>Prop_Cache\<close>, \<open>Prop_DeepCopy\<close>, \<open>Prop_Clients\<close> and the end of \<open>LS_Endpoint\<close>: the
    properties, each with its number and a sentence on what it says.
  \<^item> Properties of several calls or several components: \<open>Prop_Lifecycle\<close> (a creation and a deletion
    cancel, repeated creations do not, repeated deletions release once), \<open>Prop_Placement\<close> (the
    scheduler's answer keeps the plugin from overcommitting a node), \<open>Prop_Ownership\<close> (the one way in
    which a plugin can change an object of another node), \<open>Prop_Startup\<close> (a new object from admission
    to \<open>Ready\<close>, also when updates fail or the cache lags on the way), \<open>Prop_Wiring\<close> (handlers, lister and readiness
    are of one informer), \<open>Prop_Cluster\<close> (the system implements the abstract cluster, and a volume is
    recorded once in it), \<open>Prop_Flags\<close> (command lines give the flags back).

  How the code is rendered. A handler is a function of its request and the world (the node's file
  tree and the state behind the services) that returns an outcome and the new world. Handlers
  and \<open>sync\<close> hold the driver's mutex throughout, so each is one step. A struct is a record, a
  pointer field an option, and dereferencing nil is the outcome \<open>Panic\<close>. \<open>DeepCopy\<close> is the
  identity on values, which \<open>LS_DeepCopy\<close> justifies: a copy has the same value and shares nothing.
  A Go string is a list of bytes. The order in which Go visits a map is an argument. Index loops
  that delete while iterating keep the index. Loops that may not end are partial functions into
  \<open>option\<close>: the wait for a claim (which is proved to return when sleeping takes time: 10 rounds of
  200 ms exceed its 2 seconds) and the workers (which end only when their queue is shut down, and
  then do end). File trees form a preorder, by what exists in
  them.

  What the assumptions are. A property assumes of code outside the repository what that code
  documents, as named predicates: exact quantities (\<open>quantity_laws\<close>), an update that applies only
  to the submitted version and may fail after it was applied, a cache whose objects are current
  when their version is, queue counters and keys, an indexer that finds objects by name, a clock
  that advances while sleeping, requests that the API server carries out, refuses or loses
  (\<open>rest_contract\<close>, which reads dry runs, selectors and pages from the options). The steps of
  \<open>LS_System\<close> have no guards the code does not have: any ID may be deleted, any key reconciled, any
  listing answered to the validator, and a validated creation stored any time later. What a
  property needs of a run it says of the events of its trace, in its statement and in its text:
  that generated IDs are new plain names (\<open>id_fresh\<close>), that requests from outside leave the status
  alone (\<open>status_kept\<close>), or, as the exception it allows, that the run has a reset (\<open>resets\<close>), a
  deletion by a path or on a shared node (\<open>wild_delete\<close>), or a creation admitted blindly
  (\<open>blind_admission\<close>). Freshness of the cache is assumed by the two properties of \<open>Prop_Startup\<close> only:
  in one when an event is handled, of the object it announces; in the other of attempts that are
  not among the at most 15 in a row that fail.

  Bounds. The JSON reader has the nesting limit of Go's scanner (10000), which is also what makes it
  terminate; what the cache writes nests twice. Of JSON errors only the kind is kept, of files not
  the permission bits.

  What is not modelled: logging, profiling, the broadcasting of events, the flags other imported
  packages define besides the log library's, the REST client, the schemes' and trackers' insides,
  leader election and informers behind the generated code (libraries, whose answers are
  arguments), and symbolic links in the file tree.
  The component list of the manifest gives the reason for each.
\<close>

end
